(* ===== verification/Prelude.thy ===== *)
theory Prelude
  imports Complex_Main "HOL-Library.AList"
begin

text \<open>
  Shared vocabulary of the development: the named collections that carry the component proofs,
  the transport model (a request to a remote service can be lost before or after the service
  executes it), and the generic facts about lists, maps and string prefixes that several
  components use.
\<close>

named_theorems call_simps "unfolding of remote calls over each transport outcome"
named_theorems view_simps "laws of the remote stores, as rewrite rules"
named_theorems key_simps "distinctness of the Redis keys"

section \<open>Results and remote calls\<close>

text \<open>
  A Python function that may raise is a function into a sum: \<open>Inl\<close> is the exception,
  \<open>Inr\<close> the returned value.
\<close>

definition bind_result :: "'e + 'a \<Rightarrow> ('a \<Rightarrow> 'e + 'b) \<Rightarrow> 'e + 'b" where
  "bind_result m f = (case m of Inl e \<Rightarrow> Inl e | Inr x \<Rightarrow> f x)"

lemma bind_result_simps [simp]:
  "bind_result (Inl e) f = Inl e"
  "bind_result (Inr x) f = f x"
  by (simp_all add: bind_result_def)

lemma bind_result_Inr_iff:
  "bind_result m f = Inr y \<longleftrightarrow> (\<exists>x. m = Inr x \<and> f x = Inr y)"
  by (cases m) auto

lemma bind_result_Inl_iff:
  "bind_result m f = Inl e \<longleftrightarrow> m = Inl e \<or> (\<exists>x. m = Inr x \<and> f x = Inl e)"
  by (cases m) auto

lemma bind_result_cong [fundef_cong]:
  "m = m' \<Longrightarrow> (\<And>x. m' = Inr x \<Longrightarrow> f x = g x) \<Longrightarrow> bind_result m f = bind_result m' g"
  by (cases m') auto

text \<open>
  One round trip to a remote service. The client sees an error both when the request never
  arrives and when only the reply is lost; in the second case the service has changed its state.
\<close>

datatype link = Delivered | RequestLost | ReplyLost

fun call :: "link \<Rightarrow> ('s \<Rightarrow> 'a \<times> 's) \<Rightarrow> 's \<Rightarrow> 'a option \<times> 's" where
  "call Delivered f s = (Some (fst (f s)), snd (f s))"
| "call RequestLost f s = (None, s)"
| "call ReplyLost f s = (None, snd (f s))"

declare call.simps [call_simps]

lemma call_state_cases: "snd (call l f s) = s \<or> snd (call l f s) = snd (f s)"
  by (cases l) simp_all

lemma call_result_Some: "fst (call l f s) = Some x \<Longrightarrow> l = Delivered \<and> x = fst (f s)"
  by (cases l) simp_all

section \<open>Lists and maps\<close>

lemma remove1_append_distinct:
  "distinct (xs @ ys) \<Longrightarrow> x \<in> set ys \<Longrightarrow> remove1 x (xs @ ys) = xs @ remove1 x ys"
  by (auto simp: remove1_append)

lemma set_remove1_distinct [simp]: "distinct xs \<Longrightarrow> set (remove1 x xs) = set xs - {x}"
  by (simp add: set_remove1_eq)

lemma length_remove1_le: "length (remove1 x xs) \<le> length xs"
  by (induction xs) auto

lemma count_list_distinct: "distinct xs \<Longrightarrow> x \<in> set xs \<Longrightarrow> count_list xs x = 1"
  by (induction xs) auto

definition map_upd_list :: "('a \<rightharpoonup> 'b) \<Rightarrow> ('a \<times> 'b) list \<Rightarrow> ('a \<rightharpoonup> 'b)" where
  "map_upd_list m kvs = fold (\<lambda>(k, v) f. f(k \<mapsto> v)) kvs m"

lemma map_upd_list_simps [simp]:
  "map_upd_list m [] = m"
  "map_upd_list m ((k, v) # kvs) = map_upd_list (m(k \<mapsto> v)) kvs"
  by (simp_all add: map_upd_list_def)

lemma map_upd_list_nonempty: "kvs \<noteq> [] \<Longrightarrow> map_upd_list m kvs \<noteq> Map.empty"
proof (induction kvs arbitrary: m)
  case (Cons kv kvs)
  obtain k v where kv: "kv = (k, v)" by (cases kv)
  show ?case
  proof (cases "kvs = []")
    case True
    then show ?thesis by (simp add: kv del: fun_upd_apply)
  next
    case False
    then show ?thesis using Cons.IH [of "m(k \<mapsto> v)"] by (simp add: kv del: fun_upd_apply)
  qed
qed simp

lemma map_of_fold_update:
  "map_of (fold (\<lambda>(k, v). AList.update k v) kvs al) = map_upd_list (map_of al) kvs"
  by (induction kvs arbitrary: al) (auto simp: map_upd_list_def update_conv')

lemma map_upd_list_add: "map_upd_list m kvs = m ++ map_of (rev kvs)"
  by (induction kvs arbitrary: m) (auto simp: map_upd_list_def)

lemma map_upd_list_again: "map_upd_list (map_upd_list m kvs) kvs = map_upd_list m kvs"
  by (simp add: map_upd_list_add fun_eq_iff map_add_def split: option.split)

lemma map_of_empty_iff: "map_of al = Map.empty \<longleftrightarrow> al = []"
  by (cases al) (auto simp: fun_eq_iff split: if_splits)

text \<open>A text without the character NUL.\<close>

definition no_nul :: "string \<Rightarrow> bool" where
  "no_nul t \<longleftrightarrow> CHR 0x00 \<notin> set t"

end
