(* ===== verification/Redis_Server.thy ===== *)
theory Redis_Server
  imports Prelude
begin

text \<open>
  The interface of the Redis server that \<open>src/app/async_queue.py\<close> talks to. Redis itself is
  not part of the repository: the commands the queue uses are the fields of the record
  \<open>redis\<close>, every definition of the queue takes such a record as an argument, and the locale
  \<open>redis_server\<close> states the documented effect of each command on the key space. The
  reference instance \<open>mem_redis\<close> shows that the laws can be met, and the witnesses of the
  properties run on it.
\<close>

section \<open>Commands\<close>

text \<open>
  \<open>r_lrem\<close> is \<open>LREM key 1 value\<close>, \<open>r_lrange\<close> is \<open>LRANGE key 0 -1\<close>,
  \<open>r_lmove\<close> is \<open>LMOVE source destination LEFT RIGHT\<close> (what \<open>BLMOVE\<close> does at the moment
  it is served; \<open>None\<close> is its timeout), \<open>r_set_nx_ex\<close> is \<open>SET key value NX EX seconds\<close>.
  \<open>r_tick\<close> is not a command: it is the passing of the server's time, which expires keys.
\<close>

record 's redis =
  r_exists :: "string \<Rightarrow> 's \<Rightarrow> bool"
  r_hget :: "string \<Rightarrow> string \<Rightarrow> 's \<Rightarrow> string option"
  r_hgetall :: "string \<Rightarrow> 's \<Rightarrow> (string \<times> string) list"
  r_llen :: "string \<Rightarrow> 's \<Rightarrow> nat"
  r_lrange :: "string \<Rightarrow> 's \<Rightarrow> string list"
  r_hset :: "string \<Rightarrow> (string \<times> string) list \<Rightarrow> 's \<Rightarrow> 's"
  r_hdel :: "string \<Rightarrow> string \<Rightarrow> 's \<Rightarrow> 's"
  r_expire :: "string \<Rightarrow> int \<Rightarrow> 's \<Rightarrow> 's"
  r_rpush :: "string \<Rightarrow> string \<Rightarrow> 's \<Rightarrow> 's"
  r_lrem :: "string \<Rightarrow> string \<Rightarrow> 's \<Rightarrow> nat \<times> 's"
  r_lmove :: "string \<Rightarrow> string \<Rightarrow> 's \<Rightarrow> string option \<times> 's"
  r_set_nx_ex :: "string \<Rightarrow> string \<Rightarrow> int \<Rightarrow> 's \<Rightarrow> bool \<times> 's"
  r_tick :: "rat \<Rightarrow> 's \<Rightarrow> 's"

section \<open>The key space\<close>

text \<open>
  A key holds a string, a hash or a list, and may have a time to live in seconds. Redis never
  keeps an empty hash or list: removing the last element removes the key.
\<close>

datatype rvalue = RStr string | RHash "string \<rightharpoonup> string" | RList "string list"

type_synonym keyspace = "string \<rightharpoonup> rvalue \<times> rat option"

fun list_at :: "keyspace \<Rightarrow> string \<Rightarrow> string list" where
  "list_at ks k = (case ks k of Some (RList xs, _) \<Rightarrow> xs | _ \<Rightarrow> [])"

fun hash_at :: "keyspace \<Rightarrow> string \<Rightarrow> (string \<rightharpoonup> string)" where
  "hash_at ks k = (case ks k of Some (RHash h, _) \<Rightarrow> h | _ \<Rightarrow> Map.empty)"

fun ttl_at :: "keyspace \<Rightarrow> string \<Rightarrow> rat option" where
  "ttl_at ks k = (case ks k of Some (_, t) \<Rightarrow> t | None \<Rightarrow> None)"

fun is_list_key :: "keyspace \<Rightarrow> string \<Rightarrow> bool" where
  "is_list_key ks k = (case ks k of None \<Rightarrow> True | Some (RList xs, _) \<Rightarrow> xs \<noteq> [] | _ \<Rightarrow> False)"

fun is_hash_key :: "keyspace \<Rightarrow> string \<Rightarrow> bool" where
  "is_hash_key ks k =
     (case ks k of None \<Rightarrow> True | Some (RHash h, _) \<Rightarrow> h \<noteq> Map.empty | _ \<Rightarrow> False)"

declare list_at.simps [simp del] hash_at.simps [simp del] ttl_at.simps [simp del]
  is_list_key.simps [simp del] is_hash_key.simps [simp del]

lemmas key_views = list_at.simps hash_at.simps ttl_at.simps is_list_key.simps is_hash_key.simps

definition put_list :: "string \<Rightarrow> string list \<Rightarrow> keyspace \<Rightarrow> keyspace" where
  "put_list k xs ks = ks(k := if xs = [] then None else Some (RList xs, ttl_at ks k))"

definition put_hash :: "string \<Rightarrow> (string \<rightharpoonup> string) \<Rightarrow> keyspace \<Rightarrow> keyspace" where
  "put_hash k h ks = ks(k := if h = Map.empty then None else Some (RHash h, ttl_at ks k))"

definition put_ttl :: "string \<Rightarrow> int \<Rightarrow> keyspace \<Rightarrow> keyspace" where
  "put_ttl k n ks =
     (case ks k of None \<Rightarrow> ks
      | Some (v, _) \<Rightarrow> if n \<le> 0 then ks(k := None) else ks(k \<mapsto> (v, Some (of_int n))))"

definition age :: "rat \<Rightarrow> keyspace \<Rightarrow> keyspace" where
  "age d ks = (\<lambda>k. case ks k of
       None \<Rightarrow> None
     | Some (v, None) \<Rightarrow> Some (v, None)
     | Some (v, Some t) \<Rightarrow> if t \<le> d then None else Some (v, Some (t - d)))"

section \<open>The laws\<close>

locale redis_server =
  fixes R :: "'s redis" and view :: "'s \<Rightarrow> keyspace"
  assumes exists_law: "r_exists R k s \<longleftrightarrow> view s k \<noteq> None"
    and hget_law: "is_hash_key (view s) k \<Longrightarrow> r_hget R k f s = hash_at (view s) k f"
    and hgetall_law: "is_hash_key (view s) k \<Longrightarrow> map_of (r_hgetall R k s) = hash_at (view s) k"
    and llen_law: "is_list_key (view s) k \<Longrightarrow> r_llen R k s = length (list_at (view s) k)"
    and lrange_law: "is_list_key (view s) k \<Longrightarrow> r_lrange R k s = list_at (view s) k"
    and hset_law: "is_hash_key (view s) k \<Longrightarrow> fvs \<noteq> [] \<Longrightarrow>
      view (r_hset R k fvs s) = put_hash k (map_upd_list (hash_at (view s) k) fvs) (view s)"
    and hdel_law: "is_hash_key (view s) k \<Longrightarrow>
      view (r_hdel R k f s) = put_hash k ((hash_at (view s) k)(f := None)) (view s)"
    and expire_law: "view (r_expire R k n s) = put_ttl k n (view s)"
    and rpush_law: "is_list_key (view s) k \<Longrightarrow>
      view (r_rpush R k x s) = put_list k (list_at (view s) k @ [x]) (view s)"
    and lrem_law: "is_list_key (view s) k \<Longrightarrow>
      fst (r_lrem R k x s) = (if x \<in> set (list_at (view s) k) then 1 else 0) \<and>
      view (snd (r_lrem R k x s)) = put_list k (remove1 x (list_at (view s) k)) (view s)"
    and lmove_law: "is_list_key (view s) a \<Longrightarrow> is_list_key (view s) b \<Longrightarrow> a \<noteq> b \<Longrightarrow>
      (case list_at (view s) a of
         [] \<Rightarrow> fst (r_lmove R a b s) = None \<and> view (snd (r_lmove R a b s)) = view s
       | x # xs \<Rightarrow> fst (r_lmove R a b s) = Some x \<and>
           view (snd (r_lmove R a b s)) =
             put_list b (list_at (view s) b @ [x]) (put_list a xs (view s)))"
    and set_nx_law: "0 < n \<Longrightarrow>
      fst (r_set_nx_ex R k v n s) = (view s k = None) \<and>
      view (snd (r_set_nx_ex R k v n s)) =
        (if view s k = None then (view s)(k \<mapsto> (RStr v, Some (of_int n))) else view s)"
    and tick_law: "0 \<le> d \<Longrightarrow> view (r_tick R d s) = age d (view s)"
begin

lemma lrem_count [view_simps]:
  "is_list_key (view s) k \<Longrightarrow>
     fst (r_lrem R k x s) = (if x \<in> set (list_at (view s) k) then 1 else 0)"
  using lrem_law by blast

lemma lrem_view [view_simps]:
  "is_list_key (view s) k \<Longrightarrow>
     view (snd (r_lrem R k x s)) = put_list k (remove1 x (list_at (view s) k)) (view s)"
  using lrem_law by blast

lemma lmove_empty:
  assumes "is_list_key (view s) a" "is_list_key (view s) b" "a \<noteq> b" "list_at (view s) a = []"
  shows "fst (r_lmove R a b s) = None" "view (snd (r_lmove R a b s)) = view s"
  using lmove_law [OF assms(1-3)] assms(4) by simp_all

lemma lmove_cons:
  assumes "is_list_key (view s) a" "is_list_key (view s) b" "a \<noteq> b"
    and "list_at (view s) a = x # xs"
  shows "fst (r_lmove R a b s) = Some x"
    and "view (snd (r_lmove R a b s)) =
           put_list b (list_at (view s) b @ [x]) (put_list a xs (view s))"
  using lmove_law [OF assms(1-3)] assms(4) by simp_all

lemmas set_nx = set_nx_law [THEN conjunct1] set_nx_law [THEN conjunct2]

lemmas read_laws = exists_law hget_law hgetall_law llen_law lrange_law
lemmas write_laws = hset_law hdel_law expire_law rpush_law tick_law

end

section \<open>How the writes show in the reads\<close>

lemma list_at_put_list [simp]:
  "list_at (put_list k xs ks) k' = (if k' = k then xs else list_at ks k')"
  by (auto simp: put_list_def key_views)

lemma list_at_put_hash [simp]:
  "k' \<noteq> k \<Longrightarrow> list_at (put_hash k h ks) k' = list_at ks k'"
  by (auto simp: put_hash_def key_views)

lemma list_at_put_ttl [simp]:
  "k' \<noteq> k \<Longrightarrow> list_at (put_ttl k n ks) k' = list_at ks k'"
  by (auto simp: put_ttl_def key_views split: option.splits)

lemma put_other [simp]:
  "k' \<noteq> k \<Longrightarrow> put_list k xs ks k' = ks k'"
  "k' \<noteq> k \<Longrightarrow> put_hash k h ks k' = ks k'"
  "k' \<noteq> k \<Longrightarrow> put_ttl k n ks k' = ks k'"
  by (auto simp: put_list_def put_hash_def put_ttl_def split: option.splits)

lemma is_list_key_put [simp]:
  "is_list_key (put_list k xs ks) k' \<longleftrightarrow> k' = k \<or> is_list_key ks k'"
  "k' \<noteq> k \<Longrightarrow> is_list_key (put_hash k h ks) k' \<longleftrightarrow> is_list_key ks k'"
  "k' \<noteq> k \<Longrightarrow> is_list_key (put_ttl k n ks) k' \<longleftrightarrow> is_list_key ks k'"
  by (auto simp: is_list_key.simps put_list_def put_hash_def put_ttl_def split: option.splits)

lemma is_hash_key_put [simp]:
  "is_hash_key (put_hash k h ks) k' \<longleftrightarrow> k' = k \<or> is_hash_key ks k'"
  "k' \<noteq> k \<Longrightarrow> is_hash_key (put_list k xs ks) k' \<longleftrightarrow> is_hash_key ks k'"
  "is_hash_key (put_ttl k n ks) k' \<longleftrightarrow>
     (if k' = k \<and> n \<le> 0 then True else is_hash_key ks k')"
  by (auto simp: is_hash_key.simps put_list_def put_hash_def put_ttl_def
      split: option.splits if_splits)

lemma hash_at_put_hash [simp]:
  "hash_at (put_hash k h ks) k' = (if k' = k then h else hash_at ks k')"
  by (auto simp: put_hash_def key_views)

lemma hash_at_put_list [simp]:
  "k' \<noteq> k \<Longrightarrow> hash_at (put_list k xs ks) k' = hash_at ks k'"
  by (auto simp: put_list_def key_views)

lemma hash_at_put_ttl [simp]:
  "0 < n \<Longrightarrow> hash_at (put_ttl k n ks) k' = hash_at ks k'"
  by (auto simp: put_ttl_def key_views split: option.splits)

lemma is_list_key_age: "ttl_at ks k = None \<Longrightarrow> is_list_key (age d ks) k = is_list_key ks k"
  by (auto simp: age_def key_views split: option.splits)

lemma list_at_age: "ttl_at ks k = None \<Longrightarrow> list_at (age d ks) k = list_at ks k"
  by (auto simp: age_def key_views split: option.splits)

lemma is_hash_key_age: "is_hash_key ks k \<Longrightarrow> is_hash_key (age d ks) k"
  by (auto simp: age_def key_views split: option.splits)

lemma ttl_at_put [simp]:
  "ttl_at ks k = None \<Longrightarrow> ttl_at (put_list k' xs ks) k = None"
  "k \<noteq> k' \<Longrightarrow> ttl_at (put_hash k' h ks) k = ttl_at ks k"
  "k \<noteq> k' \<Longrightarrow> ttl_at (put_ttl k' n ks) k = ttl_at ks k"
  by (auto simp: put_list_def put_hash_def put_ttl_def ttl_at.simps split: option.splits)

lemma ttl_at_age: "ttl_at ks k = None \<Longrightarrow> ttl_at (age d ks) k = None"
  by (auto simp: age_def ttl_at.simps split: option.splits)

section \<open>A reference server\<close>

text \<open>
  An in-memory server that executes the commands on association lists. It serves as the
  instance on which the witnesses run.
\<close>

datatype mvalue = MStr string | MHash "(string \<times> string) list" | MList "string list"

type_synonym mem = "string \<rightharpoonup> mvalue \<times> rat option"

fun mem_hash :: "mem \<Rightarrow> string \<Rightarrow> (string \<times> string) list" where
  "mem_hash m k = (case m k of Some (MHash al, _) \<Rightarrow> al | _ \<Rightarrow> [])"

fun mem_list :: "mem \<Rightarrow> string \<Rightarrow> string list" where
  "mem_list m k = (case m k of Some (MList xs, _) \<Rightarrow> xs | _ \<Rightarrow> [])"

fun mem_ttl :: "mem \<Rightarrow> string \<Rightarrow> rat option" where
  "mem_ttl m k = (case m k of Some (_, t) \<Rightarrow> t | None \<Rightarrow> None)"

fun store_list :: "string \<Rightarrow> string list \<Rightarrow> mem \<Rightarrow> mem" where
  "store_list k xs m = m(k := if xs = [] then None else Some (MList xs, mem_ttl m k))"

fun store_hash :: "string \<Rightarrow> (string \<times> string) list \<Rightarrow> mem \<Rightarrow> mem" where
  "store_hash k al m = m(k := if al = [] then None else Some (MHash al, mem_ttl m k))"

definition mem_redis :: "mem redis" where
  "mem_redis = \<lparr>
     r_exists = (\<lambda>k m. m k \<noteq> None),
     r_hget = (\<lambda>k f m. map_of (mem_hash m k) f),
     r_hgetall = (\<lambda>k m. mem_hash m k),
     r_llen = (\<lambda>k m. length (mem_list m k)),
     r_lrange = (\<lambda>k m. mem_list m k),
     r_hset = (\<lambda>k fvs m. store_hash k (fold (\<lambda>(f, v). AList.update f v) fvs (mem_hash m k)) m),
     r_hdel = (\<lambda>k f m. store_hash k (AList.delete f (mem_hash m k)) m),
     r_expire = (\<lambda>k n m. case m k of None \<Rightarrow> m
        | Some (v, _) \<Rightarrow> if n \<le> 0 then m(k := None) else m(k \<mapsto> (v, Some (of_int n)))),
     r_rpush = (\<lambda>k x m. store_list k (mem_list m k @ [x]) m),
     r_lrem = (\<lambda>k x m. (if x \<in> set (mem_list m k) then 1 else 0,
        store_list k (remove1 x (mem_list m k)) m)),
     r_lmove = (\<lambda>a b m. case mem_list m a of [] \<Rightarrow> (None, m)
        | x # xs \<Rightarrow> (Some x, store_list b (mem_list m b @ [x]) (store_list a xs m))),
     r_set_nx_ex = (\<lambda>k v n m. if m k = None then (True, m(k \<mapsto> (MStr v, Some (of_int n))))
        else (False, m)),
     r_tick = (\<lambda>d m k. case m k of None \<Rightarrow> None
        | Some (v, None) \<Rightarrow> Some (v, None)
        | Some (v, Some t) \<Rightarrow> if t \<le> d then None else Some (v, Some (t - d)))\<rparr>"

fun mem_value :: "mvalue \<Rightarrow> rvalue" where
  "mem_value (MStr x) = RStr x"
| "mem_value (MHash al) = RHash (map_of al)"
| "mem_value (MList xs) = RList xs"

definition mem_view :: "mem \<Rightarrow> keyspace" where
  "mem_view m k = map_option (\<lambda>(v, t). (mem_value v, t)) (m k)"

lemma mem_view_None [simp]: "mem_view m k = None \<longleftrightarrow> m k = None"
  by (simp add: mem_view_def)

lemma mem_reads:
  "is_hash_key (mem_view m) k \<Longrightarrow> map_of (mem_hash m k) = hash_at (mem_view m) k"
  "is_list_key (mem_view m) k \<Longrightarrow> mem_list m k = list_at (mem_view m) k"
  "mem_ttl m k = ttl_at (mem_view m) k"
  by (auto simp: mem_view_def key_views split: option.splits mvalue.splits)

lemma mem_view_upd:
  "mem_view (m(k := v)) = (mem_view m)(k := map_option (\<lambda>(v, t). (mem_value v, t)) v)"
  by (auto simp: mem_view_def fun_eq_iff)

lemma mem_view_store:
  "mem_view (store_list k xs m) = put_list k xs (mem_view m)"
  "mem_view (store_hash k al m) = put_hash k (map_of al) (mem_view m)"
  by (simp_all add: mem_view_upd put_list_def put_hash_def mem_reads map_of_empty_iff
      del: mem_ttl.simps)

lemma map_of_hset:
  "is_hash_key (mem_view m) k \<Longrightarrow>
     map_of (fold (\<lambda>(f, v). AList.update f v) fvs (mem_hash m k)) =
     map_upd_list (hash_at (mem_view m) k) fvs"
  by (simp add: map_of_fold_update mem_reads del: mem_hash.simps)

interpretation mem: redis_server mem_redis mem_view
proof (unfold_locales, goal_cases)
  case (6 s k fvs)
  then show ?case
    by (simp add: mem_redis_def mem_view_store map_of_hset del: mem_hash.simps store_hash.simps)
next
  case (7 s k f)
  then show ?case
    by (simp add: mem_redis_def mem_view_store delete_conv' mem_reads
        del: mem_hash.simps store_hash.simps)
next
  case (8 k n s)
  show ?case
    by (auto simp: mem_redis_def put_ttl_def mem_view_def fun_eq_iff split: option.splits)
next
  case (11 s a b)
  then show ?case
    by (auto simp: mem_redis_def mem_view_store mem_reads
        simp del: mem_list.simps store_list.simps split: list.splits)
next
  case (12 n k v s)
  then show ?case by (simp add: mem_redis_def mem_view_upd)
next
  case (13 d s)
  then show ?case
    by (auto simp: mem_redis_def age_def mem_view_def fun_eq_iff split: option.splits)
qed (simp_all add: mem_redis_def mem_reads mem_view_store del: mem_hash.simps mem_list.simps
    store_list.simps store_hash.simps)

end
