(* ===== verification/Json.thy ===== *)
theory Json
  imports Prelude "HOL-Library.List_Lexorder" "HOL-Library.Char_ord"
begin

text \<open>
  JSON values and the two functions of Python's \<open>json\<close> module the program stores and reads
  its data with: \<open>json.dumps(v, separators=(",", ":"), sort_keys=True)\<close> and \<open>json.loads\<close>.
  Text is Latin-1 (a \<open>char\<close> is a code point below 256). A float is represented by a text that
  denotes it; \<open>float.__repr__\<close>, which prints it, is the parameter \<open>fr\<close> of the printer.
  A \<open>dict\<close> is an association list in insertion order.
\<close>

section \<open>Values\<close>

datatype json =
    JNull
  | JBool bool
  | JInt int
  | JFloat string
  | JStr string
  | JList "json list"
  | JDict "(string \<times> json) list"

section \<open>Decimal numerals\<close>

definition digit_char :: "nat \<Rightarrow> char" where
  "digit_char d = char_of (48 + d)"

definition is_digit :: "char \<Rightarrow> bool" where
  "is_digit c \<longleftrightarrow> 48 \<le> (of_char c :: nat) \<and> (of_char c :: nat) \<le> 57"

definition digit_val :: "char \<Rightarrow> nat" where
  "digit_val c = of_char c - 48"

fun show_nat :: "nat \<Rightarrow> string" where
  "show_nat n = (if n < 10 then [digit_char n] else show_nat (n div 10) @ [digit_char (n mod 10)])"

declare show_nat.simps [simp del]

definition show_int :: "int \<Rightarrow> string" where
  "show_int i = (if i < 0 then CHR ''-'' # show_nat (nat (- i)) else show_nat (nat i))"

definition read_nat :: "string \<Rightarrow> nat" where
  "read_nat ds = foldl (\<lambda>a c. 10 * a + digit_val c) 0 ds"

lemma digit_char_props [simp]:
  "d < 10 \<Longrightarrow> is_digit (digit_char d)"
  "d < 10 \<Longrightarrow> digit_val (digit_char d) = d"
  by (simp_all add: is_digit_def digit_char_def digit_val_def)

lemma show_nat_digits: "\<forall>c \<in> set (show_nat n). is_digit c"
proof (induction n rule: show_nat.induct)
  case (1 n)
  then show ?case by (subst show_nat.simps) auto
qed

lemma show_nat_nonempty [simp]: "show_nat n \<noteq> []"
  by (subst show_nat.simps) simp

lemma read_show_nat [simp]: "read_nat (show_nat n) = n"
proof (induction n rule: show_nat.induct)
  case (1 n)
  show ?case
  proof (cases "n < 10")
    case True
    then show ?thesis by (subst show_nat.simps) (simp add: read_nat_def)
  next
    case False
    with 1 have "read_nat (show_nat (n div 10)) = n div 10" by simp
    with False show ?thesis
      by (subst show_nat.simps) (simp add: read_nat_def)
  qed
qed

lemma show_nat_leading_zero:
  "show_nat n = CHR ''0'' # ds \<Longrightarrow> n = 0 \<and> ds = []"
proof (induction n arbitrary: ds rule: show_nat.induct)
  case (1 n)
  show ?case
  proof (cases "n < 10")
    case True
    with 1(2) have "digit_char n = CHR ''0''" and "ds = []"
      by (simp_all add: show_nat.simps [of n])
    moreover have "digit_val (CHR ''0'') = 0" by (simp add: digit_val_def)
    ultimately show ?thesis using True digit_char_props(2) [of n] by simp
  next
    case False
    with 1(2) obtain ds' where "show_nat (n div 10) = CHR ''0'' # ds'"
      by (cases "show_nat (n div 10)") (auto simp: show_nat.simps [of n])
    with 1(1) False have "n div 10 = 0" by blast
    with False show ?thesis by simp
  qed
qed

section \<open>Printing\<close>

definition hex_char :: "nat \<Rightarrow> char" where
  "hex_char d = (if d < 10 then char_of (48 + d) else char_of (87 + d))"

definition esc_char :: "char \<Rightarrow> string" where
  "esc_char c =
     (let n = (of_char c :: nat) in
      if c = CHR 0x22 then [CHR 0x5C, CHR 0x22]
      else if c = CHR 0x5C then [CHR 0x5C, CHR 0x5C]
      else if n = 10 then [CHR 0x5C, CHR ''n'']
      else if n = 13 then [CHR 0x5C, CHR ''r'']
      else if n = 9 then [CHR 0x5C, CHR ''t'']
      else if n = 12 then [CHR 0x5C, CHR ''f'']
      else if n = 8 then [CHR 0x5C, CHR ''b'']
      else if 32 \<le> n \<and> n \<le> 126 then [c]
      else [CHR 0x5C, CHR ''u'', CHR ''0'', CHR ''0'', hex_char (n div 16), hex_char (n mod 16)])"

definition dump_str :: "string \<Rightarrow> string" where
  "dump_str s = CHR 0x22 # concat (map esc_char s) @ [CHR 0x22]"

fun join :: "string \<Rightarrow> string list \<Rightarrow> string" where
  "join sep [] = []"
| "join sep [x] = x"
| "join sep (x # y # xs) = x @ sep @ join sep (y # xs)"

fun json_dumps :: "(string \<Rightarrow> string) \<Rightarrow> json \<Rightarrow> string" where
  "json_dumps fr JNull = ''null''"
| "json_dumps fr (JBool b) = (if b then ''true'' else ''false'')"
| "json_dumps fr (JInt i) = show_int i"
| "json_dumps fr (JFloat t) = fr t"
| "json_dumps fr (JStr s) = dump_str s"
| "json_dumps fr (JList vs) = ''['' @ join '','' (map (json_dumps fr) vs) @ '']''"
| "json_dumps fr (JDict kvs) =
     ''{'' @ join '','' (map (\<lambda>(k, t). dump_str k @ '':'' @ t)
       (sort_key fst (map (\<lambda>(k, v). (k, json_dumps fr v)) kvs))) @ ''}''"

section \<open>Parsing\<close>

definition is_ws :: "char \<Rightarrow> bool" where
  "is_ws c \<longleftrightarrow> c \<in> {CHR '' '', CHR 0x09, CHR 0x0A, CHR 0x0D}"

abbreviation skip_ws :: "string \<Rightarrow> string" where
  "skip_ws \<equiv> dropWhile is_ws"

definition hex_val :: "char \<Rightarrow> nat option" where
  "hex_val c =
     (let n = (of_char c :: nat) in
      if 48 \<le> n \<and> n \<le> 57 then Some (n - 48)
      else if 97 \<le> n \<and> n \<le> 102 then Some (n - 87)
      else if 65 \<le> n \<and> n \<le> 70 then Some (n - 55)
      else None)"

definition unescape :: "char \<Rightarrow> char option" where
  "unescape e = map_of
     [(CHR 0x22, CHR 0x22), (CHR 0x5C, CHR 0x5C), (CHR ''/'', CHR ''/''), (CHR ''b'', CHR 0x08),
      (CHR ''f'', CHR 0x0C), (CHR ''n'', CHR 0x0A), (CHR ''r'', CHR 0x0D), (CHR ''t'', CHR 0x09)] e"

definition cons_fst :: "'a \<Rightarrow> ('a list \<times> 'b) option \<Rightarrow> ('a list \<times> 'b) option" where
  "cons_fst x r = map_option (\<lambda>(xs, rest). (x # xs, rest)) r"

text \<open>
  The body of a string literal, after its opening quote. A \<open>\u\<close> escape whose code point lies
  outside Latin-1 is outside the modelled text and is refused.
\<close>

fun parse_chars :: "string \<Rightarrow> (string \<times> string) option" where
  "parse_chars [] = None"
| "parse_chars (c # cs) =
     (if c = CHR 0x22 then Some ([], cs)
      else if c = CHR 0x5C then
        (case cs of
           e # a # b # x # y # rest \<Rightarrow>
             (if e = CHR ''u'' then
                (case (hex_val a, hex_val b, hex_val x, hex_val y) of
                   (Some 0, Some 0, Some h, Some l) \<Rightarrow>
                     cons_fst (char_of (16 * h + l)) (parse_chars rest)
                 | _ \<Rightarrow> None)
              else (case unescape e of None \<Rightarrow> None
                    | Some d \<Rightarrow> cons_fst d (parse_chars (a # b # x # y # rest))))
         | e # rest \<Rightarrow> (case unescape e of None \<Rightarrow> None | Some d \<Rightarrow> cons_fst d (parse_chars rest))
         | [] \<Rightarrow> None)
      else if (of_char c :: nat) < 32 then None
      else cons_fst c (parse_chars cs))"

text \<open>\<open>-?(0|[1-9][0-9]*)\<close>: the sign and digits, and what follows.\<close>

definition split_minus :: "string \<Rightarrow> string \<times> string" where
  "split_minus s = (case s of c # u \<Rightarrow> if c = CHR ''-'' then ([c], u) else ([], s) | [] \<Rightarrow> ([], s))"

definition parse_int_part :: "string \<Rightarrow> (string \<times> string) option" where
  "parse_int_part s =
     (let (sg, t) = split_minus s in
      case t of
        [] \<Rightarrow> None
      | c # u \<Rightarrow>
          if c = CHR ''0'' then Some (sg @ [c], u)
          else if is_digit c then Some (sg @ takeWhile is_digit t, dropWhile is_digit t)
          else None)"

definition parse_frac :: "string \<Rightarrow> string \<times> string" where
  "parse_frac s =
     (case s of
        c # t \<Rightarrow>
          if c = CHR ''.'' \<and> takeWhile is_digit t \<noteq> []
          then (c # takeWhile is_digit t, dropWhile is_digit t) else ([], s)
      | [] \<Rightarrow> ([], s))"

definition split_sign :: "string \<Rightarrow> string \<times> string" where
  "split_sign s =
     (case s of c # u \<Rightarrow> if c = CHR ''+'' \<or> c = CHR ''-'' then ([c], u) else ([], s) | [] \<Rightarrow> ([], s))"

definition parse_exp :: "string \<Rightarrow> string \<times> string" where
  "parse_exp s =
     (case s of
        e # t \<Rightarrow>
          (let (sg, u) = split_sign t in
           if (e = CHR ''e'' \<or> e = CHR ''E'') \<and> takeWhile is_digit u \<noteq> []
           then (e # sg @ takeWhile is_digit u, dropWhile is_digit u) else ([], s))
      | [] \<Rightarrow> ([], s))"

definition read_int :: "string \<Rightarrow> int" where
  "read_int s = (let (sg, ds) = split_minus s in if sg = [] then int (read_nat ds) else - int (read_nat ds))"

definition parse_number :: "string \<Rightarrow> (json \<times> string) option" where
  "parse_number s =
     (case parse_int_part s of
        None \<Rightarrow> None
      | Some (ip, t) \<Rightarrow>
          (let (fp, u) = parse_frac t; (ep, v) = parse_exp u in
           if fp = [] \<and> ep = [] then Some (JInt (read_int ip), v)
           else Some (JFloat (ip @ fp @ ep), v)))"

definition strip_prefix :: "string \<Rightarrow> string \<Rightarrow> string option" where
  "strip_prefix p s = (if take (length p) s = p then Some (drop (length p) s) else None)"

definition parse_const :: "string \<Rightarrow> (json \<times> string) option" where
  "parse_const s =
     (case strip_prefix ''null'' s of Some r \<Rightarrow> Some (JNull, r) | None \<Rightarrow>
     (case strip_prefix ''true'' s of Some r \<Rightarrow> Some (JBool True, r) | None \<Rightarrow>
     (case strip_prefix ''false'' s of Some r \<Rightarrow> Some (JBool False, r) | None \<Rightarrow>
     (case parse_number s of Some (v, r) \<Rightarrow> Some (v, r) | None \<Rightarrow>
     (case strip_prefix ''NaN'' s of Some r \<Rightarrow> Some (JFloat ''nan'', r) | None \<Rightarrow>
     (case strip_prefix ''Infinity'' s of Some r \<Rightarrow> Some (JFloat ''inf'', r) | None \<Rightarrow>
      map_option (\<lambda>r. (JFloat ''-inf'', r)) (strip_prefix ''-Infinity'' s)))))))"

text \<open>A repeated key of an object keeps its first position and its last value, as a \<open>dict\<close> does.\<close>

definition dict_of_pairs :: "(string \<times> json) list \<Rightarrow> (string \<times> json) list" where
  "dict_of_pairs kvs = fold (\<lambda>(k, v). AList.update k v) kvs []"

text \<open>
  The recursive descent. Every call spends one unit of fuel; \<open>json_loads\<close> gives one more than
  the length of the text, which is enough for every text the printer makes
  (\<open>json_loads_dumps\<close> below).
\<close>

fun parse_value :: "nat \<Rightarrow> string \<Rightarrow> (json \<times> string) option"
  and parse_items :: "nat \<Rightarrow> string \<Rightarrow> (json list \<times> string) option"
  and parse_members :: "nat \<Rightarrow> string \<Rightarrow> ((string \<times> json) list \<times> string) option"
where
  "parse_value 0 s = None"
| "parse_value (Suc n) s =
     (case s of
        [] \<Rightarrow> None
      | c # cs \<Rightarrow>
          if c = CHR 0x22 then map_option (\<lambda>(x, r). (JStr x, r)) (parse_chars cs)
          else if c = CHR ''['' then
            (case skip_ws cs of
               d # r \<Rightarrow> if d = CHR '']'' then Some (JList [], r)
                 else map_option (\<lambda>(vs, q). (JList vs, q)) (parse_items n (d # r))
             | [] \<Rightarrow> None)
          else if c = CHR ''{'' then
            (case skip_ws cs of
               d # r \<Rightarrow> if d = CHR ''}'' then Some (JDict [], r)
                 else map_option (\<lambda>(kvs, q). (JDict (dict_of_pairs kvs), q))
                   (parse_members n (d # r))
             | [] \<Rightarrow> None)
          else parse_const s)"
| "parse_items 0 s = None"
| "parse_items (Suc n) s =
     (case parse_value n s of
        None \<Rightarrow> None
      | Some (v, r) \<Rightarrow>
          (case skip_ws r of
             d # q \<Rightarrow> if d = CHR '']'' then Some ([v], q)
               else if d = CHR '','' then cons_fst v (parse_items n (skip_ws q))
               else None
           | [] \<Rightarrow> None))"
| "parse_members 0 s = None"
| "parse_members (Suc n) s =
     (case s of
        c # cs \<Rightarrow>
          if c = CHR 0x22 then
            (case parse_chars cs of
               None \<Rightarrow> None
             | Some (k, r) \<Rightarrow>
                 (case skip_ws r of
                    d # q \<Rightarrow>
                      if d = CHR '':'' then
                        (case parse_value n (skip_ws q) of
                           None \<Rightarrow> None
                         | Some (v, r2) \<Rightarrow>
                             (case skip_ws r2 of
                                f # q2 \<Rightarrow> if f = CHR ''}'' then Some ([(k, v)], q2)
                                  else if f = CHR '','' then
                                    cons_fst (k, v) (parse_members n (skip_ws q2))
                                  else None
                              | [] \<Rightarrow> None))
                      else None
                  | [] \<Rightarrow> None))
          else None
      | [] \<Rightarrow> None)"

definition json_loads :: "string \<Rightarrow> json option" where
  "json_loads s =
     (case parse_value (Suc (length s)) (skip_ws s) of
        Some (v, r) \<Rightarrow> if skip_ws r = [] then Some v else None
      | None \<Rightarrow> None)"

section \<open>The round trip\<close>

fun jsort :: "json \<Rightarrow> json" where
  "jsort (JList vs) = JList (map jsort vs)"
| "jsort (JDict kvs) = JDict (sort_key fst (map (\<lambda>(k, v). (k, jsort v)) kvs))"
| "jsort v = v"

fun jwf :: "(string \<Rightarrow> string) \<Rightarrow> json \<Rightarrow> bool" where
  "jwf fr (JFloat t) \<longleftrightarrow> fr t = t \<and> parse_number t = Some (JFloat t, [])"
| "jwf fr (JList vs) \<longleftrightarrow> (\<forall>v \<in> set vs. jwf fr v)"
| "jwf fr (JDict kvs) \<longleftrightarrow> distinct (map fst kvs) \<and> (\<forall>kv \<in> set kvs. jwf fr (snd kv))"
| "jwf fr v \<longleftrightarrow> True"

fun jfuel :: "json \<Rightarrow> nat" where
  "jfuel (JList vs) = Suc (sum_list (map (\<lambda>v. Suc (jfuel v)) vs))"
| "jfuel (JDict kvs) = Suc (sum_list (map (\<lambda>kv. Suc (jfuel (snd kv))) kvs))"
| "jfuel v = 1"

definition stops :: "string \<Rightarrow> bool" where
  "stops r \<longleftrightarrow> r = [] \<or> hd r \<in> {CHR '','', CHR '']'', CHR ''}''} \<or> is_ws (hd r)"

lemma stops_simps [simp]:
  "stops []" "stops (CHR '','' # r)" "stops (CHR '']'' # r)" "stops (CHR ''}'' # r)"
  by (simp_all add: stops_def)

subsection \<open>Strings\<close>

lemma hex_val_hex_char: "d < 16 \<Longrightarrow> hex_val (hex_char d) = Some d"
  by (auto simp: hex_val_def hex_char_def Let_def)

lemma hex_val_0: "hex_val (CHR ''0'') = Some 0"
  by (simp add: hex_val_def)

lemma char_of_nat_eqI: "(of_char c :: nat) = of_char d \<Longrightarrow> c = d"
  by (simp add: of_char_eq_iff)

lemma parse_esc_char: "parse_chars (esc_char c @ cs) = cons_fst c (parse_chars cs)"
proof -
  let ?n = "of_char c :: nat"
  have hex: "char_of (16 * (?n div 16) + ?n mod 16) = c"
    by simp
  have short: "parse_chars (CHR 0x5C # e # cs) = cons_fst d (parse_chars cs)"
    if "unescape e = Some d" "e \<noteq> CHR ''u''" for e d
    using that by (auto split: list.splits)
  consider "c = CHR 0x22" | "c = CHR 0x5C" | "?n = 10" | "?n = 13" | "?n = 9" | "?n = 12" | "?n = 8"
    | (plain) "c \<noteq> CHR 0x22" "c \<noteq> CHR 0x5C" "32 \<le> ?n" "?n \<le> 126"
    | (hexa) "c \<noteq> CHR 0x22" "c \<noteq> CHR 0x5C" "?n \<notin> {10, 13, 9, 12, 8}" "\<not> (32 \<le> ?n \<and> ?n \<le> 126)"
    by blast
  then show ?thesis
  proof cases
    case 1 then show ?thesis by (simp add: esc_char_def short unescape_def del: parse_chars.simps)
  next
    case 2 then show ?thesis by (simp add: esc_char_def short unescape_def del: parse_chars.simps)
  next
    case 3
    then have "c = CHR 0x0A" by (intro char_of_nat_eqI) simp
    then show ?thesis by (simp add: esc_char_def short unescape_def del: parse_chars.simps)
  next
    case 4
    then have "c = CHR 0x0D" by (intro char_of_nat_eqI) simp
    then show ?thesis by (simp add: esc_char_def short unescape_def del: parse_chars.simps)
  next
    case 5
    then have "c = CHR 0x09" by (intro char_of_nat_eqI) simp
    then show ?thesis by (simp add: esc_char_def short unescape_def del: parse_chars.simps)
  next
    case 6
    then have "c = CHR 0x0C" by (intro char_of_nat_eqI) simp
    then show ?thesis by (simp add: esc_char_def short unescape_def del: parse_chars.simps)
  next
    case 7
    then have "c = CHR 0x08" by (intro char_of_nat_eqI) simp
    then show ?thesis by (simp add: esc_char_def short unescape_def del: parse_chars.simps)
  next
    case plain
    then have "esc_char c = [c]" by (auto simp: esc_char_def)
    with plain show ?thesis by simp
  next
    case hexa
    then have "esc_char c =
      [CHR 0x5C, CHR ''u'', CHR ''0'', CHR ''0'', hex_char (?n div 16), hex_char (?n mod 16)]"
      by (auto simp: esc_char_def Let_def)
    moreover have "?n div 16 < 16" "?n mod 16 < 16"
      using nat_of_char_less_256 [of c] by (simp_all add: less_mult_imp_div_less)
    ultimately show ?thesis
      by (simp add: hex_val_hex_char hex_val_0 hex)
  qed
qed

lemma parse_dump_chars:
  "parse_chars (concat (map esc_char s) @ CHR 0x22 # r) = Some (s, r)"
proof (induction s)
  case (Cons c s)
  then show ?case by (simp add: parse_esc_char cons_fst_def del: parse_chars.simps)
qed simp

subsection \<open>Numbers\<close>

lemma stops_not_digit: "stops r \<Longrightarrow> r = [] \<or> \<not> is_digit (hd r)"
  by (auto simp: stops_def is_digit_def is_ws_def)

lemma takeWhile_digits_stops:
  "stops r \<Longrightarrow> takeWhile is_digit (t @ r) = takeWhile is_digit t"
  "stops r \<Longrightarrow> dropWhile is_digit (t @ r) = dropWhile is_digit t @ r"
proof -
  assume "stops r"
  then have r: "takeWhile is_digit r = []" "dropWhile is_digit r = r"
    using stops_not_digit [of r] by (cases r; simp)+
  show "takeWhile is_digit (t @ r) = takeWhile is_digit t" by (induction t) (simp_all add: r)
  show "dropWhile is_digit (t @ r) = dropWhile is_digit t @ r" by (induction t) (simp_all add: r)
qed

lemma parse_int_part_stops:
  assumes "parse_int_part t = Some (ip, u)" and "stops r"
  shows "parse_int_part (t @ r) = Some (ip, u @ r)"
proof -
  obtain sg t' where sm: "split_minus t = (sg, t')" by fastforce
  with assms(1) have "t' \<noteq> []" by (auto simp: parse_int_part_def)
  with sm have sm': "split_minus (t @ r) = (sg, t' @ r)"
    by (auto simp: split_minus_def split: list.splits if_splits)
  show ?thesis
    using assms sm takeWhile_digits_stops [OF assms(2), of t']
    by (cases t') (auto simp: parse_int_part_def sm' split: if_splits)
qed

lemma parse_frac_stops:
  "stops r \<Longrightarrow> parse_frac (t @ r) = (fst (parse_frac t), snd (parse_frac t) @ r)"
  by (cases t; cases r) (auto simp: parse_frac_def takeWhile_digits_stops stops_def is_ws_def)

lemma split_sign_stops:
  "stops r \<Longrightarrow> split_sign (t @ r) = (fst (split_sign t), snd (split_sign t) @ r)"
  by (cases t; cases r) (auto simp: split_sign_def stops_def is_ws_def)

lemma parse_exp_stops:
  assumes "stops r"
  shows "parse_exp (t @ r) = (fst (parse_exp t), snd (parse_exp t) @ r)"
proof (cases t)
  case Nil
  with assms show ?thesis by (cases r) (auto simp: parse_exp_def stops_def is_ws_def case_prod_beta)
next
  case (Cons c cs)
  then show ?thesis
    by (simp add: parse_exp_def split_sign_stops [OF assms] takeWhile_digits_stops [OF assms]
        case_prod_beta)
qed

lemma parse_number_stops:
  assumes "parse_number t = Some (v, u)" and "stops r"
  shows "parse_number (t @ r) = Some (v, u @ r)"
  using assms
  by (auto simp: parse_number_def parse_int_part_stops parse_frac_stops parse_exp_stops
      case_prod_beta Let_def split: option.splits if_splits)

lemma takeWhile_show_nat: 
  "takeWhile is_digit (show_nat n) = show_nat n" "dropWhile is_digit (show_nat n) = []"
  using show_nat_digits [of n] by (simp_all add: takeWhile_eq_all_conv dropWhile_eq_Nil_conv)

lemma digit_not_minus: "is_digit c \<Longrightarrow> c \<noteq> CHR ''-''"
  by (auto simp: is_digit_def)

lemma split_minus_show_nat: "split_minus (show_nat n) = ([], show_nat n)"
  using show_nat_digits [of n] digit_not_minus
  by (cases "show_nat n") (auto simp: split_minus_def)

lemma split_minus_Cons_minus: "split_minus (CHR ''-'' # t) = (''-'', t)"
  by (simp add: split_minus_def)

lemma parse_int_part_show:
  "parse_int_part (show_nat n) = Some (show_nat n, [])"
  "parse_int_part (CHR ''-'' # show_nat n) = Some (CHR ''-'' # show_nat n, [])"
proof -
  obtain c cs where c: "show_nat n = c # cs" by (cases "show_nat n") auto
  then have d: "is_digit c" using show_nat_digits [of n] by auto
  show "parse_int_part (show_nat n) = Some (show_nat n, [])"
    using c d show_nat_leading_zero [of n cs] takeWhile_show_nat [of n] split_minus_show_nat [of n]
    by (auto simp: parse_int_part_def)
  show "parse_int_part (CHR ''-'' # show_nat n) = Some (CHR ''-'' # show_nat n, [])"
    using c d show_nat_leading_zero [of n cs] takeWhile_show_nat [of n]
    by (auto simp: parse_int_part_def split_minus_Cons_minus)
qed

lemma parse_number_show_int: "parse_number (show_int i) = Some (JInt i, [])"
  by (simp add: show_int_def parse_number_def parse_int_part_show parse_frac_def parse_exp_def
      read_int_def split_minus_show_nat split_minus_Cons_minus)

lemma read_show_int: "read_int (show_int i) = i"
  by (simp add: show_int_def read_int_def split_minus_show_nat split_minus_Cons_minus)

subsection \<open>Values\<close>

definition value_head :: "char \<Rightarrow> bool" where
  "value_head c \<longleftrightarrow> \<not> is_ws c \<and> c \<notin> {CHR '']'', CHR ''}''}"

definition number_head :: "char \<Rightarrow> bool" where
  "number_head c \<longleftrightarrow> is_digit c \<or> c = CHR ''-''"

lemma number_head_value: "number_head c \<Longrightarrow> value_head c"
  by (auto simp: number_head_def value_head_def is_ws_def is_digit_def)

lemma parse_number_head: "parse_number (c # cs) = Some x \<Longrightarrow> number_head c"
  by (auto simp: parse_number_def parse_int_part_def split_minus_def number_head_def is_digit_def
      split: if_splits option.splits)

lemma number_head_const:
  "number_head c \<Longrightarrow> parse_number (c # cs) = Some (v, r) \<Longrightarrow> parse_const (c # cs) = Some (v, r)"
  by (auto simp: parse_const_def strip_prefix_def number_head_def is_digit_def)

lemma number_head_parse_value:
  "parse_number (c # cs) = Some (v, r) \<Longrightarrow> parse_value (Suc n) (c # cs) = Some (v, r)"
  using parse_number_head [of c cs "(v, r)"]
  by (auto simp: number_head_const) (auto simp: number_head_def is_digit_def)

lemma parse_value_number:
  assumes "parse_number t = Some (v, [])" "stops r"
  shows "parse_value (Suc n) (t @ r) = Some (v, r)"
proof (cases t)
  case Nil
  with assms(1) show ?thesis by (simp add: parse_number_def parse_int_part_def split_minus_def)
next
  case (Cons c cs)
  then show ?thesis
    using number_head_parse_value [of c "cs @ r" v r n] parse_number_stops [OF assms] by simp
qed

lemma dumps_head: "jwf fr v \<Longrightarrow> \<exists>c cs. json_dumps fr v = c # cs \<and> value_head c"
proof (cases v)
  case (JInt i)
  then show ?thesis
    using parse_number_head [of "hd (show_int i)" "tl (show_int i)"] parse_number_show_int [of i]
    by (cases "show_int i") (auto simp: number_head_value parse_number_def parse_int_part_def split_minus_def)
next
  case (JFloat t)
  moreover assume "jwf fr v"
  ultimately show ?thesis
    using parse_number_head [of "hd t" "tl t"]
    by (cases t) (auto simp: number_head_value parse_number_def parse_int_part_def split_minus_def)
qed (auto simp: value_head_def is_ws_def dump_str_def)

lemma skip_ws_head: "value_head c \<Longrightarrow> skip_ws (c # cs) = c # cs"
  by (simp add: value_head_def)

lemma skip_ws_dumps: "jwf fr v \<Longrightarrow> skip_ws (json_dumps fr v @ r) = json_dumps fr v @ r"
  using dumps_head [of fr v] skip_ws_head by fastforce

lemma insort_key_map_snd:
  "insort_key fst (k, f v) (map (\<lambda>(k, v). (k, f v)) xs) =
     map (\<lambda>(k, v). (k, f v)) (insort_key fst (k, v) xs)"
  by (induction xs) auto

lemma sort_key_map_snd:
  "sort_key fst (map (\<lambda>(k, v). (k, f v)) xs) = map (\<lambda>(k, v). (k, f v)) (sort_key fst xs)"
  by (induction xs) (auto simp: insort_key_map_snd)

definition roundtrips :: "(string \<Rightarrow> string) \<Rightarrow> json \<Rightarrow> bool" where
  "roundtrips fr v \<longleftrightarrow> (\<forall>n r. jfuel v \<le> n \<longrightarrow> stops r \<longrightarrow>
     parse_value n (json_dumps fr v @ r) = Some (jsort v, r))"

lemma not_ws_punct: "\<not> is_ws CHR '']''" "\<not> is_ws CHR ''}''" "\<not> is_ws CHR '',''" "\<not> is_ws CHR '':''"
  "\<not> is_ws CHR 0x22"
  by (simp_all add: is_ws_def)

lemma parse_items_dumps:
  assumes "vs \<noteq> []" and "\<forall>v \<in> set vs. jwf fr v \<and> roundtrips fr v"
    and "sum_list (map (\<lambda>v. Suc (jfuel v)) vs) \<le> n"
  shows "parse_items n (join '','' (map (json_dumps fr) vs) @ CHR '']'' # r) = Some (map jsort vs, r)"
  using assms
proof (induction vs arbitrary: n rule: induct_list012)
  case (2 v)
  then show ?case
    by (cases n) (auto simp: roundtrips_def not_ws_punct)
next
  case (3 v w vs)
  then obtain m where n: "n = Suc m" by (cases n) auto
  from 3(4,5) have v: "parse_value m (json_dumps fr v @ x) = Some (jsort v, x)" if "stops x" for x
    using that by (auto simp: n roundtrips_def)
  have "parse_items m (join '','' (map (json_dumps fr) (w # vs)) @ CHR '']'' # r) =
      Some (map jsort (w # vs), r)"
    by (rule 3(2)) (use 3 n in auto)
  moreover obtain u where "join '','' (map (json_dumps fr) (w # vs)) = json_dumps fr w @ u"
    by (cases vs) auto
  ultimately show ?case using 3(4)
    by (simp add: n v not_ws_punct skip_ws_dumps cons_fst_def del: json_dumps.simps)
qed simp

definition dump_member :: "(string \<Rightarrow> string) \<Rightarrow> string \<times> json \<Rightarrow> string" where
  "dump_member fr kv = dump_str (fst kv) @ '':'' @ json_dumps fr (snd kv)"

lemma dump_member_Cons:
  "dump_member fr kv @ r =
     CHR 0x22 # concat (map esc_char (fst kv)) @ CHR 0x22 # CHR '':'' # json_dumps fr (snd kv) @ r"
  by (simp add: dump_member_def dump_str_def)

lemma parse_members_dumps:
  assumes "kvs \<noteq> []" and "\<forall>kv \<in> set kvs. jwf fr (snd kv) \<and> roundtrips fr (snd kv)"
    and "sum_list (map (\<lambda>kv. Suc (jfuel (snd kv))) kvs) \<le> n"
  shows "parse_members n (join '','' (map (dump_member fr) kvs) @ CHR ''}'' # r) =
      Some (map (\<lambda>(k, v). (k, jsort v)) kvs, r)"
  using assms
proof (induction kvs arbitrary: n rule: induct_list012)
  case (2 kv)
  then show ?case
    by (cases n) (auto simp: roundtrips_def not_ws_punct dump_member_Cons parse_dump_chars
        skip_ws_dumps case_prod_beta simp del: json_dumps.simps)
next
  case (3 kv w kvs)
  then obtain m where n: "n = Suc m" by (cases n) auto
  from 3(4,5) have v: "parse_value m (json_dumps fr (snd kv) @ x) = Some (jsort (snd kv), x)"
    if "stops x" for x using that by (auto simp: n roundtrips_def)
  have "parse_members m (join '','' (map (dump_member fr) (w # kvs)) @ CHR ''}'' # r) =
      Some (map (\<lambda>(k, v). (k, jsort v)) (w # kvs), r)"
    by (rule 3(2)) (use 3 n in auto)
  moreover obtain u where u: "join '','' (map (dump_member fr) (w # kvs)) = CHR 0x22 # u"
    by (cases kvs) (auto simp: dump_member_def dump_str_def)
  ultimately show ?case using 3(4)
    by (simp add: n v not_ws_punct skip_ws_dumps cons_fst_def dump_member_Cons parse_dump_chars u
        case_prod_beta del: json_dumps.simps parse_chars.simps)
qed simp

lemma alist_update_fresh: "k \<notin> fst ` set al \<Longrightarrow> AList.update k v al = al @ [(k, v)]"
  by (induction al) auto

lemma dict_of_pairs_distinct:
  "distinct (map fst kvs) \<Longrightarrow> dict_of_pairs kvs = kvs"
proof -
  have "distinct (map fst (xs @ kvs)) \<Longrightarrow> fold (\<lambda>(k, v). AList.update k v) kvs xs = xs @ kvs" for xs
    by (induction kvs arbitrary: xs) (auto simp: alist_update_fresh)
  then show "distinct (map fst kvs) \<Longrightarrow> dict_of_pairs kvs = kvs"
    unfolding dict_of_pairs_def by (metis append_Nil)
qed

lemma dumps_JDict:
  "json_dumps fr (JDict kvs) =
     CHR ''{'' # join '','' (map (dump_member fr) (sort_key fst kvs)) @ ''}''"
  by (simp add: sort_key_map_snd dump_member_def [abs_def] case_prod_beta comp_def)

lemma jsort_JDict: "jsort (JDict kvs) = JDict (map (\<lambda>(k, v). (k, jsort v)) (sort_key fst kvs))"
  by (simp add: sort_key_map_snd)

lemma sum_list_sort_key: "sum_list (map f (sort_key g xs)) = (sum_list (map f xs) :: nat)"
proof -
  have "sum_list (map f (insort_key g x ys)) = f x + sum_list (map f ys)" for x ys
    by (induction ys) auto
  then show ?thesis by (induction xs) auto
qed

lemma sort_key_eq_Nil [simp]: "sort_key f xs = [] \<longleftrightarrow> xs = []"
  by (metis length_sort length_0_conv)

lemma roundtrips_JDict:
  assumes "jwf fr (JDict kvs)" and "\<forall>kv \<in> set kvs. roundtrips fr (snd kv)"
  shows "roundtrips fr (JDict kvs)"
proof (unfold roundtrips_def, intro allI impI)
  fix n r
  assume n: "jfuel (JDict kvs) \<le> n" and r: "stops r"
  then obtain m where m: "n = Suc m" by (cases n) auto
  let ?ks = "sort_key fst kvs"
  show "parse_value n (json_dumps fr (JDict kvs) @ r) = Some (jsort (JDict kvs), r)"
  proof (cases "kvs = []")
    case True
    then show ?thesis by (simp add: m not_ws_punct)
  next
    case False
    have p: "parse_members m (join '','' (map (dump_member fr) ?ks) @ CHR ''}'' # r) =
        Some (map (\<lambda>(k, v). (k, jsort v)) ?ks, r)"
      by (rule parse_members_dumps)
        (use False assms n m in \<open>auto simp: sum_list_sort_key\<close>)
    have d: "distinct (map fst (map (\<lambda>(k, v). (k, jsort v)) ?ks))"
      using assms(1) by (simp add: comp_def case_prod_beta distinct_map)
    obtain u where u: "join '','' (map (dump_member fr) ?ks) = CHR 0x22 # u"
      using False by (cases "('','', map (dump_member fr) ?ks)" rule: join.cases) (auto simp: dump_member_def dump_str_def)
    show ?thesis using p
      by (simp add: m dumps_JDict jsort_JDict u not_ws_punct dict_of_pairs_distinct [OF d]
          del: json_dumps.simps jsort.simps)
  qed
qed

lemma roundtrips_JList:
  assumes "jwf fr (JList vs)" and "\<forall>v \<in> set vs. roundtrips fr v"
  shows "roundtrips fr (JList vs)"
proof (unfold roundtrips_def, intro allI impI)
  fix n r
  assume n: "jfuel (JList vs) \<le> n" and r: "stops r"
  then obtain m where m: "n = Suc m" by (cases n) auto
  show "parse_value n (json_dumps fr (JList vs) @ r) = Some (jsort (JList vs), r)"
  proof (cases vs)
    case Nil
    then show ?thesis by (simp add: m not_ws_punct)
  next
    case (Cons v ws)
    have p: "parse_items m (join '','' (map (json_dumps fr) vs) @ CHR '']'' # r) = Some (map jsort vs, r)"
      by (rule parse_items_dumps) (use Cons assms n m in auto)
    obtain c cs where c: "join '','' (map (json_dumps fr) vs) = c # cs" "value_head c"
      using dumps_head [of fr v] assms(1) by (cases ws) (auto simp: Cons)
    then show ?thesis using p
      by (simp add: m value_head_def)
  qed
qed

lemma roundtrips_all: "jwf fr v \<Longrightarrow> roundtrips fr v"
proof (induction v)
  case (JInt i)
  then show ?case using parse_value_number [OF parse_number_show_int]
    by (auto simp: roundtrips_def Suc_le_eq gr0_conv_Suc)
next
  case (JFloat t)
  then show ?case using parse_value_number [of t "JFloat t"]
    by (auto simp: roundtrips_def Suc_le_eq gr0_conv_Suc)
next
  case (JStr s)
  then show ?case
    by (auto simp: roundtrips_def Suc_le_eq gr0_conv_Suc dump_str_def parse_dump_chars
        simp del: parse_chars.simps)
next
  case (JList vs)
  then show ?case by (intro roundtrips_JList) auto
next
  case (JDict kvs)
  then show ?case by (intro roundtrips_JDict) (auto simp: snds.simps)
qed (auto simp: roundtrips_def Suc_le_eq gr0_conv_Suc parse_const_def strip_prefix_def)

lemma length_join: "length (join sep xs) + (if xs = [] then 0 else length sep) =
    sum_list (map (\<lambda>x. length x + length sep) xs)"
  by (induction sep xs rule: join.induct) auto

lemma jfuel_le: "jwf fr v \<Longrightarrow> jfuel v \<le> length (json_dumps fr v)"
proof (induction v)
  case (JInt i)
  then show ?case using dumps_head [of fr "JInt i"] by fastforce
next
  case (JFloat i)
  then show ?case using dumps_head [of fr "JFloat i"] by fastforce
next
  case (JList vs)
  then have "sum_list (map (\<lambda>v. Suc (jfuel v)) vs) \<le> sum_list (map (\<lambda>v. Suc (length (json_dumps fr v))) vs)"
    by (intro sum_list_mono) auto
  then show ?case using length_join [of "'',''" "map (json_dumps fr) vs"]
    by (auto simp: comp_def split: if_splits)
next
  case (JDict kvs)
  have "jfuel (snd kv) \<le> length (dump_member fr kv)" if "kv \<in> set kvs" for kv
  proof -
    have "jfuel (snd kv) \<le> length (json_dumps fr (snd kv))"
      by (rule JDict.IH [of kv]) (use JDict.prems that in \<open>auto simp: snds.simps\<close>)
    then show ?thesis by (simp add: dump_member_def)
  qed
  then have "sum_list (map (\<lambda>kv. Suc (jfuel (snd kv))) kvs) \<le>
      sum_list (map (\<lambda>kv. Suc (length (dump_member fr kv))) kvs)"
    by (intro sum_list_mono) auto
  then show ?case using length_join [of "'',''" "map (dump_member fr) (sort_key fst kvs)"]
    by (auto simp: comp_def dumps_JDict sum_list_sort_key simp del: json_dumps.simps split: if_splits)
qed (auto simp: dump_str_def)

text \<open>What the printer writes, the parser reads back, with the keys of every object sorted.\<close>

lemma json_loads_dumps: "jwf fr v \<Longrightarrow> json_loads (json_dumps fr v) = Some (jsort v)"
proof -
  assume wf: "jwf fr v"
  have "parse_value (Suc (length (json_dumps fr v))) (json_dumps fr v @ []) = Some (jsort v, [])"
    using roundtrips_all [OF wf] jfuel_le [OF wf] unfolding roundtrips_def
    by (metis le_SucI stops_simps(1))
  then show ?thesis using skip_ws_dumps [OF wf, of "[]"] by (simp add: json_loads_def del: parse_value.simps)
qed

lemma json_dumps_inject:
  assumes "json_dumps fr v = json_dumps fr w" "jwf fr v" "jwf fr w"
  shows "jsort v = jsort w"
  using json_loads_dumps [OF assms(2)] json_loads_dumps [OF assms(3)] assms(1) by simp

lemma sort_key_sorted_map: "sort_key fst (sort_key fst xs) = sort_key fst xs"
  by (simp add: sorted_sort_id sort_key_id_if_sorted)

text \<open>The printer does not see the order of the keys.\<close>

lemma json_dumps_jsort: "json_dumps fr (jsort v) = json_dumps fr v"
proof (induction v)
  case (JList vs)
  then show ?case by (simp cong: map_cong add: comp_def)
next
  case (JDict kvs)
  then have "dump_member fr (k, jsort v) = dump_member fr (k, v)" if "(k, v) \<in> set kvs" for k v
    using that by (force simp: dump_member_def snds.simps)
  then have "map (\<lambda>kv. dump_member fr (fst kv, jsort (snd kv))) (sort_key fst kvs) =
      map (dump_member fr) (sort_key fst kvs)"
    by (intro map_cong) auto
  moreover have "sort_key fst (map (\<lambda>(k, v). (k, jsort v)) (sort_key fst kvs)) =
      map (\<lambda>(k, v). (k, jsort v)) (sort_key fst kvs)"
    by (simp add: sort_key_map_snd sort_key_sorted_map)
  ultimately show ?case
    by (simp only: jsort_JDict dumps_JDict map_map comp_def case_prod_beta)
qed simp_all

end
