(* ===== verification/Async_Queue.thy ===== *)
theory Async_Queue
  imports Redis_Server Json
begin

text \<open>
  The bounded Redis queue of \<open>src/app/async_queue.py\<close>: the two Lua scripts, the class
  \<open>RedisInferenceQueue\<close> and its operations \<open>enqueue\<close>, \<open>get\<close>, \<open>claim\<close>, \<open>finish\<close>,
  \<open>recover_processing\<close>. Every operation takes the Redis commands \<open>R\<close> and, for each
  round trip it makes, the outcome of that round trip. The second half abstracts the key space to
  two lists of ids and a table of job records and shows that every script and transaction
  implements the operation of the abstract queue.
\<close>

section \<open>Keys, configuration and results\<close>

definition QUEUE_KEY :: string where "QUEUE_KEY = ''kernexys:inference:queued''"
definition PROCESSING_KEY :: string where "PROCESSING_KEY = ''kernexys:inference:processing''"
definition RECOVERY_LOCK_KEY :: string where
  "RECOVERY_LOCK_KEY = ''kernexys:inference:recovery-lock''"
definition JOB_PREFIX :: string where "JOB_PREFIX = ''kernexys:inference:job:''"

abbreviation job_key :: "string \<Rightarrow> string" where
  "job_key job_id \<equiv> JOB_PREFIX @ job_id"

record inference_queue =
  iq_capacity :: int
  iq_job_ttl_seconds :: int
  iq_recovery_lock_seconds :: int

record enqueue_result =
  er_created :: bool
  er_full :: bool
  er_conflict :: bool

record claimed_job =
  cj_job_id :: string
  cj_payload :: json

datatype queue_error = AsyncQueueError string

abbreviation unavailable :: queue_error where
  "unavailable \<equiv> AsyncQueueError ''Redis is unavailable''"

abbreviation invalid_state :: queue_error where
  "invalid_state \<equiv> AsyncQueueError ''Redis queue state is unavailable or invalid''"

text \<open>
  Times are seconds since the epoch. Python prints them with \<open>repr\<close> and Lua reads the text back
  with \<open>tonumber\<close>; both are parameters, with the law that the text of a float denotes it.
\<close>

record float_text =
  py_repr :: "rat \<Rightarrow> string"
  lua_tonumber :: "string \<Rightarrow> rat option"

locale float_codec =
  fixes F :: float_text
  assumes tonumber_repr [simp]: "lua_tonumber F (py_repr F t) = Some t"

text \<open>A codec that meets the law: a rational number written as a fraction.\<close>

definition frac_repr :: "rat \<Rightarrow> string" where
  "frac_repr t = (let (p, q) = quotient_of t in show_int p @ CHR ''/'' # show_int q)"

definition frac_tonumber :: "string \<Rightarrow> rat option" where
  "frac_tonumber s =
     (let p = takeWhile (\<lambda>c. c \<noteq> CHR ''/'') s in
      if p = s then None else Some (Fract (read_int p) (read_int (drop (Suc (length p)) s))))"

definition frac_text :: float_text where
  "frac_text = \<lparr>py_repr = frac_repr, lua_tonumber = frac_tonumber\<rparr>"

interpretation frac: float_codec frac_text
proof
  fix t :: rat
  obtain p q where pq: "quotient_of t = (p, q)" by fastforce
  have "CHR ''/'' \<notin> set (show_int p)"
    using show_nat_digits [of "nat p"] show_nat_digits [of "nat (- p)"]
    by (auto simp: show_int_def is_digit_def)
  then have "takeWhile (\<lambda>c. c \<noteq> CHR ''/'') (show_int p @ CHR ''/'' # show_int q) = show_int p"
    by (subst takeWhile_append2) auto
  moreover have "Fract p q = t" using quotient_of_div [OF pq] by (simp add: Fract_of_int_quotient)
  ultimately show "lua_tonumber frac_text (py_repr frac_text t) = Some t"
    by (simp add: frac_text_def frac_repr_def frac_tonumber_def pq read_show_int)
qed

section \<open>The Lua scripts\<close>

definition enqueue_script ::
  "'s redis \<Rightarrow> string \<Rightarrow> string \<Rightarrow> string \<Rightarrow> int \<Rightarrow> int \<Rightarrow> string \<Rightarrow> 's \<Rightarrow> int \<times> 's" where
  "enqueue_script R job queue payload capacity ttl job_id s =
     (if r_exists R job s then
        (if r_hget R job ''payload'' s \<noteq> Some payload then (- 2, s) else (0, s))
      else if int (r_llen R queue s) \<ge> capacity then (- 1, s)
      else (1, r_rpush R queue job_id
             (r_expire R job ttl
               (r_hset R job [(''status'', ''queued''), (''payload'', payload)] s))))"

definition terminal_status :: "string option \<Rightarrow> bool" where
  "terminal_status st \<longleftrightarrow> st = Some ''succeeded'' \<or> st = Some ''failed''"

text \<open>One pass of the loop of the recovery script, over one id of the processing list.\<close>

definition recover_one ::
  "'s redis \<Rightarrow> float_text \<Rightarrow> string \<Rightarrow> string \<Rightarrow> string \<Rightarrow> rat \<Rightarrow> string \<Rightarrow> string \<Rightarrow> nat \<times> 's \<Rightarrow> nat \<times> 's"
where
  "recover_one R F processing queue prefix before now_text job_id rs =
     (let (recovered, s) = rs;
          key = prefix @ job_id;
          status = r_hget R key ''status'' s in
      if status = None \<or> terminal_status status then
        (recovered, snd (r_lrem R processing job_id s))
      else
        (case r_hget R key ''claimed_at'' s of
           None \<Rightarrow> (recovered, r_hset R key [(''claimed_at'', now_text)] s)
         | Some claimed_at \<Rightarrow>
             (let ts = (case lua_tonumber F claimed_at of None \<Rightarrow> 0 | Some t \<Rightarrow> t) in
              if ts \<le> before then
                (let (n, s1) = r_lrem R processing job_id s in
                 if n = 1 then
                   (Suc recovered,
                    r_rpush R queue job_id
                      (r_hdel R key ''claimed_at'' (r_hset R key [(''status'', ''queued'')] s1)))
                 else (recovered, s1))
              else (recovered, s))))"

text \<open>
  The whole sweep. A threshold that is not a number would make the comparison fail and the
  script raise; \<open>None\<close> is that error.
\<close>

definition recover_script ::
  "'s redis \<Rightarrow> float_text \<Rightarrow> string \<Rightarrow> string \<Rightarrow> string \<Rightarrow> string \<Rightarrow> string \<Rightarrow> 's \<Rightarrow> nat option \<times> 's"
where
  "recover_script R F processing queue prefix before_text now_text s =
     (case lua_tonumber F before_text of
        None \<Rightarrow> (None, s)
      | Some before \<Rightarrow>
          (let (recovered, s') =
             fold (recover_one R F processing queue prefix before now_text)
               (r_lrange R processing s) (0, s)
           in (Some recovered, s')))"

section \<open>Operations\<close>

definition check_ready :: "link \<Rightarrow> 's \<Rightarrow> (queue_error + unit) \<times> 's" where
  "check_ready l s =
     (case call l (\<lambda>s. ((), s)) s of
        (None, s') \<Rightarrow> (Inl unavailable, s')
      | (Some _, s') \<Rightarrow> (Inr (), s'))"

definition dumps_payload :: "(string \<Rightarrow> string) \<Rightarrow> json \<Rightarrow> string" where
  "dumps_payload fr payload = json_dumps fr payload"

definition enqueue ::
  "'s redis \<Rightarrow> (string \<Rightarrow> string) \<Rightarrow> inference_queue \<Rightarrow> link \<Rightarrow> string \<Rightarrow> json \<Rightarrow> 's
   \<Rightarrow> (queue_error + enqueue_result) \<times> 's" where
  "enqueue R fr Q l job_id payload s =
     (case call l (enqueue_script R (job_key job_id) QUEUE_KEY (dumps_payload fr payload)
             (iq_capacity Q) (iq_job_ttl_seconds Q) job_id) s of
        (None, s') \<Rightarrow> (Inl unavailable, s')
      | (Some v, s') \<Rightarrow>
          (Inr \<lparr>er_created = (v = 1), er_full = (v = - 1), er_conflict = (v = - 2)\<rparr>, s'))"

definition get_record ::
  "'s redis \<Rightarrow> link \<Rightarrow> string \<Rightarrow> 's \<Rightarrow> (queue_error + (string \<times> string) list option) \<times> 's" where
  "get_record R l job_id s =
     (case call l (\<lambda>s. (r_hgetall R (job_key job_id) s, s)) s of
        (None, s') \<Rightarrow> (Inl unavailable, s')
      | (Some value, s') \<Rightarrow> (Inr (if value = [] then None else Some value), s'))"

text \<open>The four commands of \<open>claim\<close>, one round trip each.\<close>

definition claim_pop :: "'s redis \<Rightarrow> 's \<Rightarrow> string option \<times> 's" where
  "claim_pop R s = r_lmove R QUEUE_KEY PROCESSING_KEY s"

definition claim_read :: "'s redis \<Rightarrow> string \<Rightarrow> 's \<Rightarrow> (string \<times> string) list \<times> 's" where
  "claim_read R job_id s = (r_hgetall R (job_key job_id) s, s)"

definition claim_discard :: "'s redis \<Rightarrow> string \<Rightarrow> 's \<Rightarrow> nat \<times> 's" where
  "claim_discard R job_id s = r_lrem R PROCESSING_KEY job_id s"

definition claim_stamp :: "'s redis \<Rightarrow> float_text \<Rightarrow> string \<Rightarrow> rat \<Rightarrow> 's \<Rightarrow> unit \<times> 's" where
  "claim_stamp R F job_id t s =
     ((), r_hset R (job_key job_id) [(''status'', ''running''), (''claimed_at'', py_repr F t)] s)"

definition rejected_claim :: "(string \<times> string) list \<Rightarrow> bool" where
  "rejected_claim job \<longleftrightarrow> job = [] \<or> terminal_status (map_of job ''status'')"

definition claimed_payload :: "(string \<times> string) list \<Rightarrow> json option" where
  "claimed_payload job =
     (case map_of job ''payload'' of None \<Rightarrow> None | Some text \<Rightarrow> json_loads text)"

definition claim ::
  "'s redis \<Rightarrow> float_text \<Rightarrow> link \<Rightarrow> link \<Rightarrow> link \<Rightarrow> rat \<Rightarrow> 's
   \<Rightarrow> (queue_error + claimed_job option) \<times> 's" where
  "claim R F l1 l2 l3 t s =
     (case call l1 (claim_pop R) s of
        (None, s1) \<Rightarrow> (Inl invalid_state, s1)
      | (Some None, s1) \<Rightarrow> (Inr None, s1)
      | (Some (Some job_id), s1) \<Rightarrow>
          (case call l2 (claim_read R job_id) s1 of
             (None, s2) \<Rightarrow> (Inl invalid_state, s2)
           | (Some job, s2) \<Rightarrow>
               if rejected_claim job then
                 (case call l3 (claim_discard R job_id) s2 of
                    (None, s3) \<Rightarrow> (Inl invalid_state, s3)
                  | (Some _, s3) \<Rightarrow> (Inr None, s3))
               else
                 (case call l3 (claim_stamp R F job_id t) s2 of
                    (None, s3) \<Rightarrow> (Inl invalid_state, s3)
                  | (Some _, s3) \<Rightarrow>
                      (case claimed_payload job of
                         None \<Rightarrow> (Inl invalid_state, s3)
                       | Some payload \<Rightarrow>
                           (Inr (Some \<lparr>cj_job_id = job_id, cj_payload = payload\<rparr>), s3)))))"

definition finish_fields ::
  "(string \<Rightarrow> string) \<Rightarrow> string \<Rightarrow> json option \<Rightarrow> string option \<Rightarrow> (string \<times> string) list" where
  "finish_fields fr status result error =
     [(''status'', status)]
     @ (case result of None \<Rightarrow> [] | Some v \<Rightarrow> [(''result'', json_dumps fr v)])
     @ (case error of None \<Rightarrow> [] | Some e \<Rightarrow> [(''error'', e)])"

text \<open>The \<open>MULTI\<close>/\<open>EXEC\<close> transaction of \<open>finish\<close>.\<close>

definition finish_txn ::
  "'s redis \<Rightarrow> int \<Rightarrow> string \<Rightarrow> (string \<times> string) list \<Rightarrow> 's \<Rightarrow> unit \<times> 's" where
  "finish_txn R ttl job_id fvs s =
     ((), snd (r_lrem R PROCESSING_KEY job_id
            (r_expire R (job_key job_id) ttl (r_hset R (job_key job_id) fvs s))))"

definition finish ::
  "'s redis \<Rightarrow> (string \<Rightarrow> string) \<Rightarrow> inference_queue \<Rightarrow> link \<Rightarrow> string \<Rightarrow> string
   \<Rightarrow> json option \<Rightarrow> string option \<Rightarrow> 's \<Rightarrow> (queue_error + unit) \<times> 's" where
  "finish R fr Q l job_id status result error s =
     (case call l (finish_txn R (iq_job_ttl_seconds Q) job_id
             (finish_fields fr status result error)) s of
        (None, s') \<Rightarrow> (Inl unavailable, s')
      | (Some _, s') \<Rightarrow> (Inr (), s'))"

definition recover_sweep ::
  "'s redis \<Rightarrow> float_text \<Rightarrow> int \<Rightarrow> rat \<Rightarrow> 's \<Rightarrow> nat option \<times> 's" where
  "recover_sweep R F lease now s =
     recover_script R F PROCESSING_KEY QUEUE_KEY JOB_PREFIX
       (py_repr F (now - of_int lease)) (py_repr F now) s"

definition recover_processing ::
  "'s redis \<Rightarrow> float_text \<Rightarrow> inference_queue \<Rightarrow> link \<Rightarrow> link \<Rightarrow> rat \<Rightarrow> 's
   \<Rightarrow> (queue_error + nat) \<times> 's" where
  "recover_processing R F Q l1 l2 now s =
     (case call l1 (r_set_nx_ex R RECOVERY_LOCK_KEY ''1'' (iq_recovery_lock_seconds Q)) s of
        (None, s1) \<Rightarrow> (Inl unavailable, s1)
      | (Some acquired, s1) \<Rightarrow>
          if \<not> acquired then (Inr 0, s1)
          else (case call l2 (recover_sweep R F (iq_recovery_lock_seconds Q) now) s1 of
                  (Some (Some recovered), s2) \<Rightarrow> (Inr recovered, s2)
                | (_, s2) \<Rightarrow> (Inl unavailable, s2)))"

section \<open>The abstract queue\<close>

text \<open>
  What the queue promises is about ids, not keys: the ids waiting, the ids claimed, and for each
  id the fields of its record with the time it has left to live.
\<close>

type_synonym job_fields = "string \<rightharpoonup> string"

record qstate =
  q_queued :: "string list"
  q_processing :: "string list"
  q_jobs :: "string \<rightharpoonup> job_fields \<times> rat option"

definition job_at :: "keyspace \<Rightarrow> string \<Rightarrow> (job_fields \<times> rat option) option" where
  "job_at ks job_id =
     (case ks (job_key job_id) of Some (RHash h, t) \<Rightarrow> Some (h, t) | _ \<Rightarrow> None)"

definition qabs :: "keyspace \<Rightarrow> qstate" where
  "qabs ks = \<lparr>q_queued = list_at ks QUEUE_KEY, q_processing = list_at ks PROCESSING_KEY,
     q_jobs = job_at ks\<rparr>"

definition well_typed :: "keyspace \<Rightarrow> bool" where
  "well_typed ks \<longleftrightarrow>
     is_list_key ks QUEUE_KEY \<and> is_list_key ks PROCESSING_KEY \<and>
     ttl_at ks QUEUE_KEY = None \<and> ttl_at ks PROCESSING_KEY = None \<and>
     (\<forall>job_id. is_hash_key ks (job_key job_id))"

text \<open>The contract of each script and transaction, on the abstract queue.\<close>

definition spec_enqueue :: "int \<Rightarrow> int \<Rightarrow> string \<Rightarrow> string \<Rightarrow> qstate \<Rightarrow> int \<times> qstate" where
  "spec_enqueue capacity ttl job_id payload q =
     (case q_jobs q job_id of
        Some (h, _) \<Rightarrow> (if h ''payload'' = Some payload then 0 else - 2, q)
      | None \<Rightarrow>
          if int (length (q_queued q)) \<ge> capacity then (- 1, q)
          else (1, q\<lparr>q_queued := q_queued q @ [job_id],
                    q_jobs := (q_jobs q)(job_id \<mapsto>
                      ([''status'' \<mapsto> ''queued'', ''payload'' \<mapsto> payload], Some (of_int ttl)))\<rparr>))"

definition spec_pop :: "qstate \<Rightarrow> string option \<times> qstate" where
  "spec_pop q = (case q_queued q of
       [] \<Rightarrow> (None, q)
     | x # xs \<Rightarrow> (Some x, q\<lparr>q_queued := xs, q_processing := q_processing q @ [x]\<rparr>))"

definition spec_unlink :: "string \<Rightarrow> qstate \<Rightarrow> qstate" where
  "spec_unlink job_id q = q\<lparr>q_processing := remove1 job_id (q_processing q)\<rparr>"

definition spec_update :: "string \<Rightarrow> (string \<times> string) list \<Rightarrow> qstate \<Rightarrow> qstate" where
  "spec_update job_id fvs q =
     q\<lparr>q_jobs := (q_jobs q)(job_id \<mapsto>
        (case q_jobs q job_id of None \<Rightarrow> (map_upd_list Map.empty fvs, None)
         | Some (h, t) \<Rightarrow> (map_upd_list h fvs, t)))\<rparr>"

definition spec_finish :: "int \<Rightarrow> string \<Rightarrow> (string \<times> string) list \<Rightarrow> qstate \<Rightarrow> qstate" where
  "spec_finish ttl job_id fvs q =
     q\<lparr>q_processing := remove1 job_id (q_processing q),
       q_jobs := (q_jobs q)(job_id \<mapsto>
        (map_upd_list (case q_jobs q job_id of None \<Rightarrow> Map.empty | Some (h, _) \<Rightarrow> h) fvs,
         Some (of_int ttl)))\<rparr>"

definition claim_time :: "float_text \<Rightarrow> string \<Rightarrow> rat" where
  "claim_time F c = (case lua_tonumber F c of None \<Rightarrow> 0 | Some t \<Rightarrow> t)"

definition spec_requeue :: "string \<Rightarrow> job_fields \<Rightarrow> rat option \<Rightarrow> qstate \<Rightarrow> qstate" where
  "spec_requeue job_id h t q =
     q\<lparr>q_queued := q_queued q @ [job_id], q_processing := remove1 job_id (q_processing q),
       q_jobs := (q_jobs q)(job_id \<mapsto> (h(''status'' \<mapsto> ''queued'', ''claimed_at'' := None), t))\<rparr>"

definition spec_recover_one :: "float_text \<Rightarrow> rat \<Rightarrow> string \<Rightarrow> string \<Rightarrow> nat \<times> qstate \<Rightarrow> nat \<times> qstate" where
  "spec_recover_one F before now_text job_id rq =
     (let (recovered, q) = rq in
      case q_jobs q job_id of
        None \<Rightarrow> (recovered, spec_unlink job_id q)
      | Some (h, t) \<Rightarrow>
          if h ''status'' = None \<or> terminal_status (h ''status'') then
            (recovered, spec_unlink job_id q)
          else (case h ''claimed_at'' of
             None \<Rightarrow> (recovered, spec_update job_id [(''claimed_at'', now_text)] q)
           | Some c \<Rightarrow>
               if claim_time F c \<le> before \<and> job_id \<in> set (q_processing q)
               then (Suc recovered, spec_requeue job_id h t q)
               else (recovered, q)))"

definition spec_recover :: "float_text \<Rightarrow> rat \<Rightarrow> string \<Rightarrow> qstate \<Rightarrow> nat \<times> qstate" where
  "spec_recover F before now_text q =
     fold (spec_recover_one F before now_text) (q_processing q) (0, q)"

definition spec_age :: "rat \<Rightarrow> qstate \<Rightarrow> qstate" where
  "spec_age d q = q\<lparr>q_jobs := (\<lambda>job_id. case q_jobs q job_id of
       None \<Rightarrow> None
     | Some (h, None) \<Rightarrow> Some (h, None)
     | Some (h, Some t) \<Rightarrow> if t \<le> d then None else Some (h, Some (t - d)))\<rparr>"

section \<open>The Redis state implements the abstract queue\<close>

lemma keys_distinct [key_simps]:
  "QUEUE_KEY \<noteq> PROCESSING_KEY" "PROCESSING_KEY \<noteq> QUEUE_KEY"
  "job_key i \<noteq> QUEUE_KEY" "QUEUE_KEY \<noteq> job_key i"
  "job_key i \<noteq> PROCESSING_KEY" "PROCESSING_KEY \<noteq> job_key i"
  "RECOVERY_LOCK_KEY \<noteq> QUEUE_KEY" "RECOVERY_LOCK_KEY \<noteq> PROCESSING_KEY"
  "RECOVERY_LOCK_KEY \<noteq> job_key i"
  "QUEUE_KEY \<noteq> RECOVERY_LOCK_KEY" "PROCESSING_KEY \<noteq> RECOVERY_LOCK_KEY"
  "job_key i \<noteq> RECOVERY_LOCK_KEY"
  by (simp_all add: QUEUE_KEY_def PROCESSING_KEY_def JOB_PREFIX_def RECOVERY_LOCK_KEY_def)

lemma well_typed_keys:
  "well_typed ks \<Longrightarrow> is_list_key ks QUEUE_KEY"
  "well_typed ks \<Longrightarrow> is_list_key ks PROCESSING_KEY"
  "well_typed ks \<Longrightarrow> is_hash_key ks (job_key i)"
  by (simp_all add: well_typed_def)

lemma well_typed_put [simp]:
  "well_typed ks \<Longrightarrow> well_typed (put_list QUEUE_KEY xs ks)"
  "well_typed ks \<Longrightarrow> well_typed (put_list PROCESSING_KEY xs ks)"
  "well_typed ks \<Longrightarrow> well_typed (put_hash (job_key i) h ks)"
  "well_typed ks \<Longrightarrow> well_typed (put_ttl (job_key i) n ks)"
  by (auto simp: well_typed_def key_simps)

lemma well_typed_age: "well_typed ks \<Longrightarrow> well_typed (age d ks)"
  by (auto simp: well_typed_def is_list_key_age ttl_at_age is_hash_key_age)

lemma well_typed_lock:
  "well_typed ks \<Longrightarrow> well_typed (ks(RECOVERY_LOCK_KEY := v))"
  by (auto simp: well_typed_def key_views key_simps)

lemma qabs_lock: "qabs (ks(RECOVERY_LOCK_KEY := v)) = qabs ks"
  by (auto simp: qabs_def job_at_def fun_eq_iff key_views key_simps)

lemma hash_at_job:
  "hash_at ks (job_key i) = (case job_at ks i of None \<Rightarrow> Map.empty | Some (h, _) \<Rightarrow> h)"
  by (auto simp: job_at_def hash_at.simps split: option.splits rvalue.splits)

lemma ttl_at_job:
  assumes "well_typed ks"
  shows "ttl_at ks (job_key i) = (case job_at ks i of None \<Rightarrow> None | Some (_, t) \<Rightarrow> t)"
  using well_typed_keys(3) [OF assms, of i]
  by (auto simp: job_at_def key_views split: option.splits rvalue.splits)

lemma job_present:
  assumes "well_typed ks"
  shows "ks (job_key i) = None \<longleftrightarrow> job_at ks i = None"
  using well_typed_keys(3) [OF assms, of i]
  by (auto simp: job_at_def key_views split: option.splits rvalue.splits)

lemma job_at_nonempty:
  assumes "well_typed ks" "job_at ks i = Some (h, t)"
  shows "h \<noteq> Map.empty"
  using well_typed_keys(3) [OF assms(1), of i] assms(2)
  by (auto simp: job_at_def key_views split: option.splits rvalue.splits)

lemma qabs_sel [simp]:
  "q_queued (qabs ks) = list_at ks QUEUE_KEY"
  "q_processing (qabs ks) = list_at ks PROCESSING_KEY"
  "q_jobs (qabs ks) = job_at ks"
  by (simp_all add: qabs_def)

lemma job_at_put_list [simp]:
  "job_at (put_list QUEUE_KEY xs ks) = job_at ks"
  "job_at (put_list PROCESSING_KEY xs ks) = job_at ks"
  by (simp_all add: job_at_def fun_eq_iff key_simps)

lemma job_at_put_hash:
  "well_typed ks \<Longrightarrow> h \<noteq> Map.empty \<Longrightarrow>
     job_at (put_hash (job_key i) h ks) =
       (job_at ks)(i \<mapsto> (h, case job_at ks i of None \<Rightarrow> None | Some (_, t) \<Rightarrow> t))"
  by (auto simp: job_at_def put_hash_def fun_eq_iff ttl_at_job)

lemma job_at_put_ttl:
  "well_typed ks \<Longrightarrow> 0 < n \<Longrightarrow> job_at ks i = Some (h, t) \<Longrightarrow>
     job_at (put_ttl (job_key i) n ks) = (job_at ks)(i \<mapsto> (h, Some (of_int n)))"
  by (auto simp: job_at_def put_ttl_def fun_eq_iff split: option.splits rvalue.splits)

lemma qabs_put_queue: "qabs (put_list QUEUE_KEY xs ks) = (qabs ks)\<lparr>q_queued := xs\<rparr>"
  by (simp add: qabs_def key_simps)

lemma qabs_put_processing: "qabs (put_list PROCESSING_KEY xs ks) = (qabs ks)\<lparr>q_processing := xs\<rparr>"
  by (simp add: qabs_def key_simps)

lemma qabs_put_hash:
  "well_typed ks \<Longrightarrow> h \<noteq> Map.empty \<Longrightarrow>
     qabs (put_hash (job_key i) h ks) = (qabs ks)\<lparr>q_jobs := (job_at ks)(i \<mapsto>
       (h, case job_at ks i of None \<Rightarrow> None | Some (_, t) \<Rightarrow> t))\<rparr>"
  by (simp add: qabs_def key_simps job_at_put_hash)

lemma qabs_put_ttl:
  "well_typed ks \<Longrightarrow> 0 < n \<Longrightarrow> job_at ks i = Some (h, t) \<Longrightarrow>
     qabs (put_ttl (job_key i) n ks) = (qabs ks)\<lparr>q_jobs := (job_at ks)(i \<mapsto> (h, Some (of_int n)))\<rparr>"
  by (simp add: qabs_def key_simps job_at_put_ttl)

lemma job_at_age:
  "job_at (age d ks) = (\<lambda>i. case job_at ks i of
       None \<Rightarrow> None
     | Some (h, None) \<Rightarrow> Some (h, None)
     | Some (h, Some t) \<Rightarrow> if t \<le> d then None else Some (h, Some (t - d)))"
  by (auto simp: job_at_def age_def fun_eq_iff split: option.splits rvalue.splits)

lemma qabs_age: "well_typed ks \<Longrightarrow> qabs (age d ks) = spec_age d (qabs ks)"
  by (simp add: qabs_def spec_age_def well_typed_def list_at_age job_at_age)

lemmas qabs_puts = qabs_put_queue qabs_put_processing qabs_put_hash qabs_put_ttl

context redis_server
begin

lemma hset_job:
  assumes "well_typed (view s)" "fvs \<noteq> []"
  shows "well_typed (view (r_hset R (job_key i) fvs s))"
    and "qabs (view (r_hset R (job_key i) fvs s)) = spec_update i fvs (qabs (view s))"
  using assms
  by (auto simp: hset_law well_typed_keys qabs_put_hash map_upd_list_nonempty spec_update_def
      hash_at_job split: option.splits)

lemma unlink_job:
  assumes "well_typed (view s)"
  shows "well_typed (view (snd (r_lrem R PROCESSING_KEY i s)))"
    and "qabs (view (snd (r_lrem R PROCESSING_KEY i s))) = spec_unlink i (qabs (view s))"
    and "fst (r_lrem R PROCESSING_KEY i s) = (if i \<in> set (q_processing (qabs (view s))) then 1 else 0)"
  using assms
  by (simp_all add: lrem_view lrem_count well_typed_keys qabs_puts spec_unlink_def)

lemma push_job:
  assumes "well_typed (view s)"
  shows "well_typed (view (r_rpush R QUEUE_KEY i s))"
    and "qabs (view (r_rpush R QUEUE_KEY i s)) =
      (qabs (view s))\<lparr>q_queued := q_queued (qabs (view s)) @ [i]\<rparr>"
  using assms by (simp_all add: rpush_law well_typed_keys qabs_puts)

lemma expire_job:
  assumes "well_typed (view s)" "0 < n" "q_jobs (qabs (view s)) i = Some (h, t)"
  shows "well_typed (view (r_expire R (job_key i) n s))"
    and "qabs (view (r_expire R (job_key i) n s)) =
      (qabs (view s))\<lparr>q_jobs := (q_jobs (qabs (view s)))(i \<mapsto> (h, Some (of_int n)))\<rparr>"
  using assms by (simp_all add: expire_law qabs_puts)

lemma hdel_job:
  assumes "well_typed (view s)" "q_jobs (qabs (view s)) i = Some (h, t)" "h(f := None) \<noteq> Map.empty"
  shows "well_typed (view (r_hdel R (job_key i) f s))"
    and "qabs (view (r_hdel R (job_key i) f s)) =
      (qabs (view s))\<lparr>q_jobs := (q_jobs (qabs (view s)))(i \<mapsto> (h(f := None), t))\<rparr>"
  using assms by (simp_all add: hdel_law well_typed_keys qabs_puts hash_at_job del: fun_upd_apply)

lemma hget_job:
  "well_typed (view s) \<Longrightarrow> r_hget R (job_key i) f s =
     (case q_jobs (qabs (view s)) i of None \<Rightarrow> None | Some (h, _) \<Rightarrow> h f)"
  by (auto simp: hget_law well_typed_keys hash_at_job split: option.splits)

lemma hgetall_job:
  "well_typed (view s) \<Longrightarrow> map_of (r_hgetall R (job_key i) s) =
     (case q_jobs (qabs (view s)) i of None \<Rightarrow> Map.empty | Some (h, _) \<Rightarrow> h)"
  by (auto simp: hgetall_law well_typed_keys hash_at_job split: option.splits)

lemma enqueue_script_refines:
  fixes i p :: string and cap :: int
  assumes "well_typed (view s)" "0 < ttl"
  defines "r \<equiv> enqueue_script R (job_key i) QUEUE_KEY p cap ttl i s"
  shows "well_typed (view (snd r))"
    and "(fst r, qabs (view (snd r))) = spec_enqueue cap ttl i p (qabs (view s))"
proof -
  let ?s1 = "r_hset R (job_key i) [(''status'', ''queued''), (''payload'', p)] s"
  note h = hset_job [OF assms(1), of "[(''status'', ''queued''), (''payload'', p)]" i, simplified]
  show "well_typed (view (snd r))"
    using assms(1) h
    by (simp add: r_def enqueue_script_def rpush_law expire_law well_typed_keys)
  have none: "r_exists R (job_key i) s \<longleftrightarrow> q_jobs (qabs (view s)) i \<noteq> None"
    using job_present [OF assms(1)] by (simp add: exists_law)
  show "(fst r, qabs (view (snd r))) = spec_enqueue cap ttl i p (qabs (view s))"
  proof (cases "q_jobs (qabs (view s)) i")
    case None
    have j: "q_jobs (qabs (view ?s1)) i =
        Some ([''status'' \<mapsto> ''queued'', ''payload'' \<mapsto> p], None)"
      using None by (simp only: h(2)) (simp add: spec_update_def)
    show ?thesis
      using None none expire_job [OF h(1) assms(2) j] assms(1)
      by (simp add: r_def enqueue_script_def spec_enqueue_def llen_law well_typed_keys push_job h(2)
          spec_update_def del: qabs_sel(3))
  next
    case (Some a)
    then show ?thesis using none hget_job [OF assms(1)]
      by (cases a) (simp add: r_def enqueue_script_def spec_enqueue_def)
  qed
qed

lemma claim_pop_refines:
  assumes "well_typed (view s)"
  shows "well_typed (view (snd (claim_pop R s)))"
    and "(fst (claim_pop R s), qabs (view (snd (claim_pop R s)))) = spec_pop (qabs (view s))"
proof -
  note k = well_typed_keys(1,2) [OF assms] keys_distinct(1)
  show "well_typed (view (snd (claim_pop R s)))"
    using assms lmove_empty [OF k] lmove_cons [OF k]
    by (cases "list_at (view s) QUEUE_KEY") (simp_all add: claim_pop_def)
  show "(fst (claim_pop R s), qabs (view (snd (claim_pop R s)))) = spec_pop (qabs (view s))"
    using lmove_empty [OF k] lmove_cons [OF k]
    by (cases "list_at (view s) QUEUE_KEY")
      (simp_all add: claim_pop_def spec_pop_def qabs_puts)
qed

lemma finish_txn_refines:
  assumes "well_typed (view s)" "0 < ttl" "fvs \<noteq> []"
  shows "well_typed (view (snd (finish_txn R ttl i fvs s)))"
    and "qabs (view (snd (finish_txn R ttl i fvs s))) = spec_finish ttl i fvs (qabs (view s))"
proof -
  let ?h = "map_upd_list (case q_jobs (qabs (view s)) i of None \<Rightarrow> Map.empty | Some (h, _) \<Rightarrow> h) fvs"
  note h = hset_job [OF assms(1,3), of i]
  have "\<exists>t. q_jobs (qabs (view (r_hset R (job_key i) fvs s))) i = Some (?h, t)"
    unfolding h(2) by (auto simp: spec_update_def split: option.splits)
  then obtain t where j: "q_jobs (qabs (view (r_hset R (job_key i) fvs s))) i = Some (?h, t)" ..
  note e = expire_job [OF h(1) assms(2) j]
  show "well_typed (view (snd (finish_txn R ttl i fvs s)))"
    using unlink_job(1) [OF e(1)] by (simp add: finish_txn_def)
  show "qabs (view (snd (finish_txn R ttl i fvs s))) = spec_finish ttl i fvs (qabs (view s))"
    using unlink_job(2) [OF e(1), of i]
    by (simp add: finish_txn_def e(2) h(2) spec_unlink_def spec_finish_def spec_update_def)
qed

lemma requeue_refines:
  assumes wt: "well_typed (view s)" and j: "q_jobs (qabs (view s)) i = Some (h, t)"
  defines "s1 \<equiv> snd (r_lrem R PROCESSING_KEY i s)"
  defines "s2 \<equiv> r_hset R (job_key i) [(''status'', ''queued'')] s1"
  defines "s3 \<equiv> r_rpush R QUEUE_KEY i (r_hdel R (job_key i) ''claimed_at'' s2)"
  shows "well_typed (view s3)" and "qabs (view s3) = spec_requeue i h t (qabs (view s))"
proof -
  note u = unlink_job [OF wt, of i, folded s1_def]
  note v = hset_job [OF u(1), of "[(''status'', ''queued'')]" i, simplified, folded s2_def]
  have j1: "q_jobs (qabs (view s1)) i = Some (h, t)"
    using j by (simp only: u(2)) (simp add: spec_unlink_def)
  have j2: "q_jobs (qabs (view s2)) i = Some (h(''status'' \<mapsto> ''queued''), t)"
    using j1 by (simp only: v(2)) (simp add: spec_update_def)
  have "(h(''status'' \<mapsto> ''queued''))(''claimed_at'' := None) \<noteq> Map.empty"
    by (auto simp: fun_eq_iff intro!: exI [of _ "''status''"])
  note w = hdel_job [OF v(1) j2 this]
  show "well_typed (view s3)" using push_job(1) [OF w(1)] by (simp add: s3_def)
  show "qabs (view s3) = spec_requeue i h t (qabs (view s))"
    using push_job(2) [OF w(1), of i] j
    by (simp add: s3_def w(2) v(2) u(2) spec_unlink_def spec_requeue_def spec_update_def)
qed

lemma recover_one_refines:
  fixes i now_text :: string and before :: rat and n :: nat and F :: float_text
  assumes wt: "well_typed (view s)"
  defines "r \<equiv> recover_one R F PROCESSING_KEY QUEUE_KEY JOB_PREFIX before now_text i (n, s)"
  shows "well_typed (view (snd r))"
    and "(fst r, qabs (view (snd r))) = spec_recover_one F before now_text i (n, qabs (view s))"
proof -
  note u = unlink_job [OF wt, of i]
  note v = hset_job [OF wt, of "[(''claimed_at'', now_text)]" i, simplified]
  have *: "well_typed (view (snd r)) \<and>
      (fst r, qabs (view (snd r))) = spec_recover_one F before now_text i (n, qabs (view s))"
  proof (cases "q_jobs (qabs (view s)) i")
    case None
    then show ?thesis using u
      by (simp add: r_def recover_one_def spec_recover_one_def hget_job [OF wt])
  next
    case (Some ht)
    then obtain h t where ht: "q_jobs (qabs (view s)) i = Some (h, t)" by (cases ht) auto
    note q = requeue_refines [OF wt ht]
    show ?thesis
      using ht u q v
      by (auto simp: r_def recover_one_def spec_recover_one_def hget_job [OF wt] Let_def
          claim_time_def case_prod_beta spec_unlink_def remove1_idem wt split: option.splits)
  qed
  then show "well_typed (view (snd r))"
    and "(fst r, qabs (view (snd r))) = spec_recover_one F before now_text i (n, qabs (view s))"
    by simp_all
qed

lemma recover_fold_refines:
  assumes "well_typed (view s)"
  shows "well_typed (view (snd (fold (recover_one R F PROCESSING_KEY QUEUE_KEY JOB_PREFIX before now_text) ids (n, s)))) \<and>
    (let r = fold (recover_one R F PROCESSING_KEY QUEUE_KEY JOB_PREFIX before now_text) ids (n, s)
     in (fst r, qabs (view (snd r))) =
        fold (spec_recover_one F before now_text) ids (n, qabs (view s)))"
  using assms
proof (induction ids arbitrary: n s)
  case (Cons i ids)
  let ?r = "recover_one R F PROCESSING_KEY QUEUE_KEY JOB_PREFIX before now_text i (n, s)"
  note r = recover_one_refines [OF Cons.prems, of F before now_text i n]
  show ?case using Cons.IH [OF r(1), of "fst ?r"] r(2) by (simp add: Let_def)
qed simp

lemma recover_sweep_refines:
  assumes "well_typed (view s)" "float_codec F"
  shows "well_typed (view (snd (recover_sweep R F lease now s)))"
    and "(fst (recover_sweep R F lease now s), qabs (view (snd (recover_sweep R F lease now s)))) =
      (let (n, q) = spec_recover F (now - of_int lease) (py_repr F now) (qabs (view s))
       in (Some n, q))"
proof -
  note t = float_codec.tonumber_repr [OF assms(2)]
  note f = recover_fold_refines [OF assms(1), of F "now - of_int lease" "py_repr F now"
      "list_at (view s) PROCESSING_KEY" 0]
  show "well_typed (view (snd (recover_sweep R F lease now s)))"
    using f assms(1)
    by (simp add: recover_sweep_def recover_script_def t lrange_law well_typed_keys case_prod_beta)
  show "(fst (recover_sweep R F lease now s), qabs (view (snd (recover_sweep R F lease now s)))) =
      (let (n, q) = spec_recover F (now - of_int lease) (py_repr F now) (qabs (view s))
       in (Some n, q))"
    using f assms(1)
    by (simp add: recover_sweep_def recover_script_def spec_recover_def t lrange_law well_typed_keys
        case_prod_beta Let_def prod_eq_iff)
qed

end

section \<open>The sweep in closed form\<close>

text \<open>
  What the loop of the recovery script does to each id of the processing list depends only on that
  id's record: it is dead (no record, or a terminal one), stranded (claimed before the
  threshold), unstamped, or live.
\<close>

definition dead_entry :: "qstate \<Rightarrow> string \<Rightarrow> bool" where
  "dead_entry q i \<longleftrightarrow>
     (case q_jobs q i of None \<Rightarrow> True
      | Some (h, _) \<Rightarrow> h ''status'' = None \<or> terminal_status (h ''status''))"

definition stamp_of :: "qstate \<Rightarrow> string \<Rightarrow> string option" where
  "stamp_of q i = (case q_jobs q i of None \<Rightarrow> None | Some (h, _) \<Rightarrow> h ''claimed_at'')"

definition stranded :: "float_text \<Rightarrow> rat \<Rightarrow> qstate \<Rightarrow> string \<Rightarrow> bool" where
  "stranded F before q i \<longleftrightarrow> \<not> dead_entry q i \<and>
     (case stamp_of q i of None \<Rightarrow> False | Some c \<Rightarrow> claim_time F c \<le> before)"

definition swept_job ::
  "float_text \<Rightarrow> rat \<Rightarrow> string \<Rightarrow> qstate \<Rightarrow> string \<Rightarrow> (job_fields \<times> rat option) option" where
  "swept_job F before now_text q i =
     (if dead_entry q i then q_jobs q i
      else if stranded F before q i then
        map_option (\<lambda>(h, t). (h(''status'' \<mapsto> ''queued'', ''claimed_at'' := None), t)) (q_jobs q i)
      else if stamp_of q i = None then
        map_option (\<lambda>(h, t). (h(''claimed_at'' \<mapsto> now_text), t)) (q_jobs q i)
      else q_jobs q i)"

definition swept ::
  "float_text \<Rightarrow> rat \<Rightarrow> string \<Rightarrow> string list \<Rightarrow> string list \<Rightarrow> qstate \<Rightarrow> qstate" where
  "swept F before now_text kept ids q =
     q\<lparr>q_queued := q_queued q @ filter (stranded F before q) ids,
       q_processing := kept @ filter (\<lambda>i. \<not> dead_entry q i \<and> \<not> stranded F before q i) ids,
       q_jobs := (\<lambda>i. if i \<in> set ids then swept_job F before now_text q i else q_jobs q i)\<rparr>"

lemma entry_cong:
  assumes "q_jobs q' i = q_jobs q i"
  shows "dead_entry q' i = dead_entry q i" "stranded F before q' i = stranded F before q i"
    "swept_job F before now_text q' i = swept_job F before now_text q i" "stamp_of q' i = stamp_of q i"
  using assms by (simp_all add: dead_entry_def stranded_def swept_job_def stamp_of_def)

lemma swept_Cons:
  assumes "i \<notin> set ids" and "q_queued q' = q_queued q @ (if stranded F before q i then [i] else [])"
    and "kept' = kept @ (if \<not> dead_entry q i \<and> \<not> stranded F before q i then [i] else [])"
    and "q_jobs q' = (q_jobs q)(i := swept_job F before now_text q i)"
  shows "swept F before now_text kept' ids q' = swept F before now_text kept (i # ids) q"
proof -
  have c: "q_jobs q' j = q_jobs q j" if "j \<in> set ids" for j using that assms(1,4) by auto
  have "filter (stranded F before q') ids = filter (stranded F before q) ids"
    by (rule filter_cong) (auto simp: entry_cong(2) [OF c])
  moreover have "filter (\<lambda>i. \<not> dead_entry q' i \<and> \<not> stranded F before q' i) ids =
      filter (\<lambda>i. \<not> dead_entry q i \<and> \<not> stranded F before q i) ids"
    by (rule filter_cong) (auto simp: entry_cong [OF c])
  moreover have "(\<lambda>j. if j \<in> set ids then swept_job F before now_text q' j else q_jobs q' j) =
      (\<lambda>j. if j \<in> set (i # ids) then swept_job F before now_text q j else q_jobs q j)"
    using assms(1,4) by (auto simp: fun_eq_iff entry_cong(3) [OF c])
  ultimately show ?thesis using assms(2,3) by (simp add: swept_def)
qed

lemma spec_recover_one_effect:
  fixes now_text :: string and before :: rat and n :: nat and F :: float_text
  assumes "q_processing q = kept @ i # ids" "distinct (q_processing q)"
  defines "r \<equiv> spec_recover_one F before now_text i (n, q)"
  shows "fst r = n + (if stranded F before q i then 1 else 0)"
    and "q_queued (snd r) = q_queued q @ (if stranded F before q i then [i] else [])"
    and "q_processing (snd r) =
      kept @ (if \<not> dead_entry q i \<and> \<not> stranded F before q i then [i] else []) @ ids"
    and "q_jobs (snd r) = (q_jobs q)(i := swept_job F before now_text q i)"
  using assms
  by (auto simp: spec_recover_one_def spec_unlink_def spec_update_def spec_requeue_def
      dead_entry_def stranded_def stamp_of_def swept_job_def remove1_append fun_upd_idem
      split: option.splits)

lemma spec_recover_fold:
  assumes "q_processing q = kept @ ids" "distinct (q_processing q)"
  shows "fold (spec_recover_one F before now_text) ids (n, q) =
    (n + length (filter (stranded F before q) ids), swept F before now_text kept ids q)"
  using assms
proof (induction ids arbitrary: kept n q)
  case Nil
  then show ?case by (simp add: swept_def)
next
  case (Cons i ids)
  let ?r = "spec_recover_one F before now_text i (n, q)"
  let ?kept = "kept @ (if \<not> dead_entry q i \<and> \<not> stranded F before q i then [i] else [])"
  note e = spec_recover_one_effect [OF Cons.prems, of F before now_text n]
  have i: "i \<notin> set ids" using Cons.prems by simp
  have "distinct (q_processing (snd ?r))" using Cons.prems e(3) by auto
  then have "fold (spec_recover_one F before now_text) ids ?r =
      (fst ?r + length (filter (stranded F before (snd ?r)) ids), swept F before now_text ?kept ids (snd ?r))"
    using Cons.IH [of "snd ?r" ?kept "fst ?r"] e(3) by simp
  moreover have "filter (stranded F before (snd ?r)) ids = filter (stranded F before q) ids"
    using i by (intro filter_cong refl entry_cong(2)) (auto simp: e(4))
  ultimately show ?case
    using swept_Cons [OF i e(2) refl e(4), of kept] by (simp add: e(1))
qed

lemma spec_recover_closed:
  "distinct (q_processing q) \<Longrightarrow> spec_recover F before now_text q =
     (length (filter (stranded F before q) (q_processing q)),
      swept F before now_text [] (q_processing q) q)"
  by (simp add: spec_recover_def spec_recover_fold [of q "[]"])

end
