(* ===== verification/Queue_Properties.thy ===== *)
theory Queue_Properties
  imports Async_Queue
begin

text \<open>
  The properties of single operations of the Redis queue, for every outcome of every round trip:
  the contract, the bound and the idempotence of \<open>enqueue\<close>, delivery by \<open>claim\<close>, the
  effect of \<open>finish\<close>, and what a recovery sweep does. Each holds for every Redis server that
  obeys the laws of \<open>redis_server\<close>; the witnesses run on \<open>mem_redis\<close>.
\<close>

section \<open>Operation lemmas\<close>

context redis_server
begin

lemma enqueue_refines:
  fixes fr :: "string \<Rightarrow> string" and i :: string and payload :: json and l :: link
  assumes "well_typed (view s)" "0 < iq_job_ttl_seconds Q"
  defines "v \<equiv> spec_enqueue (iq_capacity Q) (iq_job_ttl_seconds Q) i (json_dumps fr payload) (qabs (view s))"
  defines "r \<equiv> enqueue R fr Q l i payload s"
  shows "well_typed (view (snd r))"
    and "l = Delivered \<Longrightarrow> fst r = Inr \<lparr>er_created = (fst v = 1), er_full = (fst v = - 1),
      er_conflict = (fst v = - 2)\<rparr>"
    and "l \<noteq> Delivered \<Longrightarrow> fst r = Inl unavailable"
    and "qabs (view (snd r)) = (if l = RequestLost then qabs (view s) else snd v)"
  using enqueue_script_refines [OF assms(1,2), of i "json_dumps fr payload" "iq_capacity Q"] assms(1)
  by (cases l; simp add: r_def v_def enqueue_def dumps_payload_def prod_eq_iff)+

lemma rejected_claim_iff:
  assumes "well_typed (view s)"
  shows "rejected_claim (r_hgetall R (job_key i) s) \<longleftrightarrow>
    (case q_jobs (qabs (view s)) i of None \<Rightarrow> True | Some (h, _) \<Rightarrow> terminal_status (h ''status''))"
proof -
  have "r_hgetall R (job_key i) s = [] \<longleftrightarrow> q_jobs (qabs (view s)) i = None"
    using hgetall_job [OF assms, of i] job_at_nonempty [OF assms, of i]
    by (auto simp flip: map_of_empty_iff split: option.splits)
  then show ?thesis using hgetall_job [OF assms, of i]
    by (auto simp: rejected_claim_def terminal_status_def split: option.splits)
qed

lemma stamp_refines:
  assumes "well_typed (view s)"
  shows "well_typed (view (snd (claim_stamp R F i t s)))"
    and "qabs (view (snd (claim_stamp R F i t s))) =
      spec_update i [(''status'', ''running''), (''claimed_at'', py_repr F t)] (qabs (view s))"
  using hset_job [OF assms, of "[(''status'', ''running''), (''claimed_at'', py_repr F t)]" i]
  by (simp_all add: claim_stamp_def)

lemma discard_refines:
  assumes "well_typed (view s)"
  shows "well_typed (view (snd (claim_discard R i s)))"
    and "qabs (view (snd (claim_discard R i s))) = spec_unlink i (qabs (view s))"
  using unlink_job [OF assms] by (simp_all add: claim_discard_def)

lemma finish_refines:
  fixes fr :: "string \<Rightarrow> string" and i status :: string and result :: "json option"
    and error :: "string option" and l :: link
  assumes "well_typed (view s)" "0 < iq_job_ttl_seconds Q"
  defines "r \<equiv> finish R fr Q l i status result error s"
  shows "well_typed (view (snd r))"
    and "fst r = (if l = Delivered then Inr () else Inl unavailable)"
    and "qabs (view (snd r)) = (if l = RequestLost then qabs (view s)
      else spec_finish (iq_job_ttl_seconds Q) i (finish_fields fr status result error) (qabs (view s)))"
  using finish_txn_refines [OF assms(1,2), of "finish_fields fr status result error" i] assms(1)
  by (cases l; simp add: r_def finish_def finish_fields_def)+

lemma lock_refines:
  assumes "well_typed (view s)" "0 < iq_recovery_lock_seconds Q"
  defines "r \<equiv> r_set_nx_ex R RECOVERY_LOCK_KEY ''1'' (iq_recovery_lock_seconds Q) s"
  shows "well_typed (view (snd r))" and "qabs (view (snd r)) = qabs (view s)"
    and "fst r \<longleftrightarrow> view s RECOVERY_LOCK_KEY = None"
  using set_nx_law [OF assms(2), of RECOVERY_LOCK_KEY "''1''" s] assms(1)
  by (simp_all add: r_def well_typed_lock qabs_lock)

lemma recover_processing_refines:
  fixes l1 l2 :: link and now :: rat
  assumes "well_typed (view s)" "0 < iq_recovery_lock_seconds Q" "float_codec F"
  defines "r \<equiv> recover_processing R F Q l1 l2 now s"
  defines "q' \<equiv> spec_recover F (now - of_int (iq_recovery_lock_seconds Q)) (py_repr F now) (qabs (view s))"
  shows "well_typed (view (snd r))"
    and "qabs (view (snd r)) = qabs (view s) \<or> qabs (view (snd r)) = snd q'"
proof -
  let ?lk = "r_set_nx_ex R RECOVERY_LOCK_KEY ''1'' (iq_recovery_lock_seconds Q)"
  note k = lock_refines [OF assms(1,2)]
  note w = recover_sweep_refines [OF k(1) assms(3), of "iq_recovery_lock_seconds Q" now]
  have q: "qabs (view (snd (recover_sweep R F (iq_recovery_lock_seconds Q) now (snd (?lk s))))) = snd q'"
    using w(2) by (simp add: k(2) q'_def case_prod_beta)
  show "well_typed (view (snd r))"
    using assms(1) k w
    by (cases l1; cases l2) (auto simp: r_def recover_processing_def split: option.splits)
  show "qabs (view (snd r)) = qabs (view s) \<or> qabs (view (snd r)) = snd q'"
    using k q
    by (cases l1; cases l2) (auto simp: r_def recover_processing_def split: option.splits)
qed

end

text \<open>The instance of the witnesses: an empty server and a queue of capacity two.\<close>

definition demo_queue :: inference_queue where
  "demo_queue = \<lparr>iq_capacity = 2, iq_job_ttl_seconds = 60, iq_recovery_lock_seconds = 30\<rparr>"

definition demo_payload :: json where
  "demo_payload = JDict [(''deployment'', JStr ''ns/m''), (''endpoint'', JStr ''http://m''),
     (''text'', JStr ''good'')]"

lemma demo_payload_simps [simp]: "jwf fr demo_payload" "jsort demo_payload = demo_payload"
  by (simp_all add: demo_payload_def)

lemma demo_queue_simps [simp]:
  "iq_capacity demo_queue = 2" "iq_job_ttl_seconds demo_queue = 60"
  "iq_recovery_lock_seconds demo_queue = 30"
  by (simp_all add: demo_queue_def)

lemma empty_server [simp]:
  "well_typed (mem_view Map.empty)"
  "qabs (mem_view Map.empty) = \<lparr>q_queued = [], q_processing = [], q_jobs = Map.empty\<rparr>"
  by (auto simp: well_typed_def qabs_def job_at_def key_views mem_view_def fun_eq_iff)

section \<open>Submission\<close>

text \<open>
  (C10) \<open>enqueue\<close> implements the abstract queue's submission on every transport outcome: a
  delivered call reports exactly created, full or conflict and leaves the queue in the specified
  state; a lost request changes nothing; a lost reply raises although the job has been recorded.
\<close>

theorem enqueue_contract:
  fixes fr :: "string \<Rightarrow> string" and i :: string and payload :: json and l :: link
  assumes "redis_server R view" "well_typed (view s)" "0 < iq_job_ttl_seconds Q"
  defines "v \<equiv> spec_enqueue (iq_capacity Q) (iq_job_ttl_seconds Q) i (json_dumps fr payload) (qabs (view s))"
  shows "well_typed (view (snd (enqueue R fr Q l i payload s))) \<and>
    (case l of
       Delivered \<Rightarrow>
         fst (enqueue R fr Q l i payload s) = Inr \<lparr>er_created = (fst v = 1),
           er_full = (fst v = - 1), er_conflict = (fst v = - 2)\<rparr> \<and>
         qabs (view (snd (enqueue R fr Q l i payload s))) = snd v
     | RequestLost \<Rightarrow> enqueue R fr Q l i payload s = (Inl unavailable, s)
     | ReplyLost \<Rightarrow>
         fst (enqueue R fr Q l i payload s) = Inl unavailable \<and>
         qabs (view (snd (enqueue R fr Q l i payload s))) = snd v)"
  using redis_server.enqueue_refines [OF assms(1-3), where fr = fr and i = i and payload = payload and l = l]
  by (cases l) (simp_all add: v_def enqueue_def)

theorem enqueue_contract_witness:
  "fst (enqueue mem_redis id demo_queue Delivered ''a'' demo_payload Map.empty) =
     Inr \<lparr>er_created = True, er_full = False, er_conflict = False\<rparr> \<and>
   fst (enqueue mem_redis id demo_queue ReplyLost ''a'' demo_payload Map.empty) = Inl unavailable"
  using enqueue_contract [OF mem.redis_server_axioms, where s = Map.empty and Q = demo_queue
      and l = Delivered and fr = id and i = "''a''" and payload = demo_payload]
    enqueue_contract [OF mem.redis_server_axioms, where s = Map.empty and Q = demo_queue
      and l = ReplyLost and fr = id and i = "''a''" and payload = demo_payload]
  by (simp add: spec_enqueue_def)

text \<open>
  The queue is bounded: no submission, whatever its id, payload and transport outcome, makes
  the list of waiting ids longer than the configured capacity (or than it already was).
\<close>

theorem enqueue_bounded:
  assumes "redis_server R view" "well_typed (view s)" "0 < iq_job_ttl_seconds Q"
  shows "int (length (q_queued (qabs (view (snd (enqueue R fr Q l i payload s))))))
    \<le> max (int (length (q_queued (qabs (view s))))) (iq_capacity Q)"
  using redis_server.enqueue_refines(4) [OF assms, where fr = fr and i = i and payload = payload and l = l]
  by (auto simp: spec_enqueue_def simp del: qabs_sel split: option.splits)

theorem enqueue_bounded_witness:
  "int (length (q_queued (qabs (mem_view
     (snd (enqueue mem_redis id demo_queue Delivered ''a'' demo_payload Map.empty)))))) \<le> 2"
  using enqueue_bounded [OF mem.redis_server_axioms, where s = Map.empty and Q = demo_queue
      and l = Delivered and fr = id and i = "''a''" and payload = demo_payload]
  by simp

text \<open>
  Submission is idempotent: once a job has been recorded, by a delivered call or by one whose
  reply was lost, repeating the call with the same id changes nothing and is reported as neither
  created nor full; it is a conflict exactly when the payload is a different JSON value. The id
  stands in the queue once more than before the first call.
\<close>

theorem enqueue_idempotent:
  assumes "redis_server R view" "well_typed (view s)" "0 < iq_job_ttl_seconds Q"
    and "q_jobs (qabs (view s)) i = None" "int (length (q_queued (qabs (view s)))) < iq_capacity Q"
    and "l \<noteq> RequestLost" "jwf fr payload" "jwf fr payload'"
    and "s1 = snd (enqueue R fr Q l i payload s)"
  shows "enqueue R fr Q Delivered i payload' s1 =
      (Inr \<lparr>er_created = False, er_full = False, er_conflict = (jsort payload' \<noteq> jsort payload)\<rparr>, s1) \<and>
    q_queued (qabs (view s1)) = q_queued (qabs (view s)) @ [i]"
proof -
  note e = redis_server.enqueue_refines [OF assms(1-3), where fr = fr and i = i and payload = payload and l = l, folded assms(9)]
  have q1: "qabs (view s1) = (qabs (view s))\<lparr>q_queued := q_queued (qabs (view s)) @ [i],
      q_jobs := (q_jobs (qabs (view s)))(i \<mapsto> ([''status'' \<mapsto> ''queued'',
        ''payload'' \<mapsto> json_dumps fr payload], Some (of_int (iq_job_ttl_seconds Q))))\<rparr>"
    using e(4) assms(4-6) by (simp add: spec_enqueue_def del: qabs_sel)
  have wt: "well_typed (view s1)" using e(1) .
  have "r_exists R (job_key i) s1"
    using q1 job_present [OF wt, of i]
    by (auto simp: redis_server.exists_law [OF assms(1)] simp flip: qabs_sel(3))
  moreover have "r_hget R (job_key i) ''payload'' s1 = Some (json_dumps fr payload)"
    using redis_server.hget_job [OF assms(1) wt, of i] q1 by (simp del: qabs_sel)
  moreover have "json_dumps fr payload = json_dumps fr payload' \<longleftrightarrow> jsort payload' = jsort payload"
    using json_dumps_inject [of fr payload payload'] assms(7,8) json_dumps_jsort by metis
  ultimately show ?thesis
    using q1 by (auto simp: enqueue_def enqueue_script_def dumps_payload_def simp del: qabs_sel)
qed

theorem enqueue_idempotent_witness:
  "fst (enqueue mem_redis id demo_queue Delivered ''a'' (JStr ''ho'')
     (snd (enqueue mem_redis id demo_queue ReplyLost ''a'' demo_payload Map.empty))) =
     Inr \<lparr>er_created = False, er_full = False, er_conflict = True\<rparr>"
  using enqueue_idempotent [OF mem.redis_server_axioms, where s = Map.empty and Q = demo_queue
      and l = ReplyLost and fr = id and i = "''a''" and payload = demo_payload
      and payload' = "JStr ''ho''", OF _ _ _ _ _ _ _ refl]
  by (simp add: demo_payload_def)

section \<open>Delivery\<close>

lemma claim_delivery:
  assumes "redis_server R view" "well_typed (view s)"
    and "q_queued (qabs (view s)) = i # rest" "q_jobs (qabs (view s)) i = Some (h, ttl)"
    and "\<not> terminal_status (h ''status'')" "h ''payload'' = Some (json_dumps fr v)" "jwf fr v"
  shows "fst (claim R F Delivered Delivered Delivered t s) =
      Inr (Some \<lparr>cj_job_id = i, cj_payload = jsort v\<rparr>)"
    and "qabs (view (snd (claim R F Delivered Delivered Delivered t s))) =
      \<lparr>q_queued = rest, q_processing = q_processing (qabs (view s)) @ [i],
       q_jobs = (q_jobs (qabs (view s)))(i \<mapsto>
         (h(''status'' \<mapsto> ''running'', ''claimed_at'' \<mapsto> py_repr F t), ttl))\<rparr>"
proof -
  note p = redis_server.claim_pop_refines [OF assms(1,2)]
  let ?s1 = "snd (claim_pop R s)"
  have pop: "fst (claim_pop R s) = Some i"
    and q1: "qabs (view ?s1) = (qabs (view s))\<lparr>q_queued := rest,
      q_processing := q_processing (qabs (view s)) @ [i]\<rparr>"
    using p(2) assms(3) by (simp_all add: spec_pop_def del: qabs_sel)
  have j: "q_jobs (qabs (view ?s1)) i = Some (h, ttl)" using q1 assms(4) by (simp del: qabs_sel)
  have rej: "\<not> rejected_claim (r_hgetall R (job_key i) ?s1)"
    using redis_server.rejected_claim_iff [OF assms(1) p(1), of i] j assms(5) by (simp del: qabs_sel)
  have pay: "claimed_payload (r_hgetall R (job_key i) ?s1) = Some (jsort v)"
    using redis_server.hgetall_job [OF assms(1) p(1), of i] j assms(6,7)
    by (simp add: claimed_payload_def json_loads_dumps del: qabs_sel)
  note st = redis_server.stamp_refines [OF assms(1) p(1), of F i t]
  show "fst (claim R F Delivered Delivered Delivered t s) =
      Inr (Some \<lparr>cj_job_id = i, cj_payload = jsort v\<rparr>)"
    using pop rej pay by (simp add: claim_def claim_read_def)
  show "qabs (view (snd (claim R F Delivered Delivered Delivered t s))) =
      \<lparr>q_queued = rest, q_processing = q_processing (qabs (view s)) @ [i],
       q_jobs = (q_jobs (qabs (view s)))(i \<mapsto>
         (h(''status'' \<mapsto> ''running'', ''claimed_at'' \<mapsto> py_repr F t), ttl))\<rparr>"
    using pop rej pay st(2) q1 assms(4)
    by (simp add: claim_def claim_read_def spec_update_def del: qabs_sel)
qed

text \<open>
  A claim delivers the oldest waiting job: when the head of the queue has a record that is
  not terminal and whose payload was written by \<open>enqueue\<close>, a claim over working connections
  returns that id with the submitted JSON value, moves the id to the end of the processing list
  and stamps the record as running at the given time.
\<close>

theorem claim_delivers:
  assumes "redis_server R view" "well_typed (view s)"
    and "q_queued (qabs (view s)) = i # rest" "q_jobs (qabs (view s)) i = Some (h, ttl)"
    and "\<not> terminal_status (h ''status'')" "h ''payload'' = Some (json_dumps fr v)" "jwf fr v"
  shows "fst (claim R F Delivered Delivered Delivered t s) =
      Inr (Some \<lparr>cj_job_id = i, cj_payload = jsort v\<rparr>) \<and>
    qabs (view (snd (claim R F Delivered Delivered Delivered t s))) =
      \<lparr>q_queued = rest, q_processing = q_processing (qabs (view s)) @ [i],
       q_jobs = (q_jobs (qabs (view s)))(i \<mapsto>
         (h(''status'' \<mapsto> ''running'', ''claimed_at'' \<mapsto> py_repr F t), ttl))\<rparr>"
  using claim_delivery [OF assms] by simp

definition one_job :: mem where
  "one_job = snd (enqueue mem_redis id demo_queue Delivered ''a'' demo_payload Map.empty)"

lemma one_job_state:
  "well_typed (mem_view one_job)"
  "qabs (mem_view one_job) = \<lparr>q_queued = [''a''], q_processing = [], q_jobs =
     [''a'' \<mapsto> ([''status'' \<mapsto> ''queued'', ''payload'' \<mapsto> json_dumps id demo_payload], Some 60)]\<rparr>"
  using mem.enqueue_refines [where s = Map.empty and Q = demo_queue and l = Delivered and fr = id
      and i = "''a''" and payload = demo_payload]
  by (simp_all add: one_job_def spec_enqueue_def)

theorem claim_delivers_witness:
  "fst (claim mem_redis frac_text Delivered Delivered Delivered 5 one_job) =
     Inr (Some \<lparr>cj_job_id = ''a'', cj_payload = demo_payload\<rparr>)"
  using claim_delivers [OF mem.redis_server_axioms, OF one_job_state(1), where fr = id and i = "''a''"
      and v = demo_payload and F = frac_text and t = 5 and rest = "[]"]
  by (simp add: one_job_state(2) terminal_status_def del: qabs_sel json_dumps.simps)

section \<open>No claim loses a job\<close>

definition live_job :: "qstate \<Rightarrow> string \<Rightarrow> bool" where
  "live_job q i \<longleftrightarrow>
     (case q_jobs q i of None \<Rightarrow> False | Some (h, _) \<Rightarrow> \<not> terminal_status (h ''status''))"

definition listed :: "qstate \<Rightarrow> string \<Rightarrow> bool" where
  "listed q i \<longleftrightarrow> i \<in> set (q_queued q) \<or> i \<in> set (q_processing q)"

lemma spec_pop_keeps:
  "q_jobs (snd (spec_pop q)) = q_jobs q" "listed (snd (spec_pop q)) i = listed q i"
  by (auto simp: spec_pop_def listed_def split: list.splits)

lemma spec_unlink_other: "j \<noteq> i \<Longrightarrow> listed (spec_unlink i q) j = listed q j"
  by (auto simp: listed_def spec_unlink_def)

lemma spec_update_keeps:
  "listed (spec_update i fvs q) j = listed q j"
  by (simp add: listed_def spec_update_def)

context redis_server
begin

lemma claim_step_cases:
  fixes F :: float_text and l1 l2 l3 :: link and t :: rat
  assumes "well_typed (view s)"
  defines "s' \<equiv> snd (claim R F l1 l2 l3 t s)"
  obtains (same) "s' = s"
  | (popped) "s' = snd (claim_pop R s)"
  | (discarded) i where "fst (claim_pop R s) = Some i" "s' = snd (claim_discard R i (snd (claim_pop R s)))"
      "\<not> live_job (qabs (view (snd (claim_pop R s)))) i"
  | (stamped) i where "fst (claim_pop R s) = Some i" "s' = snd (claim_stamp R F i t (snd (claim_pop R s)))"
      "live_job (qabs (view (snd (claim_pop R s)))) i"
proof -
  let ?s1 = "snd (claim_pop R s)"
  have rej: "rejected_claim (r_hgetall R (job_key i) ?s1) \<longleftrightarrow> \<not> live_job (qabs (view ?s1)) i" for i
    using rejected_claim_iff [OF claim_pop_refines(1) [OF assms(1)], of i]
    by (auto simp: live_job_def split: option.splits)
  have "s' = s \<or> s' = ?s1 \<or> (\<exists>i. fst (claim_pop R s) = Some i \<and>
      (s' = snd (claim_discard R i ?s1) \<and> \<not> live_job (qabs (view ?s1)) i \<or>
       s' = snd (claim_stamp R F i t ?s1) \<and> live_job (qabs (view ?s1)) i))"
    by (cases l1; cases l2; cases l3)
      (auto simp: s'_def claim_def claim_read_def rej split: option.splits)
  then show thesis using that by blast
qed

lemma claim_keeps_live:
  assumes "well_typed (view s)" "live_job (qabs (view s)) j" "listed (qabs (view s)) j"
  shows "listed (qabs (view (snd (claim R F l1 l2 l3 t s)))) j"
proof -
  note p = claim_pop_refines [OF assms(1)]
  have q1: "qabs (view (snd (claim_pop R s))) = snd (spec_pop (qabs (view s)))"
    using p(2) by (metis snd_conv)
  then have l1: "listed (qabs (view (snd (claim_pop R s)))) j"
    and v1: "live_job (qabs (view (snd (claim_pop R s)))) j"
    using assms(2,3) by (simp_all add: spec_pop_keeps live_job_def)
  show ?thesis
  proof (rule claim_step_cases [OF assms(1), of F l1 l2 l3 t], goal_cases)
    case 1 then show ?case using assms(3) by simp
  next
    case 2 then show ?case using l1 by simp
  next
    case (3 i)
    then have "j \<noteq> i" using v1 by auto
    then show ?case using 3 l1 discard_refines(2) [OF p(1), of i] by (simp add: spec_unlink_other)
  next
    case (4 i)
    then show ?case using l1 stamp_refines(2) [OF p(1), of F i t] by (simp add: spec_update_keeps)
  qed
qed

end

text \<open>
  A claim never loses a job, whichever of its round trips fails: every job that is waiting or
  claimed and whose record is not terminal is still waiting or claimed afterwards, so the recovery
  sweep can find it.
\<close>

theorem claim_never_loses:
  assumes "redis_server R view" "well_typed (view s)"
    and "live_job (qabs (view s)) j" "listed (qabs (view s)) j"
  shows "listed (qabs (view (snd (claim R F l1 l2 l3 t s)))) j"
  by (rule redis_server.claim_keeps_live [OF assms])

theorem claim_never_loses_witness:
  "listed (qabs (mem_view (snd (claim mem_redis frac_text ReplyLost Delivered Delivered 5 one_job)))) ''a''"
  by (rule claim_never_loses [OF mem.redis_server_axioms, OF one_job_state(1)])
    (simp_all add: one_job_state(2) live_job_def listed_def terminal_status_def del: qabs_sel)

section \<open>Completion\<close>

text \<open>
  A finish that reaches Redis, even when its reply is lost, is final: the record has the given
  status and result or error and lives for exactly the configured time to live, one occurrence of
  the id leaves the processing list, and no other record and no waiting id changes.
\<close>

theorem finish_effect:
  assumes "redis_server R view" "well_typed (view s)" "0 < iq_job_ttl_seconds Q"
    and "l \<noteq> RequestLost" "q_jobs (qabs (view s)) i = Some (h, ttl)"
    and "q' = qabs (view (snd (finish R fr Q l i status result error s)))"
  shows "q_queued q' = q_queued (qabs (view s)) \<and>
    q_processing q' = remove1 i (q_processing (qabs (view s))) \<and>
    (\<forall>j. j \<noteq> i \<longrightarrow> q_jobs q' j = q_jobs (qabs (view s)) j) \<and>
    (\<exists>h'. q_jobs q' i = Some (h', Some (of_int (iq_job_ttl_seconds Q))) \<and>
       h' ''status'' = Some status \<and> h' ''payload'' = h ''payload'' \<and>
       h' ''result'' = (case result of None \<Rightarrow> h ''result'' | Some v \<Rightarrow> Some (json_dumps fr v)) \<and>
       h' ''error'' = (case error of None \<Rightarrow> h ''error'' | Some e \<Rightarrow> Some e))"
  using redis_server.finish_refines(3) [OF assms(1-3), where fr = fr and l = l and i = i
      and status = status and result = result and error = error] assms(4-6)
  by (simp add: spec_finish_def finish_fields_def del: qabs_sel split: option.split)

theorem finish_effect_witness:
  "\<exists>h'. q_jobs (qabs (mem_view (snd (finish mem_redis id demo_queue ReplyLost ''a'' ''failed'' None
       (Some ''boom'') one_job)))) ''a'' = Some (h', Some 60) \<and> h' ''status'' = Some ''failed''"
  using finish_effect [OF mem.redis_server_axioms, OF one_job_state(1), where fr = id and i = "''a''"
      and Q = demo_queue and l = ReplyLost and status = "''failed''" and result = None
      and error = "Some ''boom''", OF _ _ _ refl]
  by (auto simp: one_job_state(2) simp del: qabs_sel)

section \<open>Recovery\<close>

context redis_server
begin

lemma sweep_closed:
  assumes "well_typed (view s)" "float_codec F" "distinct (q_processing (qabs (view s)))"
  shows "fst (recover_sweep R F lease now s) =
      Some (length (filter (stranded F (now - of_int lease) (qabs (view s))) (q_processing (qabs (view s)))))"
    and "qabs (view (snd (recover_sweep R F lease now s))) =
      swept F (now - of_int lease) (py_repr F now) [] (q_processing (qabs (view s))) (qabs (view s))"
  using recover_sweep_refines(2) [OF assms(1,2), of lease now] assms(3)
  by (simp_all add: spec_recover_closed del: qabs_sel)

lemma lock_key_kept:
  assumes "well_typed (view s)"
  shows "view (snd (r_lrem R PROCESSING_KEY i s)) RECOVERY_LOCK_KEY = view s RECOVERY_LOCK_KEY"
    and "fvs \<noteq> [] \<Longrightarrow> view (r_hset R (job_key i) fvs s) RECOVERY_LOCK_KEY = view s RECOVERY_LOCK_KEY"
    and "view (r_hdel R (job_key i) f s) RECOVERY_LOCK_KEY = view s RECOVERY_LOCK_KEY"
    and "view (r_rpush R QUEUE_KEY i s) RECOVERY_LOCK_KEY = view s RECOVERY_LOCK_KEY"
  using assms by (simp_all add: lrem_view hset_law hdel_law rpush_law well_typed_keys key_simps)

lemma hdel_typed: "well_typed (view s) \<Longrightarrow> well_typed (view (r_hdel R (job_key i) f s))"
  by (simp add: hdel_law well_typed_keys)

lemma recover_one_lock:
  assumes "well_typed (view s)"
  shows "view (snd (recover_one R F PROCESSING_KEY QUEUE_KEY JOB_PREFIX before now_text i (n, s)))
    RECOVERY_LOCK_KEY = view s RECOVERY_LOCK_KEY"
proof -
  note u = unlink_job(1) [OF assms, of i]
  note v = hset_job(1) [OF u, of "[(''status'', ''queued'')]" i, simplified]
  show ?thesis
    by (auto simp: recover_one_def Let_def case_prod_beta lock_key_kept assms u v hdel_typed
        split: option.splits)
qed

lemma recover_fold_lock:
  assumes "well_typed (view s)"
  shows "view (snd (fold (recover_one R F PROCESSING_KEY QUEUE_KEY JOB_PREFIX before now_text) ids (n, s)))
    RECOVERY_LOCK_KEY = view s RECOVERY_LOCK_KEY"
  using assms
proof (induction ids arbitrary: n s)
  case (Cons i ids)
  let ?r = "recover_one R F PROCESSING_KEY QUEUE_KEY JOB_PREFIX before now_text i (n, s)"
  show ?case
    using Cons.IH [OF recover_one_refines(1) [OF Cons.prems, where F = F and before = before
          and now_text = now_text and i = i and n = n], where n = "fst ?r"]
      recover_one_lock [OF Cons.prems, of F before now_text i n]
    by simp
qed simp

lemma sweep_lock:
  assumes "well_typed (view s)" "float_codec F"
  shows "view (snd (recover_sweep R F lease now s)) RECOVERY_LOCK_KEY = view s RECOVERY_LOCK_KEY"
  using recover_fold_lock [OF assms(1)] float_codec.tonumber_repr [OF assms(2)]
  by (simp add: recover_sweep_def recover_script_def case_prod_beta)

lemma recover_held:
  assumes "view s RECOVERY_LOCK_KEY \<noteq> None" "0 < iq_recovery_lock_seconds Q"
  shows "fst (recover_processing R F Q Delivered l2 now s) = Inr 0"
    and "view (snd (recover_processing R F Q Delivered l2 now s)) = view s"
  using set_nx_law [OF assms(2), of RECOVERY_LOCK_KEY "''1''" s] assms(1)
  by (auto simp: recover_processing_def)

lemma recover_acquires:
  assumes "well_typed (view s)" "0 < iq_recovery_lock_seconds Q" "float_codec F"
    and "view s RECOVERY_LOCK_KEY = None"
  shows "view (snd (recover_processing R F Q Delivered l2 now s)) RECOVERY_LOCK_KEY =
    Some (RStr ''1'', Some (of_int (iq_recovery_lock_seconds Q)))"
proof -
  let ?s1 = "snd (r_set_nx_ex R RECOVERY_LOCK_KEY ''1'' (iq_recovery_lock_seconds Q) s)"
  note k = set_nx_law [OF assms(2), of RECOVERY_LOCK_KEY "''1''" s]
  have wt: "well_typed (view ?s1)" by (rule lock_refines(1) [OF assms(1,2)])
  have v: "view ?s1 RECOVERY_LOCK_KEY = Some (RStr ''1'', Some (of_int (iq_recovery_lock_seconds Q)))"
    using k assms(4) by simp
  show ?thesis
    using k v assms(4) sweep_lock [OF wt assms(3)]
    by (cases l2) (auto simp: recover_processing_def split: option.splits)
qed

end

context redis_server
begin

lemma recover_runs:
  assumes "well_typed (view s)" "0 < iq_recovery_lock_seconds Q" "float_codec F"
    and "view s RECOVERY_LOCK_KEY = None" "distinct (q_processing (qabs (view s)))"
  shows "qabs (view (snd (recover_processing R F Q Delivered Delivered now s))) =
    swept F (now - of_int (iq_recovery_lock_seconds Q)) (py_repr F now) []
      (q_processing (qabs (view s))) (qabs (view s))"
proof -
  let ?s1 = "snd (r_set_nx_ex R RECOVERY_LOCK_KEY ''1'' (iq_recovery_lock_seconds Q) s)"
  note k = lock_refines [OF assms(1,2)]
  have d: "distinct (q_processing (qabs (view ?s1)))" using k(2) assms(5) by simp
  show ?thesis
    using sweep_closed [OF k(1) assms(3) d, of "iq_recovery_lock_seconds Q" now] k assms(4)
    by (simp add: recover_processing_def del: qabs_sel)
qed

end

text \<open>A worker died right after popping the only job.\<close>

definition abandoned_job :: mem where
  "abandoned_job = snd (claim_pop mem_redis one_job)"

lemma abandoned_job_state:
  "well_typed (mem_view abandoned_job)"
  "qabs (mem_view abandoned_job) = \<lparr>q_queued = [], q_processing = [''a''], q_jobs =
     [''a'' \<mapsto> ([''status'' \<mapsto> ''queued'', ''payload'' \<mapsto> json_dumps id demo_payload], Some 60)]\<rparr>"
  using mem.claim_pop_refines [OF one_job_state(1)]
  by (simp_all add: abandoned_job_def one_job_state(2) spec_pop_def del: qabs_sel)

text \<open>
  (C11) A recovery sweep treats each claimed id by its record alone: ids whose record is missing or
  terminal are only unlinked, ids claimed at or before \<open>now - lease\<close> go back to the end of the
  queue in order with status queued and no stamp, unstamped ids are stamped now and stay, younger
  claims are untouched; every other record is unchanged, and the result counts the requeued ids.
\<close>

theorem recover_sweep_effect:
  assumes "redis_server R view" "float_codec F" "well_typed (view s)"
    and "q = qabs (view s)" "distinct (q_processing q)" "before = now - of_int lease"
    and "q' = qabs (view (snd (recover_sweep R F lease now s)))"
  shows "fst (recover_sweep R F lease now s) = Some (length (filter (stranded F before q) (q_processing q))) \<and>
    q_queued q' = q_queued q @ filter (stranded F before q) (q_processing q) \<and>
    q_processing q' = filter (\<lambda>i. \<not> dead_entry q i \<and> \<not> stranded F before q i) (q_processing q) \<and>
    (\<forall>i. q_jobs q' i = (if i \<in> set (q_processing q) then swept_job F before (py_repr F now) q i
                         else q_jobs q i))"
  using redis_server.sweep_closed [OF assms(1,3,2), of lease now] assms(4-7)
  by (simp add: swept_def del: qabs_sel)

theorem recover_sweep_effect_witness:
  "q_processing (qabs (mem_view (snd (recover_sweep mem_redis frac_text 30 100 abandoned_job)))) = [''a'']"
  using recover_sweep_effect [OF mem.redis_server_axioms frac.float_codec_axioms, OF abandoned_job_state(1) refl _ refl refl,
      where lease = 30 and now = 100]
  by (simp add: abandoned_job_state(2) dead_entry_def stranded_def stamp_of_def terminal_status_def
      del: qabs_sel)

text \<open>
  The recovery lock admits one sweep per lease: after a call that took the lock, whether or
  not its sweep was delivered, every call made before the lease has passed returns zero and leaves
  the queue and all job records as they are.
\<close>

theorem recovery_lock_excludes:
  assumes "redis_server R view" "float_codec F" "well_typed (view s)"
    and "0 < iq_recovery_lock_seconds Q" "view s RECOVERY_LOCK_KEY = None"
    and "0 \<le> d" "d < of_int (iq_recovery_lock_seconds Q)"
    and "s1 = r_tick R d (snd (recover_processing R F Q Delivered l now s))"
  shows "fst (recover_processing R F Q Delivered l' now' s1) = Inr 0 \<and>
    view (snd (recover_processing R F Q Delivered l' now' s1)) = view s1"
proof -
  have "view s1 RECOVERY_LOCK_KEY \<noteq> None"
    using redis_server.recover_acquires [OF assms(1,3,4,2,5), of l now] assms(6-8)
    by (simp add: redis_server.tick_law [OF assms(1)] age_def)
  then show ?thesis
    using redis_server.recover_held [OF assms(1) _ assms(4)] by blast
qed

theorem recovery_lock_excludes_witness:
  "fst (recover_processing mem_redis frac_text demo_queue Delivered Delivered 120
     (r_tick mem_redis 20 (snd (recover_processing mem_redis frac_text demo_queue Delivered ReplyLost 100
       one_job)))) = Inr 0"
proof -
  have "mem_view one_job RECOVERY_LOCK_KEY = None"
    by (simp add: one_job_def enqueue_def enqueue_script_def mem_redis_def QUEUE_KEY_def
        RECOVERY_LOCK_KEY_def JOB_PREFIX_def)
  then show ?thesis
    using recovery_lock_excludes [OF mem.redis_server_axioms frac.float_codec_axioms,
        OF one_job_state(1), where Q = demo_queue and d = 20 and l = ReplyLost and now = 100
        and l' = Delivered and now' = 120, OF _ _ _ _ refl]
    by simp
qed

section \<open>A job of a departed worker is requeued\<close>

lemma swept_keeps_queued: "i \<in> set (q_queued q) \<Longrightarrow> i \<in> set (q_queued (swept F b n kept ids q))"
  by (simp add: swept_def)

text \<open>Two sweeps one lease apart bring back every claimed job whose record is live.\<close>

lemma two_sweeps:
  assumes "float_codec F" "i \<in> set (q_processing q)" "\<not> dead_entry q i"
    and "\<And>c. stamp_of q i = Some c \<Longrightarrow> claim_time F c \<le> t1" "t1 + lease \<le> t2"
  defines "q1 \<equiv> swept F (t1 - lease) (py_repr F t1) [] (q_processing q) q"
  defines "q2 \<equiv> swept F (t2 - lease) (py_repr F t2) [] (q_processing q1) q1"
  shows "i \<in> set (q_queued q2)"
proof (cases "stranded F (t1 - lease) q i")
  case True
  then have "i \<in> set (q_queued q1)" using assms(2) by (simp add: q1_def swept_def)
  then show ?thesis by (simp add: q2_def swept_keeps_queued)
next
  case False
  then have p1: "i \<in> set (q_processing q1)" using assms(2,3) by (simp add: q1_def swept_def)
  have j1: "q_jobs q1 i = swept_job F (t1 - lease) (py_repr F t1) q i"
    using assms(2) by (simp add: q1_def swept_def)
  have "stranded F (t2 - lease) q1 i"
  proof (cases "stamp_of q i")
    case None
    obtain h t where h: "q_jobs q i = Some (h, t)"
      using assms(3) by (cases "q_jobs q i") (auto simp: dead_entry_def)
    then have "q_jobs q1 i = Some (h(''claimed_at'' \<mapsto> py_repr F t1), t)"
      using None False assms(3) j1 by (simp add: swept_job_def)
    moreover have "t1 \<le> t2 - lease" using assms(5) by linarith
    ultimately show ?thesis
      using assms(3) h float_codec.tonumber_repr [OF assms(1), of t1]
      by (simp add: stranded_def dead_entry_def stamp_of_def claim_time_def)
  next
    case (Some c)
    then have "q_jobs q1 i = q_jobs q i" using False assms(3) j1 by (simp add: swept_job_def)
    note e = entry_cong [OF this]
    from e(1,4) Some have "dead_entry q1 i = dead_entry q i" "stamp_of q1 i = Some c" by simp_all
    moreover have "claim_time F c \<le> t2 - lease" using assms(4) [OF Some] assms(5) by linarith
    ultimately show ?thesis using assms(3) by (simp add: stranded_def)
  qed
  then show ?thesis using p1 by (simp add: q2_def swept_def)
qed

lemma swept_distinct:
  "distinct (q_processing q) \<Longrightarrow> distinct (q_processing (swept F b n [] (q_processing q) q))"
  by (simp add: swept_def)

text \<open>
  (C12) A departed worker's job is recovered: if an id is claimed and its record is neither gone nor
  terminal, and its stamp, if any, does not lie in the future, then after a sweep at \<open>t1\<close> and a
  sweep at any \<open>t2\<close> at least one lease later the id is waiting in the queue again, also when
  the worker died between popping the id and stamping it.
\<close>

theorem departed_worker_recovered:
  assumes "redis_server R view" "float_codec F" "well_typed (view s)"
    and "q = qabs (view s)" "distinct (q_processing q)" "i \<in> set (q_processing q)" "\<not> dead_entry q i"
    and "\<forall>c. stamp_of q i = Some c \<longrightarrow> claim_time F c \<le> t1" "t1 + of_int lease \<le> t2"
    and "s1 = snd (recover_sweep R F lease t1 s)" "s2 = snd (recover_sweep R F lease t2 s1)"
  shows "i \<in> set (q_queued (qabs (view s2)))"
proof -
  have q1: "qabs (view s1) = swept F (t1 - of_int lease) (py_repr F t1) [] (q_processing q) q"
    using redis_server.sweep_closed(2) [OF assms(1,3,2), of lease t1] assms(4,5,10) by simp
  have w1: "well_typed (view s1)"
    using redis_server.recover_sweep_refines(1) [OF assms(1,3,2)] assms(10) by simp
  have d1: "distinct (q_processing (qabs (view s1)))"
    using q1 swept_distinct [OF assms(5)] by (simp del: qabs_sel)
  have "qabs (view s2) = swept F (t2 - of_int lease) (py_repr F t2) []
      (q_processing (qabs (view s1))) (qabs (view s1))"
    using redis_server.sweep_closed(2) [OF assms(1) w1 assms(2) d1, of lease t2] assms(11) by simp
  then show ?thesis
    using two_sweeps [OF assms(2,6,7), of t1 "of_int lease" t2] assms(8,9) q1
    by (simp del: qabs_sel)
qed

theorem departed_worker_recovered_witness:
  "''a'' \<in> set (q_queued (qabs (mem_view (snd (recover_sweep mem_redis frac_text 30 130
     (snd (recover_sweep mem_redis frac_text 30 100 abandoned_job)))))))"
  by (rule departed_worker_recovered [OF mem.redis_server_axioms frac.float_codec_axioms,
        OF abandoned_job_state(1) refl _ _ _ _ _ refl refl])
    (simp_all add: abandoned_job_state(2) dead_entry_def stamp_of_def terminal_status_def
      del: qabs_sel)

end
