(* ===== verification/Py_Values.thy ===== *)
theory Py_Values
  imports Json
begin

text \<open>
  Python values that come from JSON: subscription, \<open>dict.get\<close>, attribute errors, truth values and
  the string methods the program uses. Every operation that can raise returns a sum.
\<close>

datatype py_error =
    KeyError | TypeError | AttributeError | ValueError | RuntimeError | TimeoutError | ClientError
  | OverflowError | IndexError | LookupError

text \<open>\<open>v[key]\<close> with a string key: only a dict accepts it.\<close>

fun getitem :: "json \<Rightarrow> string \<Rightarrow> py_error + json" where
  "getitem (JDict kvs) k = (case map_of kvs k of None \<Rightarrow> Inl KeyError | Some v \<Rightarrow> Inr v)"
| "getitem _ k = Inl TypeError"

text \<open>\<open>v.get(key, default)\<close>: only a dict has the method.\<close>

fun dict_get :: "json \<Rightarrow> string \<Rightarrow> json \<Rightarrow> py_error + json" where
  "dict_get (JDict kvs) k d = Inr (case map_of kvs k of None \<Rightarrow> d | Some v \<Rightarrow> v)"
| "dict_get _ k d = Inl AttributeError"

text \<open>\<open>s.rstrip("/")\<close>: only a string has the method.\<close>

definition rstrip_slash :: "string \<Rightarrow> string" where
  "rstrip_slash s = rev (dropWhile (\<lambda>c. c = CHR ''/'') (rev s))"

fun json_rstrip_slash :: "json \<Rightarrow> py_error + string" where
  "json_rstrip_slash (JStr s) = Inr (rstrip_slash s)"
| "json_rstrip_slash _ = Inl AttributeError"

lemma rstrip_slash_end: "rstrip_slash s = [] \<or> last (rstrip_slash s) \<noteq> CHR ''/''"
proof (cases "dropWhile (\<lambda>c. c = CHR ''/'') (rev s)")
  case (Cons c cs)
  then have "c \<noteq> CHR ''/''" using hd_dropWhile [of "\<lambda>c. c = CHR ''/''" "rev s"] by simp
  then show ?thesis by (simp add: rstrip_slash_def Cons)
qed (simp add: rstrip_slash_def)

section \<open>Equality\<close>

text \<open>
  Python's \<open>==\<close> on JSON values: \<open>bool\<close> and \<open>int\<close> compare as numbers, dicts regardless of order,
  and a comparison that involves a float is the parameter \<open>feq\<close>.
\<close>

fun int_like :: "json \<Rightarrow> int option" where
  "int_like (JInt n) = Some n"
| "int_like (JBool b) = Some (if b then 1 else 0)"
| "int_like _ = None"

fun is_float :: "json \<Rightarrow> bool" where
  "is_float (JFloat t) = True"
| "is_float _ = False"

definition num_eq :: "(json \<Rightarrow> json \<Rightarrow> bool) \<Rightarrow> json \<Rightarrow> json \<Rightarrow> bool" where
  "num_eq feq a b =
     (case (int_like a, int_like b) of
        (Some m, Some n) \<Rightarrow> m = n
      | _ \<Rightarrow> (is_float a \<or> int_like a \<noteq> None) \<and> (is_float b \<or> int_like b \<noteq> None) \<and> feq a b)"

lemma zip_size [termination_simp]:
  "(a, b) \<in> set (zip xs ys) \<Longrightarrow> size a < Suc (size_list size xs)"
  by (auto dest!: set_zip_leftD simp: less_Suc_eq_le size_list_estimation')

fun py_eq :: "(json \<Rightarrow> json \<Rightarrow> bool) \<Rightarrow> json \<Rightarrow> json \<Rightarrow> bool" where
  "py_eq feq JNull b = (b = JNull)"
| "py_eq feq (JStr s) b = (b = JStr s)"
| "py_eq feq (JList xs) b =
     (case b of JList ys \<Rightarrow> length xs = length ys \<and> list_all (\<lambda>(x, y). py_eq feq x y) (zip xs ys)
      | _ \<Rightarrow> False)"
| "py_eq feq (JDict kvs) b =
     (case b of
        JDict kws \<Rightarrow> length kvs = length kws \<and>
          list_all (\<lambda>(k, v). case map_of kws k of None \<Rightarrow> False | Some w \<Rightarrow> py_eq feq v w) kvs
      | _ \<Rightarrow> False)"
| "py_eq feq a b = num_eq feq a b"

text \<open>A value without floats that are unequal to themselves (NaN), with distinct keys, equals itself.\<close>

fun self_equal :: "(json \<Rightarrow> json \<Rightarrow> bool) \<Rightarrow> json \<Rightarrow> bool" where
  "self_equal feq (JFloat t) = feq (JFloat t) (JFloat t)"
| "self_equal feq (JList xs) = list_all (self_equal feq) xs"
| "self_equal feq (JDict kvs) =
     (distinct (map fst kvs) \<and> list_all (\<lambda>(k, v). self_equal feq v) kvs)"
| "self_equal feq _ = True"

lemma py_eq_refl: "self_equal feq v \<Longrightarrow> py_eq feq v v"
proof (induction v)
  case (JList xs)
  then show ?case by (auto simp: list_all_iff zip_same)
next
  case (JDict kvs)
  have "case map_of kvs k of None \<Rightarrow> False | Some w \<Rightarrow> py_eq feq v w" if kv: "(k, v) \<in> set kvs" for k v
  proof -
    have "map_of kvs k = Some v" using JDict.prems kv by (simp add: map_of_is_SomeI)
    moreover have "py_eq feq v v"
      using JDict.IH [OF kv, of v] JDict.prems kv by (auto simp: list_all_iff)
    ultimately show ?thesis by simp
  qed
  then show ?case by (auto simp: list_all_iff)
qed (auto simp: num_eq_def)

end
