(* ===== verification/Worker.thy ===== *)
theory Worker
  imports Queue_Properties Py_Values
begin

text \<open>
  The asynchronous worker of \<open>src/app/worker.py\<close>: \<open>process_job\<close>, the loops \<open>consume\<close> and
  \<open>recover_periodically\<close>, and the lease of \<open>run_worker\<close>. The HTTP client is a parameter: the
  outcome of a \<open>POST\<close>.
\<close>

section \<open>Processing one job\<close>

text \<open>
  The outcome of \<open>session.post\<close>: it raises, or the runtime answers with a status and a body.
  \<open>response.json()\<close> then raises (\<open>ClientError\<close> for another content type, \<open>ValueError\<close> for text that is
  not JSON, \<open>LookupError\<close> for a character set that is no text encoding) or gives a value, which is
  Python's \<open>None\<close> (\<open>JNull\<close>) for a JSON null and for an empty body. Which of these happens is free.
\<close>

datatype http_outcome = HttpRaises py_error | HttpResponse int "py_error + json"

datatype worker_error = QueueFailure queue_error | Uncaught py_error

definition caught :: "py_error \<Rightarrow> bool" where
  "caught e \<longleftrightarrow> e \<in> {TimeoutError, ClientError, RuntimeError, KeyError, ValueError}"

definition http_result :: "http_outcome \<Rightarrow> py_error + json" where
  "http_result r =
     (case r of
        HttpRaises e \<Rightarrow> Inl e
      | HttpResponse status body \<Rightarrow> if status \<noteq> 200 then Inl RuntimeError else body)"

text \<open>The outcomes whose exceptions, if any, \<open>process_job\<close> handles.\<close>

definition handled :: "http_outcome \<Rightarrow> bool" where
  "handled r \<longleftrightarrow> (case http_result r of Inl e \<Rightarrow> caught e | Inr _ \<Rightarrow> True)"

definition runtime_call :: "(string \<Rightarrow> json \<Rightarrow> http_outcome) \<Rightarrow> json \<Rightarrow> py_error + json" where
  "runtime_call post payload =
     bind_result (bind_result (getitem payload ''endpoint'') json_rstrip_slash)
       (\<lambda>base. bind_result (getitem payload ''text'')
         (\<lambda>txt. http_result (post (base @ ''/v1/infer'') (JDict [(''text'', txt)]))))"

text \<open>A result of \<open>None\<close> is passed on to \<open>finish\<close> as no result.\<close>

definition not_null :: "json \<Rightarrow> json option" where
  "not_null v = (if v = JNull then None else Some v)"

definition failure_message :: string where
  "failure_message = ''The model runtime request failed.''"

definition lift_finish :: "(queue_error + unit) \<times> 's \<Rightarrow> (worker_error + unit) \<times> 's" where
  "lift_finish r = (case fst r of Inl e \<Rightarrow> Inl (QueueFailure e) | Inr u \<Rightarrow> Inr u, snd r)"

definition process_job ::
  "'s redis \<Rightarrow> (string \<Rightarrow> string) \<Rightarrow> inference_queue \<Rightarrow> link \<Rightarrow> (string \<Rightarrow> json \<Rightarrow> http_outcome)
   \<Rightarrow> claimed_job \<Rightarrow> 's \<Rightarrow> (worker_error + unit) \<times> 's" where
  "process_job R fr Q l post job s =
     (case runtime_call post (cj_payload job) of
        Inr result \<Rightarrow>
          lift_finish (finish R fr Q l (cj_job_id job) ''succeeded'' (not_null result) None s)
      | Inl e \<Rightarrow>
          if caught e then
            lift_finish (finish R fr Q l (cj_job_id job) ''failed'' None (Some failure_message) s)
          else (Inl (Uncaught e), s))"

section \<open>The loops\<close>

text \<open>
  One pass of \<open>consume\<close>: the outcomes of its round trips, the time of the claim and the outcome
  of the HTTP request. A queue error is logged and the loop goes on; any other exception leaves it.
\<close>

record pass_input =
  p_pop :: link
  p_read :: link
  p_write :: link
  p_finish :: link
  p_time :: rat
  p_post :: "string \<Rightarrow> json \<Rightarrow> http_outcome"

definition consume_pass ::
  "'s redis \<Rightarrow> float_text \<Rightarrow> (string \<Rightarrow> string) \<Rightarrow> inference_queue \<Rightarrow> pass_input \<Rightarrow> 's
   \<Rightarrow> py_error option \<times> 's" where
  "consume_pass R F fr Q p s =
     (case claim R F (p_pop p) (p_read p) (p_write p) (p_time p) s of
        (Inl _, s1) \<Rightarrow> (None, s1)
      | (Inr None, s1) \<Rightarrow> (None, s1)
      | (Inr (Some job), s1) \<Rightarrow>
          (case process_job R fr Q (p_finish p) (p_post p) job s1 of
             (Inl (Uncaught e), s2) \<Rightarrow> (Some e, s2)
           | (_, s2) \<Rightarrow> (None, s2)))"

text \<open>The loop runs until \<open>stop\<close> is set: one list element per pass it makes before that.\<close>

fun consume ::
  "'s redis \<Rightarrow> float_text \<Rightarrow> (string \<Rightarrow> string) \<Rightarrow> inference_queue \<Rightarrow> pass_input list \<Rightarrow> 's
   \<Rightarrow> py_error option \<times> 's" where
  "consume R F fr Q [] s = (None, s)"
| "consume R F fr Q (p # ps) s =
     (case consume_pass R F fr Q p s of
        (Some e, s') \<Rightarrow> (Some e, s')
      | (None, s') \<Rightarrow> consume R F fr Q ps s')"

text \<open>
  Each pass of \<open>recover_periodically\<close> waits one interval; \<open>None\<close> is the stop event
  arriving during the wait, which ends the loop.
\<close>

fun recover_periodically ::
  "'s redis \<Rightarrow> float_text \<Rightarrow> inference_queue \<Rightarrow> (link \<times> link \<times> rat) option list \<Rightarrow> 's \<Rightarrow> 's" where
  "recover_periodically R F Q [] s = s"
| "recover_periodically R F Q (None # ws) s = s"
| "recover_periodically R F Q (Some (l1, l2, now) # ws) s =
     recover_periodically R F Q ws (snd (recover_processing R F Q l1 l2 now s))"

definition recovery_lease_seconds :: "int \<Rightarrow> int" where
  "recovery_lease_seconds async_inference_timeout_seconds = max (async_inference_timeout_seconds * 2) 30"

text \<open>
  The queue a worker builds from its settings, and the start-up sweep of \<open>run_worker\<close>: an error
  there ends the worker before any task starts.
\<close>

definition worker_queue :: "int \<Rightarrow> int \<Rightarrow> int \<Rightarrow> inference_queue" where
  "worker_queue capacity job_ttl timeout =
     \<lparr>iq_capacity = capacity, iq_job_ttl_seconds = job_ttl,
      iq_recovery_lock_seconds = recovery_lease_seconds timeout\<rparr>"

definition run_worker_start ::
  "'s redis \<Rightarrow> float_text \<Rightarrow> inference_queue \<Rightarrow> link \<Rightarrow> link \<Rightarrow> rat \<Rightarrow> 's \<Rightarrow> (queue_error + nat) \<times> 's" where
  "run_worker_start R F Q l1 l2 now s = recover_processing R F Q l1 l2 now s"

section \<open>Single jobs\<close>

lemma process_job_cases:
  "snd (process_job R fr Q l post job s) = s \<or>
   (\<exists>status result error. status \<in> {''succeeded'', ''failed''} \<and>
     snd (process_job R fr Q l post job s) = snd (finish R fr Q l (cj_job_id job) status result error s))"
  by (auto simp: process_job_def lift_finish_def split: sum.splits)

lemma runtime_call_payload:
  "runtime_call post (JDict [(''deployment'', d), (''endpoint'', JStr e), (''text'', t)]) =
     http_result (post (rstrip_slash e @ ''/v1/infer'') (JDict [(''text'', t)]))"
  by (simp add: runtime_call_def)

text \<open>
  \<open>process_job\<close> settles every job the API submits when it handles the outcome of the request: for a
  payload as \<open>enqueue_job\<close> writes it, exactly one \<open>finish\<close> is made, with the runtime's JSON answer when
  the runtime responds with status 200 and JSON, and otherwise with status failed and the fixed
  message, so no text of the runtime or of the exception reaches the job record. Any other exception
  leaves it, and the queue is untouched.
\<close>

theorem process_job_settles:
  fixes d e t :: string
  defines "url \<equiv> rstrip_slash e @ ''/v1/infer''"
  defines "payload \<equiv> JDict [(''deployment'', JStr d), (''endpoint'', JStr e), (''text'', JStr t)]"
  shows "process_job R fr Q l post \<lparr>cj_job_id = i, cj_payload = payload\<rparr> s =
    (case http_result (post url (JDict [(''text'', JStr t)])) of
       Inr v \<Rightarrow> lift_finish (finish R fr Q l i ''succeeded'' (not_null v) None s)
     | Inl err \<Rightarrow>
         if handled (post url (JDict [(''text'', JStr t)]))
         then lift_finish (finish R fr Q l i ''failed'' None (Some ''The model runtime request failed.'') s)
         else (Inl (Uncaught err), s))"
  by (auto simp: process_job_def runtime_call_payload payload_def url_def handled_def failure_message_def
      split: sum.splits)

text \<open>
  The recovery lease of a worker is longer than its runtime deadline, and at least thirty
  seconds, for every positive timeout, so a claim whose request has not exceeded its deadline is
  younger than the lease.
\<close>

theorem recovery_lease_exceeds_deadline:
  assumes "0 < timeout"
  shows "timeout < recovery_lease_seconds timeout \<and> 30 \<le> recovery_lease_seconds timeout \<and>
    2 * timeout \<le> recovery_lease_seconds timeout"
  using assms by (auto simp: recovery_lease_seconds_def max_def)

theorem recovery_lease_exceeds_deadline_witness:
  "30 < recovery_lease_seconds 30 \<and> 1 < recovery_lease_seconds 1"
  using recovery_lease_exceeds_deadline [of 30] recovery_lease_exceeds_deadline [of 1] by simp

end
