(* ===== verification/Worker_System.thy ===== *)
theory Worker_System
  imports Worker
begin

text \<open>
  The concurrent system: any number of workers, API submissions, crashes, sweeps and the passing of
  time, interleaved at the granularity of single commands to Redis and readings of the clock. The
  invariant says how the two lists, the job records and the workers' local states agree in every
  timely run; each kind of step keeps it.
\<close>

section \<open>The concurrent system\<close>

text \<open>
  What a worker is doing between two of its round trips, with the time at which it popped the id it
  holds: it has popped the id, it has read the record and found it claimable, it has read the record
  and will unlink the id, it is processing the job, or it has settled the job and, the reply being
  lost, may send the same transaction again. A number stands for one claim: it stays in its state as
  long as a command that was sent for the claim may still take effect, even when the client has given
  up waiting for the reply.
\<close>

datatype worker_pc =
    Idle
  | Popped string rat
  | Checked string rat "(string \<times> string) list"
  | Rejected string rat
  | Running string rat json
  | Settled string json "string \<Rightarrow> json \<Rightarrow> http_outcome"

text \<open>
  What a sweep is doing: it has the lock, or it has read the clock and its script is under way with
  that time.
\<close>

datatype sweep_pc = NoSweep | Locked | Evaluating rat

fun holds :: "worker_pc \<Rightarrow> (string \<times> rat) option" where
  "holds Idle = None"
| "holds (Popped i t) = Some (i, t)"
| "holds (Checked i t job) = Some (i, t)"
| "holds (Rejected i t) = Some (i, t)"
| "holds (Running i t v) = Some (i, t)"
| "holds (Settled i v post) = None"

record 's sys =
  store :: 's
  clock :: rat
  workers :: "nat \<Rightarrow> worker_pc"
  sweeps :: "nat \<Rightarrow> sweep_pc"

abbreviation move :: "nat \<Rightarrow> worker_pc \<Rightarrow> 's sys \<Rightarrow> 's sys" where
  "move w pc \<sigma> \<equiv> \<sigma>\<lparr>workers := (workers \<sigma>)(w := pc)\<rparr>"

text \<open>
  One step: an API process submits a job, a command of \<open>claim\<close> or of \<open>finish\<close> takes effect, nothing
  more is to come from a claim (\<open>crash\<close>: the worker died, or gave up after a lost reply), a command
  of \<open>recover_processing\<close> takes effect, a sweep reads the clock between its two commands or comes to
  nothing, or time passes. The commands are those the operations of the queue are composed of. The
  time a worker stamps a record with was read at any moment since it popped the id. The reply of a
  command may be lost after the command took effect; the sender may then send it again, as the Redis
  client does by itself, so each command has a second step that leaves the sender where it is.
\<close>

inductive sys_step ::
  "'s redis \<Rightarrow> float_text \<Rightarrow> (string \<Rightarrow> string) \<Rightarrow> inference_queue \<Rightarrow> 's sys \<Rightarrow> 's sys \<Rightarrow> bool"
  for R F fr Q where
  submit: "sys_step R F fr Q \<sigma> (\<sigma>\<lparr>store := snd (enqueue R fr Q l i payload (store \<sigma>))\<rparr>)"
| pop: "workers \<sigma> w = Idle \<Longrightarrow> fst (claim_pop R (store \<sigma>)) = Some i \<Longrightarrow>
    sys_step R F fr Q \<sigma> (move w (Popped i (clock \<sigma>)) (\<sigma>\<lparr>store := snd (claim_pop R (store \<sigma>))\<rparr>))"
| pop_reply_lost: "workers \<sigma> w = Idle \<Longrightarrow>
    sys_step R F fr Q \<sigma> (\<sigma>\<lparr>store := snd (claim_pop R (store \<sigma>))\<rparr>)"
| read: "workers \<sigma> w = Popped i t \<Longrightarrow> job = fst (claim_read R i (store \<sigma>)) \<Longrightarrow>
    sys_step R F fr Q \<sigma> (move w (if rejected_claim job then Rejected i t else Checked i t job) \<sigma>)"
| discard: "workers \<sigma> w = Rejected i t \<Longrightarrow>
    sys_step R F fr Q \<sigma> (move w Idle (\<sigma>\<lparr>store := snd (claim_discard R i (store \<sigma>))\<rparr>))"
| discard_reply_lost: "workers \<sigma> w = Rejected i t \<Longrightarrow>
    sys_step R F fr Q \<sigma> (\<sigma>\<lparr>store := snd (claim_discard R i (store \<sigma>))\<rparr>)"
| stamp: "workers \<sigma> w = Checked i t job \<Longrightarrow> t \<le> now \<Longrightarrow> now \<le> clock \<sigma> \<Longrightarrow>
    sys_step R F fr Q \<sigma>
      (move w (case claimed_payload job of None \<Rightarrow> Idle | Some v \<Rightarrow> Running i t v)
        (\<sigma>\<lparr>store := snd (claim_stamp R F i now (store \<sigma>))\<rparr>))"
| stamp_reply_lost: "workers \<sigma> w = Checked i t job \<Longrightarrow> t \<le> now \<Longrightarrow> now \<le> clock \<sigma> \<Longrightarrow>
    sys_step R F fr Q \<sigma> (\<sigma>\<lparr>store := snd (claim_stamp R F i now (store \<sigma>))\<rparr>)"
| work: "workers \<sigma> w = Running i t v \<Longrightarrow>
    sys_step R F fr Q \<sigma>
      (move w Idle (\<sigma>\<lparr>store := snd (process_job R fr Q l post
         \<lparr>cj_job_id = i, cj_payload = v\<rparr> (store \<sigma>))\<rparr>))"
| work_reply_lost: "workers \<sigma> w = Running i t v \<Longrightarrow>
    sys_step R F fr Q \<sigma>
      (move w (Settled i v post) (\<sigma>\<lparr>store := snd (process_job R fr Q ReplyLost post
         \<lparr>cj_job_id = i, cj_payload = v\<rparr> (store \<sigma>))\<rparr>))"
| resend: "workers \<sigma> w = Settled i v post \<Longrightarrow>
    sys_step R F fr Q \<sigma> (\<sigma>\<lparr>store := snd (process_job R fr Q ReplyLost post
      \<lparr>cj_job_id = i, cj_payload = v\<rparr> (store \<sigma>))\<rparr>)"
| crash: "sys_step R F fr Q \<sigma> (move w Idle \<sigma>)"
| lock: "sweeps \<sigma> k = NoSweep \<Longrightarrow>
    sys_step R F fr Q \<sigma>
      (\<sigma>\<lparr>store := snd (r_set_nx_ex R RECOVERY_LOCK_KEY ''1'' (iq_recovery_lock_seconds Q) (store \<sigma>)),
         sweeps := (sweeps \<sigma>)(k :=
           if fst (r_set_nx_ex R RECOVERY_LOCK_KEY ''1'' (iq_recovery_lock_seconds Q) (store \<sigma>))
           then Locked else NoSweep)\<rparr>)"
| take_time: "sweeps \<sigma> k = Locked \<Longrightarrow>
    sys_step R F fr Q \<sigma> (\<sigma>\<lparr>sweeps := (sweeps \<sigma>)(k := Evaluating (clock \<sigma>))\<rparr>)"
| sweep: "sweeps \<sigma> k = Evaluating now \<Longrightarrow>
    sys_step R F fr Q \<sigma>
      (\<sigma>\<lparr>store := snd (recover_sweep R F (iq_recovery_lock_seconds Q) now (store \<sigma>)),
         sweeps := (sweeps \<sigma>)(k := NoSweep)\<rparr>)"
| sweep_reply_lost: "sweeps \<sigma> k = Evaluating now \<Longrightarrow>
    sys_step R F fr Q \<sigma>
      (\<sigma>\<lparr>store := snd (recover_sweep R F (iq_recovery_lock_seconds Q) now (store \<sigma>))\<rparr>)"
| sweep_fails: "sys_step R F fr Q \<sigma> (\<sigma>\<lparr>sweeps := (sweeps \<sigma>)(k := NoSweep)\<rparr>)"
| pass: "0 \<le> d \<Longrightarrow>
    sys_step R F fr Q \<sigma> (\<sigma>\<lparr>store := r_tick R d (store \<sigma>), clock := clock \<sigma> + d\<rparr>)"

definition records_live :: "('s \<Rightarrow> keyspace) \<Rightarrow> 's sys \<Rightarrow> bool" where
  "records_live view \<sigma> \<longleftrightarrow>
     (\<forall>i. listed (qabs (view (store \<sigma>))) i \<longrightarrow> q_jobs (qabs (view (store \<sigma>))) i \<noteq> None) \<and>
     (\<forall>w i v post. workers \<sigma> w = Settled i v post \<longrightarrow> q_jobs (qabs (view (store \<sigma>))) i \<noteq> None)"

text \<open>
  A state is timely up to a delay \<open>\<delta>\<close> of sweeps when no script is under way for longer than \<open>\<delta>\<close> after
  its sweep read the clock, every live worker's claim is younger than the lease by more than \<open>\<delta>\<close>, and
  no id that is waiting or claimed, or whose settling may be sent again, has outlived its record. A
  script that is late stamps a claim with a time before the claim, by \<open>\<delta>\<close> at most. A timely run visits
  timely states only; it starts from an empty queue with idle workers and no sweep under way.
\<close>

definition timely :: "('s \<Rightarrow> keyspace) \<Rightarrow> inference_queue \<Rightarrow> rat \<Rightarrow> 's sys \<Rightarrow> bool" where
  "timely view Q \<delta> \<sigma> \<longleftrightarrow>
     (\<forall>k now. sweeps \<sigma> k = Evaluating now \<longrightarrow> clock \<sigma> \<le> now + \<delta>) \<and>
     (\<forall>w i t. holds (workers \<sigma> w) = Some (i, t) \<longrightarrow> clock \<sigma> + \<delta> < t + of_int (iq_recovery_lock_seconds Q)) \<and>
     records_live view \<sigma>"

definition fresh :: "('s \<Rightarrow> keyspace) \<Rightarrow> 's sys \<Rightarrow> bool" where
  "fresh view \<sigma> \<longleftrightarrow> well_typed (view (store \<sigma>)) \<and> (\<forall>w. workers \<sigma> w = Idle) \<and> (\<forall>k. sweeps \<sigma> k = NoSweep) \<and>
     qabs (view (store \<sigma>)) = \<lparr>q_queued = [], q_processing = [], q_jobs = Map.empty\<rparr>"

inductive timely_run ::
  "'s redis \<Rightarrow> ('s \<Rightarrow> keyspace) \<Rightarrow> float_text \<Rightarrow> (string \<Rightarrow> string) \<Rightarrow> inference_queue \<Rightarrow> rat \<Rightarrow> 's sys \<Rightarrow> bool"
  for R view F fr Q \<delta> where
  start: "fresh view \<sigma> \<Longrightarrow> timely_run R view F fr Q \<delta> \<sigma>"
| step: "timely_run R view F fr Q \<delta> \<sigma> \<Longrightarrow> sys_step R F fr Q \<sigma> \<sigma>' \<Longrightarrow> timely view Q \<delta> \<sigma>' \<Longrightarrow>
    timely_run R view F fr Q \<delta> \<sigma>'"

section \<open>The invariant\<close>

definition waiting_ok :: "(job_fields \<times> rat option) option \<Rightarrow> bool" where
  "waiting_ok j \<longleftrightarrow> (\<exists>h t. j = Some (h, t) \<and> h ''status'' = Some ''queued'' \<and> h ''claimed_at'' = None)"

definition claimed_ok :: "(job_fields \<times> rat option) option \<Rightarrow> bool" where
  "claimed_ok j \<longleftrightarrow> (\<exists>h t. j = Some (h, t) \<and> h ''status'' \<in> {Some ''queued'', Some ''running''})"

definition queue_inv :: "qstate \<Rightarrow> bool" where
  "queue_inv q \<longleftrightarrow>
     distinct (q_queued q @ q_processing q) \<and>
     (\<forall>i \<in> set (q_queued q). waiting_ok (q_jobs q i)) \<and>
     (\<forall>i \<in> set (q_processing q). claimed_ok (q_jobs q i)) \<and>
     (\<forall>i h t. q_jobs q i = Some (h, t) \<longrightarrow>
        terminal_status (h ''status'') \<or> listed q i)"

definition worker_inv :: "float_text \<Rightarrow> rat \<Rightarrow> qstate \<Rightarrow> rat \<Rightarrow> (nat \<Rightarrow> worker_pc) \<Rightarrow> bool" where
  "worker_inv F \<delta> q now ws \<longleftrightarrow>
     (\<forall>w i t. holds (ws w) = Some (i, t) \<longrightarrow>
        i \<in> set (q_processing q) \<and> t \<le> now \<and>
        (\<forall>c. stamp_of q i = Some c \<longrightarrow> t \<le> claim_time F c + \<delta>)) \<and>
     (\<forall>w w' i t t'. holds (ws w) = Some (i, t) \<longrightarrow> holds (ws w') = Some (i, t') \<longrightarrow> w = w') \<and>
     (\<forall>w i t. ws w \<noteq> Rejected i t)"

text \<open>Each abstract operation keeps the queue's part of the invariant.\<close>

lemma waiting_not_terminal: "waiting_ok j \<Longrightarrow> \<exists>h t. j = Some (h, t) \<and> \<not> terminal_status (h ''status'')"
  by (auto simp: waiting_ok_def terminal_status_def)

lemma claimed_not_terminal: "claimed_ok j \<Longrightarrow> \<exists>h t. j = Some (h, t) \<and> \<not> terminal_status (h ''status'')"
  by (auto simp: claimed_ok_def terminal_status_def)

lemma waiting_claimed: "waiting_ok j \<Longrightarrow> claimed_ok j"
  by (auto simp: waiting_ok_def claimed_ok_def)

lemma queue_inv_listed: "queue_inv q \<Longrightarrow> listed q i \<Longrightarrow> claimed_ok (q_jobs q i)"
  by (auto simp: queue_inv_def listed_def waiting_claimed)

lemma enqueue_inv:
  assumes "queue_inv q"
  shows "queue_inv (snd (spec_enqueue cap ttl i p q))"
proof (cases "q_jobs q i")
  case None
  then have "\<not> listed q i" using queue_inv_listed [OF assms, of i] by (auto simp: claimed_ok_def)
  with None assms show ?thesis
    by (auto simp: queue_inv_def spec_enqueue_def listed_def waiting_ok_def)
qed (use assms in \<open>simp add: spec_enqueue_def split: prod.split\<close>)

lemma pop_inv: "queue_inv q \<Longrightarrow> queue_inv (snd (spec_pop q))"
  unfolding queue_inv_def spec_pop_keeps
  by (cases "q_queued q") (auto simp: spec_pop_def waiting_claimed)

lemma stamp_inv:
  assumes "queue_inv q" "i \<in> set (q_processing q)"
  shows "queue_inv (spec_update i [(''status'', ''running''), (''claimed_at'', c)] q)"
proof -
  obtain h t where "q_jobs q i = Some (h, t)"
    using assms by (auto simp: queue_inv_def claimed_ok_def)
  moreover have "i \<notin> set (q_queued q)" using assms by (auto simp: queue_inv_def)
  ultimately show ?thesis using assms
    by (auto simp: queue_inv_def spec_update_def listed_def claimed_ok_def)
qed

lemma finish_inv:
  assumes "queue_inv q" "i \<in> set (q_processing q)" "status \<in> {''succeeded'', ''failed''}"
  shows "queue_inv (spec_finish ttl i (finish_fields fr status result error) q)"
proof -
  have "i \<notin> set (q_queued q)" "distinct (q_processing q)" using assms by (auto simp: queue_inv_def)
  moreover have "map_upd_list h (finish_fields fr status result error) ''status'' = Some status" for h
    by (auto simp: finish_fields_def split: option.splits)
  ultimately show ?thesis using assms
    by (auto simp: queue_inv_def spec_finish_def listed_def terminal_status_def)
qed

lemma age_fields:
  "q_jobs (spec_age d q) i = Some (h, t) \<Longrightarrow> \<exists>t'. q_jobs q i = Some (h, t')"
  by (auto simp: spec_age_def split: option.splits if_splits)

lemma age_lists [simp]:
  "q_queued (spec_age d q) = q_queued q" "q_processing (spec_age d q) = q_processing q"
  "listed (spec_age d q) i = listed q i"
  by (simp_all add: spec_age_def listed_def)

lemma age_inv:
  assumes "queue_inv q" and alive: "\<forall>i. listed q i \<longrightarrow> q_jobs (spec_age d q) i \<noteq> None"
  shows "queue_inv (spec_age d q)"
proof -
  have keep: "\<exists>h t t'. q_jobs (spec_age d q) i = Some (h, t) \<and> q_jobs q i = Some (h, t')" if "listed q i" for i
    using alive that age_fields [of d q i] by (cases "q_jobs (spec_age d q) i") auto
  have "waiting_ok (q_jobs (spec_age d q) i)" if "i \<in> set (q_queued q)" for i
    using keep [of i] that assms(1) by (fastforce simp: queue_inv_def waiting_ok_def listed_def)
  moreover have "claimed_ok (q_jobs (spec_age d q) i)" if "i \<in> set (q_processing q)" for i
    using keep [of i] that assms(1) by (fastforce simp: queue_inv_def claimed_ok_def listed_def)
  ultimately show ?thesis
    using assms(1) age_fields [of d q] by (fastforce simp: queue_inv_def)
qed

lemma not_dead: "claimed_ok (q_jobs q i) \<Longrightarrow> \<not> dead_entry q i"
  by (auto simp: claimed_ok_def dead_entry_def terminal_status_def)

lemma swept_job_requeued:
  "claimed_ok (q_jobs q i) \<Longrightarrow> stranded F b q i \<Longrightarrow> waiting_ok (swept_job F b n q i)"
  using not_dead [of q i] by (auto simp: swept_job_def waiting_ok_def claimed_ok_def)

lemma swept_job_kept:
  "claimed_ok (q_jobs q i) \<Longrightarrow> \<not> stranded F b q i \<Longrightarrow> claimed_ok (swept_job F b n q i)"
  using not_dead [of q i] by (auto simp: swept_job_def claimed_ok_def)

lemma sweep_inv:
  assumes "queue_inv q"
  shows "queue_inv (swept F b n [] (q_processing q) q)"
proof -
  let ?q = "swept F b n [] (q_processing q) q"
  have ok: "claimed_ok (q_jobs q i)" if "i \<in> set (q_processing q)" for i
    using assms that by (auto simp: queue_inv_def)
  have p: "q_processing ?q = filter (\<lambda>i. \<not> stranded F b q i) (q_processing q)"
    using not_dead [OF ok] by (auto simp: swept_def intro!: filter_cong)
  have q: "q_queued ?q = q_queued q @ filter (stranded F b q) (q_processing q)"
    and j: "q_jobs ?q i = (if i \<in> set (q_processing q) then swept_job F b n q i else q_jobs q i)" for i
    by (simp_all add: swept_def)
  have l: "listed ?q i = listed q i" for i by (auto simp: listed_def p q)
  have d: "distinct (q_queued ?q @ q_processing ?q)"
    using assms by (auto simp: queue_inv_def p q)
  have w: "waiting_ok (q_jobs ?q i)" if "i \<in> set (q_queued ?q)" for i
    using that assms swept_job_requeued [OF ok] by (auto simp: queue_inv_def q j)
  have c: "claimed_ok (q_jobs ?q i)" if "i \<in> set (q_processing ?q)" for i
    using that swept_job_kept [OF ok] by (auto simp: p j)
  have t: "terminal_status (h ''status'') \<or> listed q i" if "q_jobs ?q i = Some (h, t)" for i h t
    using that assms by (cases "i \<in> set (q_processing q)") (fastforce simp: queue_inv_def j listed_def)+
  show ?thesis using d w c t by (simp add: queue_inv_def l)
qed

text \<open>The workers' part, as a frame rule: what may change without breaking it.\<close>

lemma worker_inv_frame:
  assumes inv: "worker_inv F \<delta> q now ws" and "now \<le> now'"
    and sub: "\<And>w i t. holds (ws' w) = Some (i, t) \<Longrightarrow> holds (ws w) = Some (i, t)"
    and proc: "\<And>w i t. holds (ws' w) = Some (i, t) \<Longrightarrow> i \<in> set (q_processing q')"
    and stamps: "\<And>w i t c. holds (ws' w) = Some (i, t) \<Longrightarrow> stamp_of q' i = Some c \<Longrightarrow>
      stamp_of q i = Some c \<or> t \<le> claim_time F c + \<delta>"
    and "\<And>w i t. ws' w \<noteq> Rejected i t"
  shows "worker_inv F \<delta> q' now' ws'"
proof -
  have "i \<in> set (q_processing q') \<and> t \<le> now' \<and> (\<forall>c. stamp_of q' i = Some c \<longrightarrow> t \<le> claim_time F c + \<delta>)"
    if h: "holds (ws' w) = Some (i, t)" for w i t
  proof -
    have "t \<le> now" "\<And>c. stamp_of q i = Some c \<Longrightarrow> t \<le> claim_time F c + \<delta>"
      using inv sub [OF h] by (auto simp: worker_inv_def)
    then show ?thesis using proc [OF h] stamps [OF h] \<open>now \<le> now'\<close> by force
  qed
  moreover have "w = w'" if "holds (ws' w) = Some (i, t)" "holds (ws' w') = Some (i, t')" for w w' i t t'
    using inv sub [OF that(1)] sub [OF that(2)] unfolding worker_inv_def by blast
  ultimately show ?thesis using assms(6) unfolding worker_inv_def by blast
qed

lemma worker_inv_idle: "worker_inv F \<delta> q now ws \<Longrightarrow> worker_inv F \<delta> q now (ws(w := Idle))"
  by (rule worker_inv_frame [where q = q and ws = ws and now = now])
    (auto simp: worker_inv_def split: if_splits)

text \<open>A worker that holds nothing is idle as far as the invariant goes.\<close>

abbreviation released :: "worker_pc \<Rightarrow> bool" where
  "released pc \<equiv> pc = Idle \<or> (\<exists>i v post. pc = Settled i v post)"

lemma worker_inv_released:
  assumes "worker_inv F \<delta> q now (ws(w := Idle))" "released pc"
  shows "worker_inv F \<delta> q now (ws(w := pc))"
proof -
  have h: "holds ((ws(w := pc)) v) = holds ((ws(w := Idle)) v)" for v using assms(2) by auto
  have "(ws(w := pc)) v \<noteq> Rejected i t" for v i t
  proof (cases "v = w")
    case True
    then show ?thesis using assms(2) by auto
  next
    case False
    have "(ws(w := Idle)) v \<noteq> Rejected i t" using assms(1) unfolding worker_inv_def by blast
    then show ?thesis using False by simp
  qed
  then show ?thesis using assms(1) unfolding worker_inv_def h by blast
qed

section \<open>Every step keeps the invariant\<close>

definition sys_inv :: "('s \<Rightarrow> keyspace) \<Rightarrow> float_text \<Rightarrow> rat \<Rightarrow> 's sys \<Rightarrow> bool" where
  "sys_inv view F \<delta> \<sigma> \<longleftrightarrow> well_typed (view (store \<sigma>)) \<and> queue_inv (qabs (view (store \<sigma>))) \<and>
     worker_inv F \<delta> (qabs (view (store \<sigma>))) (clock \<sigma>) (workers \<sigma>) \<and>
     (\<forall>k n. sweeps \<sigma> k = Evaluating n \<longrightarrow> n \<le> clock \<sigma>)"

text \<open>What a claim that may be settled again wrote: the record has its fields already.\<close>

definition settlement ::
  "(string \<Rightarrow> string) \<Rightarrow> (string \<Rightarrow> json \<Rightarrow> http_outcome) \<Rightarrow> json \<Rightarrow> (string \<times> string) list option" where
  "settlement fr post v =
     (case runtime_call post v of
        Inr result \<Rightarrow> Some (finish_fields fr ''succeeded'' (not_null result) None)
      | Inl e \<Rightarrow> if caught e then Some (finish_fields fr ''failed'' None (Some failure_message)) else None)"

definition settled_inv :: "(string \<Rightarrow> string) \<Rightarrow> qstate \<Rightarrow> (nat \<Rightarrow> worker_pc) \<Rightarrow> bool" where
  "settled_inv fr q ws \<longleftrightarrow>
     (\<forall>w i v post fvs. ws w = Settled i v post \<longrightarrow> settlement fr post v = Some fvs \<longrightarrow>
        (\<exists>h ttl. q_jobs q i = Some (h, ttl) \<and> terminal_status (h ''status'') \<and> map_upd_list h fvs = h))"

lemma settlement_terminal:
  assumes "settlement fr post v = Some fvs"
  shows "terminal_status (map_upd_list h fvs ''status'')"
  using assms
  by (auto simp: settlement_def finish_fields_def terminal_status_def not_null_def
      split: sum.splits if_splits)

text \<open>Settling a record again changes no field and no list.\<close>

lemma settle_again:
  assumes "queue_inv q" "q_jobs q i = Some (h, ttl)" "terminal_status (h ''status'')" "map_upd_list h fvs = h"
  shows "spec_finish ttl' i fvs q = q\<lparr>q_jobs := (q_jobs q)(i \<mapsto> (h, Some (of_int ttl')))\<rparr>"
    and "queue_inv (q\<lparr>q_jobs := (q_jobs q)(i \<mapsto> (h, Some (of_int ttl')))\<rparr>)"
    and "stamp_of (q\<lparr>q_jobs := (q_jobs q)(i \<mapsto> (h, Some (of_int ttl')))\<rparr>) = stamp_of q"
proof -
  have n: "\<not> listed q i" using queue_inv_listed [OF assms(1), of i] assms(2,3) claimed_not_terminal by fastforce
  then show "spec_finish ttl' i fvs q = q\<lparr>q_jobs := (q_jobs q)(i \<mapsto> (h, Some (of_int ttl')))\<rparr>"
    by (simp add: spec_finish_def assms(2,4) listed_def remove1_idem)
  show "queue_inv (q\<lparr>q_jobs := (q_jobs q)(i \<mapsto> (h, Some (of_int ttl')))\<rparr>)"
    using assms(1,3) n by (auto simp: queue_inv_def listed_def)
  show "stamp_of (q\<lparr>q_jobs := (q_jobs q)(i \<mapsto> (h, Some (of_int ttl')))\<rparr>) = stamp_of q"
    by (simp add: stamp_of_def assms(2) fun_eq_iff)
qed

lemma worker_inv_processing:
  "worker_inv F \<delta> q now ws \<Longrightarrow> holds (ws w) = Some (i, t) \<Longrightarrow> i \<in> set (q_processing q)"
  by (auto simp: worker_inv_def)

lemma worker_inv_exclusive:
  "worker_inv F \<delta> q now ws \<Longrightarrow> holds (ws w) = Some (i, t) \<Longrightarrow> holds (ws w') = Some (i, t') \<Longrightarrow> w = w'"
  unfolding worker_inv_def by blast

lemma worker_inv_others:
  "worker_inv F \<delta> q now ws \<Longrightarrow> holds (ws w) = Some (i, t) \<Longrightarrow> holds ((ws(w := Idle)) w') = Some (j, t') \<Longrightarrow>
     holds (ws w') = Some (j, t') \<and> j \<noteq> i"
  using worker_inv_exclusive [of F \<delta> q now ws w i t w' t'] by (auto split: if_splits)

lemma enqueue_worker_inv:
  assumes "queue_inv q" "worker_inv F \<delta> q now ws"
  shows "worker_inv F \<delta> (snd (spec_enqueue cap ttl i p q)) now ws"
proof (cases "q_jobs q i")
  case None
  then have n: "i \<notin> set (q_processing q)"
    using assms(1) by (auto simp: queue_inv_def claimed_ok_def)
  show ?thesis
    by (rule worker_inv_frame [OF assms(2)])
      (use n worker_inv_processing [OF assms(2)] assms(2) None
        in \<open>auto simp: spec_enqueue_def stamp_of_def worker_inv_def split: if_splits\<close>)
qed (use assms(2) in \<open>simp add: spec_enqueue_def split: prod.split\<close>)

lemma pop_worker_inv:
  assumes "queue_inv q" "worker_inv F \<delta> q now ws" "q_queued q = i # rest"
  shows "worker_inv F \<delta> (snd (spec_pop q)) now (ws(w := Popped i now))"
proof -
  have i: "i \<notin> set (q_processing q)" "stamp_of q i = None"
    using assms(1,3) by (auto simp: queue_inv_def waiting_ok_def stamp_of_def)
  have s: "stamp_of (snd (spec_pop q)) j = stamp_of q j" for j by (simp add: stamp_of_def spec_pop_keeps)
  have p: "q_processing (snd (spec_pop q)) = q_processing q @ [i]" by (simp add: spec_pop_def assms(3))
  have u: "holds (ws v) = Some (j, t) \<Longrightarrow> j \<noteq> i" for v j t
    using worker_inv_processing [OF assms(2)] i(1) by blast
  show ?thesis
    using assms(2) i(2) u worker_inv_exclusive [OF assms(2)]
    by (auto simp: worker_inv_def s p)
qed

lemma pop_lost_worker_inv: "worker_inv F \<delta> q now ws \<Longrightarrow> worker_inv F \<delta> (snd (spec_pop q)) now ws"
  by (rule worker_inv_frame)
    (auto simp: worker_inv_def stamp_of_def spec_pop_keeps, auto simp: spec_pop_def split: list.splits)

lemma stamp_worker_inv:
  assumes "float_codec F" "worker_inv F \<delta> q now ws" "holds (ws w) = Some (i, t)"
    and "holds pc = None \<or> holds pc = Some (i, t)" "\<And>i t. pc \<noteq> Rejected i t" and "t \<le> n" "0 \<le> \<delta>"
  shows "worker_inv F \<delta> (spec_update i [(''status'', ''running''), (''claimed_at'', py_repr F n)] q)
    now (ws(w := pc))"
proof (rule worker_inv_frame [OF assms(2) order_refl])
  fix v j t' c
  assume h: "holds ((ws(w := pc)) v) = Some (j, t')"
    and "stamp_of (spec_update i [(''status'', ''running''), (''claimed_at'', py_repr F n)] q) j = Some c"
  moreover have "t' = t" if "j = i"
    using that h assms(3,4) worker_inv_exclusive [OF assms(2,3), of v t'] by (auto split: if_splits)
  ultimately show "stamp_of q j = Some c \<or> t' \<le> claim_time F c + \<delta>"
    using float_codec.tonumber_repr [OF assms(1)] assms(6,7)
    by (auto simp: stamp_of_def spec_update_def claim_time_def split: if_splits option.splits)
qed (use assms worker_inv_processing [OF assms(2)] in
    \<open>auto simp: worker_inv_def spec_update_def split: if_splits\<close>)

lemma finish_worker_inv:
  assumes "queue_inv q" "worker_inv F \<delta> q now ws" "holds (ws w) = Some (i, t)"
  shows "worker_inv F \<delta> (spec_finish ttl i fvs q) now (ws(w := Idle))"
proof (rule worker_inv_frame [OF assms(2) order_refl])
  fix v j t'
  assume h: "holds ((ws(w := Idle)) v) = Some (j, t')"
  note o = worker_inv_others [OF assms(2,3) h]
  then show "holds (ws v) = Some (j, t')" ..
  show "j \<in> set (q_processing (spec_finish ttl i fvs q))"
    using o worker_inv_processing [OF assms(2)] by (simp add: spec_finish_def) blast
  fix c
  assume "stamp_of (spec_finish ttl i fvs q) j = Some c"
  then show "stamp_of q j = Some c \<or> t' \<le> claim_time F c + \<delta>"
    using o by (simp add: stamp_of_def spec_finish_def)
qed (use assms(2) in \<open>auto simp: worker_inv_def split: if_splits\<close>)

lemma sweep_worker_inv:
  assumes "float_codec F" "queue_inv q" "worker_inv F \<delta> q now ws" and late: "n \<le> now" "now \<le> n + \<delta>"
    and young: "\<And>w i t. holds (ws w) = Some (i, t) \<Longrightarrow> now + \<delta> < t + lease"
  shows "worker_inv F \<delta> (swept F (n - lease) (py_repr F n) [] (q_processing q) q) now ws"
proof (rule worker_inv_frame [OF assms(3) order_refl])
  fix w i t
  assume h: "holds (ws w) = Some (i, t)"
  have i: "i \<in> set (q_processing q)" using worker_inv_processing [OF assms(3) h] .
  have nd: "\<not> dead_entry q i" using assms(2) i by (intro not_dead) (auto simp: queue_inv_def)
  have t: "t \<le> now" "\<And>c. stamp_of q i = Some c \<Longrightarrow> t \<le> claim_time F c + \<delta>"
    using assms(3) h by (auto simp: worker_inv_def)
  then have ns: "\<not> stranded F (n - lease) q i"
    using young [OF h] late by (force simp: stranded_def split: option.splits)
  show "i \<in> set (q_processing (swept F (n - lease) (py_repr F n) [] (q_processing q) q))"
    using i nd ns by (simp add: swept_def)
  fix c
  assume "stamp_of (swept F (n - lease) (py_repr F n) [] (q_processing q) q) i = Some c"
  then show "stamp_of q i = Some c \<or> t \<le> claim_time F c + \<delta>"
    using i nd ns t(1) late float_codec.tonumber_repr [OF assms(1)]
    by (auto simp: swept_def swept_job_def stamp_of_def claim_time_def split: option.splits if_splits)
qed (use assms(3) in \<open>auto simp: worker_inv_def\<close>)

lemma age_worker_inv:
  assumes "worker_inv F \<delta> q now ws" "0 \<le> d"
  shows "worker_inv F \<delta> (spec_age d q) (now + d) ws"
proof (rule worker_inv_frame [OF assms(1)])
  fix w i t c
  assume "stamp_of (spec_age d q) i = Some c"
  then show "stamp_of q i = Some c \<or> t \<le> claim_time F c + \<delta>"
    by (auto simp: stamp_of_def dest: age_fields split: option.splits)
qed (use assms in \<open>auto simp: worker_inv_def\<close>)

lemma young_claims:
  "timely view Q \<delta> \<sigma> \<Longrightarrow> holds (workers \<sigma> w) = Some (i, t) \<Longrightarrow>
     clock \<sigma> + \<delta> < t + of_int (iq_recovery_lock_seconds Q)"
  by (auto simp: timely_def)

context redis_server
begin

lemma recover_sweep_state:
  assumes "well_typed (view s)" "float_codec F"
  shows "well_typed (view (snd (recover_sweep R F lease n s)))"
    and "qabs (view (snd (recover_sweep R F lease n s))) =
      snd (spec_recover F (n - of_int lease) (py_repr F n) (qabs (view s)))"
  using recover_sweep_refines [OF assms, of lease n] by (simp_all add: case_prod_beta prod_eq_iff del: qabs_sel)

lemma submit_step_inv:
  assumes "0 < iq_job_ttl_seconds Q" "sys_inv view F \<delta> \<sigma>"
  shows "sys_inv view F \<delta> (\<sigma>\<lparr>store := snd (enqueue R fr Q l i payload (store \<sigma>))\<rparr>)"
  using enqueue_refines(1,4) [OF _ assms(1), of "store \<sigma>" fr] assms(2)
  by (auto simp: sys_inv_def enqueue_inv enqueue_worker_inv simp del: qabs_sel)

lemma pop_step_inv:
  assumes "sys_inv view F \<delta> \<sigma>" "fst (claim_pop R (store \<sigma>)) = Some i"
  shows "sys_inv view F \<delta> (move w (Popped i (clock \<sigma>)) (\<sigma>\<lparr>store := snd (claim_pop R (store \<sigma>))\<rparr>))"
proof -
  have wt: "well_typed (view (store \<sigma>))" using assms(1) by (simp add: sys_inv_def)
  note p = claim_pop_refines [OF wt]
  then obtain rest where "q_queued (qabs (view (store \<sigma>))) = i # rest"
    using assms(2) by (auto simp: spec_pop_def simp del: qabs_sel split: list.splits)
  moreover have "qabs (view (snd (claim_pop R (store \<sigma>)))) = snd (spec_pop (qabs (view (store \<sigma>))))"
    using p(2) by (metis snd_conv)
  ultimately show ?thesis
    using assms(1) p(1) by (auto simp: sys_inv_def pop_inv pop_worker_inv simp del: qabs_sel)
qed

lemma pop_lost_step_inv:
  assumes "sys_inv view F \<delta> \<sigma>"
  shows "sys_inv view F \<delta> (\<sigma>\<lparr>store := snd (claim_pop R (store \<sigma>))\<rparr>)"
proof -
  have wt: "well_typed (view (store \<sigma>))" using assms(1) by (simp add: sys_inv_def)
  have "qabs (view (snd (claim_pop R (store \<sigma>)))) = snd (spec_pop (qabs (view (store \<sigma>))))"
    using claim_pop_refines(2) [OF wt] by (metis snd_conv)
  then show ?thesis
    using assms(1) claim_pop_refines(1) [OF wt]
    by (auto simp: sys_inv_def pop_inv pop_lost_worker_inv simp del: qabs_sel)
qed

lemma held_not_rejected:
  assumes "sys_inv view F \<delta> \<sigma>" "holds (workers \<sigma> w) = Some (i, t)"
  shows "\<not> rejected_claim (fst (claim_read R i (store \<sigma>)))"
proof -
  have wt: "well_typed (view (store \<sigma>))" and "i \<in> set (q_processing (qabs (view (store \<sigma>))))"
    using assms worker_inv_processing by (auto simp: sys_inv_def simp del: qabs_sel)
  then have "claimed_ok (q_jobs (qabs (view (store \<sigma>))) i)"
    using assms(1) by (auto simp: sys_inv_def queue_inv_def simp del: qabs_sel)
  then show ?thesis
    using rejected_claim_iff [OF wt, of i] claimed_not_terminal
    by (fastforce simp: claim_read_def simp del: qabs_sel)
qed

lemma read_step_inv:
  assumes "sys_inv view F \<delta> \<sigma>" "workers \<sigma> w = Popped i t" "job = fst (claim_read R i (store \<sigma>))"
  shows "sys_inv view F \<delta> (move w (if rejected_claim job then Rejected i t else Checked i t job) \<sigma>)"
proof -
  have "\<not> rejected_claim job" using held_not_rejected [OF assms(1), of w i t] assms(2,3) by simp
  moreover have "worker_inv F \<delta> (qabs (view (store \<sigma>))) (clock \<sigma>) ((workers \<sigma>)(w := Checked i t job))"
  proof (rule worker_inv_frame [OF _ order_refl])
    show inv: "worker_inv F \<delta> (qabs (view (store \<sigma>))) (clock \<sigma>) (workers \<sigma>)"
      using assms(1) by (simp add: sys_inv_def del: qabs_sel)
    fix v j t'
    assume h: "holds (((workers \<sigma>)(w := Checked i t job)) v) = Some (j, t')"
    then show *: "holds (workers \<sigma> v) = Some (j, t')" using assms(2) by (auto split: if_splits)
    then show "j \<in> set (q_processing (qabs (view (store \<sigma>))))"
      using worker_inv_processing [OF inv] by blast
  qed (use assms(1) in \<open>auto simp: sys_inv_def worker_inv_def simp del: qabs_sel split: if_splits\<close>)
  ultimately show ?thesis using assms(1) by (simp add: sys_inv_def del: qabs_sel)
qed

lemma stamp_step_inv:
  assumes "float_codec F" "sys_inv view F \<delta> \<sigma>" "workers \<sigma> w = Checked i t job" "t \<le> n" "0 \<le> \<delta>"
    and pc: "holds pc = None \<or> holds pc = Some (i, t)" "\<And>i t. pc \<noteq> Rejected i t"
  shows "sys_inv view F \<delta> (move w pc (\<sigma>\<lparr>store := snd (claim_stamp R F i n (store \<sigma>))\<rparr>))"
proof -
  have wt: "well_typed (view (store \<sigma>))" using assms(2) by (simp add: sys_inv_def)
  have h: "holds (workers \<sigma> w) = Some (i, t)" using assms(3) by simp
  have inv: "worker_inv F \<delta> (qabs (view (store \<sigma>))) (clock \<sigma>) (workers \<sigma>)"
    and qi: "queue_inv (qabs (view (store \<sigma>)))"
    using assms(2) by (simp_all add: sys_inv_def del: qabs_sel)
  show ?thesis
    using stamp_refines [OF wt, of F i n] stamp_worker_inv [OF assms(1) inv h pc assms(4,5)]
      stamp_inv [OF qi worker_inv_processing [OF inv h]] assms(2)
    by (simp add: sys_inv_def del: qabs_sel)
qed

lemma finish_step_inv:
  assumes "0 < iq_job_ttl_seconds Q" "sys_inv view F \<delta> \<sigma>" "holds (workers \<sigma> w) = Some (i, t)"
    and "status \<in> {''succeeded'', ''failed''}" and pc: "released pc"
  shows "sys_inv view F \<delta> (move w pc (\<sigma>\<lparr>store := snd (finish R fr Q l i status result error (store \<sigma>))\<rparr>))"
proof -
  have wt: "well_typed (view (store \<sigma>))" and qi: "queue_inv (qabs (view (store \<sigma>)))"
    and inv: "worker_inv F \<delta> (qabs (view (store \<sigma>))) (clock \<sigma>) (workers \<sigma>)"
    using assms(2) by (simp_all add: sys_inv_def del: qabs_sel)
  note f = finish_refines(1,3) [OF wt assms(1), where fr = fr and l = l and i = i and status = status
      and result = result and error = error]
  show ?thesis
    using f finish_inv [OF qi worker_inv_processing [OF inv assms(3)] assms(4), where fr = fr]
      worker_inv_released [OF finish_worker_inv [OF qi inv assms(3)] pc]
      worker_inv_released [OF worker_inv_idle [OF inv] pc] qi assms(2)
    by (simp add: sys_inv_def del: qabs_sel)
qed

lemma idle_step_inv: "sys_inv view F \<delta> \<sigma> \<Longrightarrow> released pc \<Longrightarrow> sys_inv view F \<delta> (move w pc \<sigma>)"
  using worker_inv_released [OF worker_inv_idle] by (simp add: sys_inv_def del: qabs_sel)

lemma work_step_inv:
  assumes "0 < iq_job_ttl_seconds Q" "sys_inv view F \<delta> \<sigma>" "workers \<sigma> w = Running i t v" and pc: "released pc"
  shows "sys_inv view F \<delta> (move w pc (\<sigma>\<lparr>store := snd (process_job R fr Q l post
      \<lparr>cj_job_id = i, cj_payload = v\<rparr> (store \<sigma>))\<rparr>))"
  using process_job_cases [of R fr Q l post "\<lparr>cj_job_id = i, cj_payload = v\<rparr>" "store \<sigma>"]
    idle_step_inv [OF assms(2) pc, of w] finish_step_inv [OF assms(1,2) _ _ pc, of w i t, where fr = fr] assms(3)
  by (auto simp del: qabs_sel)

lemma process_job_settlement:
  assumes "well_typed (view s)" "0 < iq_job_ttl_seconds Q"
  shows "qabs (view (snd (process_job R fr Q ReplyLost post \<lparr>cj_job_id = i, cj_payload = v\<rparr> s))) =
    (case settlement fr post v of
       None \<Rightarrow> qabs (view s)
     | Some fvs \<Rightarrow> spec_finish (iq_job_ttl_seconds Q) i fvs (qabs (view s)))"
    and "well_typed (view (snd (process_job R fr Q l post \<lparr>cj_job_id = i, cj_payload = v\<rparr> s)))"
  using finish_refines(1,3) [OF assms, where fr = fr] assms(1)
  by (simp_all add: process_job_def settlement_def lift_finish_def del: qabs_sel split: sum.split)

lemma resend_step_inv:
  assumes "0 < iq_job_ttl_seconds Q" "sys_inv view F \<delta> \<sigma>" "workers \<sigma> w = Settled i v post"
    and "settled_inv fr (qabs (view (store \<sigma>))) (workers \<sigma>)"
  shows "sys_inv view F \<delta> (\<sigma>\<lparr>store := snd (process_job R fr Q ReplyLost post
      \<lparr>cj_job_id = i, cj_payload = v\<rparr> (store \<sigma>))\<rparr>)"
proof -
  let ?q = "qabs (view (store \<sigma>))"
  have wt: "well_typed (view (store \<sigma>))" and qi: "queue_inv ?q"
    and inv: "worker_inv F \<delta> ?q (clock \<sigma>) (workers \<sigma>)"
    using assms(2) by (simp_all add: sys_inv_def del: qabs_sel)
  note p = process_job_settlement [OF wt assms(1), where fr = fr and post = post and i = i and v = v]
  show ?thesis
  proof (cases "settlement fr post v")
    case None
    then show ?thesis using p assms(2) by (simp add: sys_inv_def del: qabs_sel)
  next
    case (Some fvs)
    then obtain h ttl where "q_jobs ?q i = Some (h, ttl)" "terminal_status (h ''status'')" "map_upd_list h fvs = h"
      using assms(3,4) unfolding settled_inv_def by blast
    note a = settle_again [OF qi this]
    have "worker_inv F \<delta> (?q\<lparr>q_jobs := (q_jobs ?q)(i \<mapsto> (h, Some (of_int (iq_job_ttl_seconds Q))))\<rparr>)
        (clock \<sigma>) (workers \<sigma>)"
      using inv a(3) by (simp add: worker_inv_def del: qabs_sel)
    then show ?thesis using p Some a(1,2) assms(2) by (simp add: sys_inv_def del: qabs_sel)
  qed
qed

lemma lock_step_inv:
  assumes "0 < iq_recovery_lock_seconds Q" "sys_inv view F \<delta> \<sigma>"
  shows "sys_inv view F \<delta>
      (\<sigma>\<lparr>store := snd (r_set_nx_ex R RECOVERY_LOCK_KEY ''1'' (iq_recovery_lock_seconds Q) (store \<sigma>)),
         sweeps := (sweeps \<sigma>)(k := if b then Locked else NoSweep)\<rparr>)"
  using lock_refines(1,2) [OF _ assms(1), of "store \<sigma>"] assms(2) by (simp add: sys_inv_def del: qabs_sel)

lemma sweep_step_inv:
  assumes "float_codec F" "sys_inv view F \<delta> \<sigma>" "timely view Q \<delta> \<sigma>" "sweeps \<sigma> k = Evaluating n"
    and "p \<in> {NoSweep, Evaluating n}"
  shows "sys_inv view F \<delta> (\<sigma>\<lparr>store := snd (recover_sweep R F (iq_recovery_lock_seconds Q) n (store \<sigma>)),
    sweeps := (sweeps \<sigma>)(k := p)\<rparr>)"
proof -
  let ?q = "qabs (view (store \<sigma>))"
  have wt: "well_typed (view (store \<sigma>))" and qi: "queue_inv ?q"
    and inv: "worker_inv F \<delta> ?q (clock \<sigma>) (workers \<sigma>)" and n: "n \<le> clock \<sigma>"
    using assms(2,4) by (simp_all add: sys_inv_def del: qabs_sel)
  have "clock \<sigma> \<le> n + \<delta>" using assms(3,4) by (simp add: timely_def del: qabs_sel)
  note w = sweep_worker_inv [OF assms(1) qi inv n this young_claims [OF assms(3)]]
  have "distinct (q_processing ?q)" using qi by (simp add: queue_inv_def del: qabs_sel)
  then show ?thesis
    using recover_sweep_state [OF wt assms(1), of "iq_recovery_lock_seconds Q" n] sweep_inv [OF qi] w assms(2,5) n
    by (auto simp: sys_inv_def spec_recover_closed simp del: qabs_sel)
qed

lemma pass_step_inv:
  assumes "0 \<le> d" "sys_inv view F \<delta> \<sigma>"
    and "timely view Q \<delta> (\<sigma>\<lparr>store := r_tick R d (store \<sigma>), clock := clock \<sigma> + d\<rparr>)"
  shows "sys_inv view F \<delta> (\<sigma>\<lparr>store := r_tick R d (store \<sigma>), clock := clock \<sigma> + d\<rparr>)"
proof -
  have wt: "well_typed (view (store \<sigma>))" using assms(2) by (simp add: sys_inv_def)
  have q: "qabs (view (r_tick R d (store \<sigma>))) = spec_age d (qabs (view (store \<sigma>)))"
    using qabs_age [OF wt] tick_law [OF assms(1)] by simp
  then have "\<forall>i. listed (qabs (view (store \<sigma>))) i \<longrightarrow>
      q_jobs (spec_age d (qabs (view (store \<sigma>)))) i \<noteq> None"
    using assms(3) by (simp add: timely_def records_live_def del: qabs_sel)
  moreover have "\<forall>k n. sweeps \<sigma> k = Evaluating n \<longrightarrow> n \<le> clock \<sigma> + d"
    using assms(1,2) unfolding sys_inv_def by (meson add_increasing2)
  ultimately show ?thesis
    using q assms(2) age_inv age_worker_inv [OF _ assms(1)] well_typed_age [OF wt] tick_law [OF assms(1)]
    by (simp add: sys_inv_def del: qabs_sel)
qed

lemma step_inv:
  assumes "float_codec F" "0 < iq_job_ttl_seconds Q" "0 < iq_recovery_lock_seconds Q"
    and "sys_step R F fr Q \<sigma> \<sigma>'" "sys_inv view F \<delta> \<sigma>" "timely view Q \<delta> \<sigma>" "timely view Q \<delta> \<sigma>'" "0 \<le> \<delta>"
    and "settled_inv fr (qabs (view (store \<sigma>))) (workers \<sigma>)"
  shows "sys_inv view F \<delta> \<sigma>'"
  using assms(4)
proof cases
  case submit then show ?thesis using submit_step_inv [OF assms(2,5)] by simp
next
  case pop then show ?thesis using pop_step_inv [OF assms(5)] by simp
next
  case pop_reply_lost then show ?thesis using pop_lost_step_inv [OF assms(5)] by simp
next
  case read then show ?thesis using read_step_inv [OF assms(5)] by blast
next
  case (discard w i t)
  then show ?thesis using assms(5) by (auto simp: sys_inv_def worker_inv_def simp del: qabs_sel)
next
  case (discard_reply_lost w i t)
  then show ?thesis using assms(5) by (auto simp: sys_inv_def worker_inv_def simp del: qabs_sel)
next
  case (stamp w i t job now)
  then show ?thesis using stamp_step_inv [OF assms(1,5) _ _ assms(8)] by (simp split: option.split)
next
  case (stamp_reply_lost w i t job now)
  show ?thesis
    using stamp_step_inv [OF assms(1,5) _ _ assms(8), of w i t job now "Checked i t job"]
      fun_upd_idem [of "workers \<sigma>" w, OF stamp_reply_lost(2)] stamp_reply_lost by simp
next
  case work then show ?thesis using work_step_inv [OF assms(2,5)] by blast
next
  case work_reply_lost then show ?thesis using work_step_inv [OF assms(2,5)] by blast
next
  case resend then show ?thesis using resend_step_inv [OF assms(2,5) _ assms(9)] by blast
next
  case crash then show ?thesis using idle_step_inv [OF assms(5)] by simp
next
  case (lock k) then show ?thesis using lock_step_inv [OF assms(3,5)] by simp
next
  case (take_time k) then show ?thesis using assms(5) by (simp add: sys_inv_def del: qabs_sel)
next
  case (sweep k now) then show ?thesis using sweep_step_inv [OF assms(1,5,6)] by simp
next
  case (sweep_reply_lost k now)
  show ?thesis
    using sweep_step_inv [OF assms(1,5,6), of k now "Evaluating now"]
      fun_upd_idem [of "sweeps \<sigma>" k, OF sweep_reply_lost(2)] sweep_reply_lost by simp
next
  case (sweep_fails k) then show ?thesis using assms(5) by (simp add: sys_inv_def del: qabs_sel)
next
  case (pass d) then show ?thesis using pass_step_inv [of d F \<delta> \<sigma> Q] assms(5,7) by simp
qed

lemma pop_jobs:
  assumes "well_typed (view s)"
  shows "q_jobs (qabs (view (snd (claim_pop R s)))) = q_jobs (qabs (view s))"
  using claim_pop_refines(2) [OF assms] spec_pop_keeps(1) [of "qabs (view s)"] by (metis snd_conv)

lemma step_keeps_terminal:
  assumes "float_codec F" "0 < iq_job_ttl_seconds Q" "0 < iq_recovery_lock_seconds Q"
    and "sys_step R F fr Q \<sigma> \<sigma>'" "sys_inv view F \<delta> \<sigma>"
    and "settled_inv fr (qabs (view (store \<sigma>))) (workers \<sigma>)"
    and "q_jobs (qabs (view (store \<sigma>))) i = Some (h, ttl)" "terminal_status (h ''status'')"
  shows "q_jobs (qabs (view (store \<sigma>'))) i = None \<or>
    (\<exists>ttl'. q_jobs (qabs (view (store \<sigma>'))) i = Some (h, ttl'))"
proof -
  let ?q = "qabs (view (store \<sigma>))"
  have wt: "well_typed (view (store \<sigma>))" and qi: "queue_inv ?q"
    and inv: "worker_inv F \<delta> ?q (clock \<sigma>) (workers \<sigma>)"
    using assms(5) by (simp_all add: sys_inv_def del: qabs_sel)
  have np: "i \<notin> set (q_processing ?q)"
    using qi assms(7,8) claimed_not_terminal by (fastforce simp: queue_inv_def simp del: qabs_sel)
  then have held: "j \<noteq> i" if "holds (workers \<sigma> w) = Some (j, t)" for w j t
    using worker_inv_processing [OF inv that] by auto
  have d: "distinct (q_processing ?q)" using qi by (simp add: queue_inv_def del: qabs_sel)
  show ?thesis using assms(4)
  proof cases
    case (submit l j payload)
    then show ?thesis
      using enqueue_refines(4) [OF wt assms(2), where fr = fr and l = l and i = j and payload = payload] assms(7)
      by (auto simp: spec_enqueue_def simp del: qabs_sel split: option.splits)
  next
    case pop
    then show ?thesis using pop_jobs [OF wt] assms(7) by (simp del: qabs_sel)
  next
    case pop_reply_lost
    then show ?thesis using pop_jobs [OF wt] assms(7) by (simp del: qabs_sel)
  next
    case (stamp w j t job now)
    then show ?thesis
      using stamp_refines(2) [OF wt, of F j now] held [of w j t] assms(7)
      by (simp add: spec_update_def del: qabs_sel)
  next
    case (work w j t v l post)
    then have "j \<noteq> i" using held [of w j t] by simp
    then have "q_jobs (qabs (view (snd (finish R fr Q l j status result error (store \<sigma>))))) i = q_jobs ?q i"
      for status result error
      using finish_refines(3) [OF wt assms(2), where fr = fr and l = l and i = j and status = status
          and result = result and error = error] by (simp add: spec_finish_def del: qabs_sel)
    then show ?thesis
      using work assms(7)
        process_job_cases [of R fr Q l post "\<lparr>cj_job_id = j, cj_payload = v\<rparr>" "store \<sigma>"]
      by (auto simp del: qabs_sel)
  next
    case (work_reply_lost w j t v post)
    then have "j \<noteq> i" using held [of w j t] by simp
    then show ?thesis
      using process_job_settlement(1) [OF wt assms(2)] work_reply_lost assms(7)
      by (simp add: spec_finish_def del: qabs_sel split: option.split)
  next
    case (resend w j v post)
    note p = process_job_settlement(1) [OF wt assms(2), where fr = fr and post = post and i = j and v = v]
    show ?thesis
    proof (cases "settlement fr post v")
      case None
      then show ?thesis using p resend assms(7) by (simp del: qabs_sel)
    next
      case (Some fvs)
      then obtain h' t where j: "q_jobs ?q j = Some (h', t)" "terminal_status (h' ''status'')" "map_upd_list h' fvs = h'"
        using assms(6) resend(2) unfolding settled_inv_def by blast
      show ?thesis
        using p resend(1) Some settle_again(1) [OF qi j] j(1) assms(7) by (auto simp del: qabs_sel)
    qed
  next
    case (lock k)
    then show ?thesis using lock_refines(2) [OF wt assms(3)] assms(7) by (simp del: qabs_sel)
  next
    case (sweep k now)
    then show ?thesis
      using recover_sweep_state(2) [OF wt assms(1), of "iq_recovery_lock_seconds Q" now] np assms(7)
      by (simp add: spec_recover_closed [OF d] swept_def del: qabs_sel)
  next
    case (sweep_reply_lost k now)
    then show ?thesis
      using recover_sweep_state(2) [OF wt assms(1), of "iq_recovery_lock_seconds Q" now] np assms(7)
      by (simp add: spec_recover_closed [OF d] swept_def del: qabs_sel)
  next
    case (stamp_reply_lost w j t job now)
    then show ?thesis
      using stamp_refines(2) [OF wt, of F j now] held [of w j t] assms(7)
      by (simp add: spec_update_def del: qabs_sel)
  next
    case (pass d)
    then show ?thesis
      using qabs_age [OF wt, of d] tick_law [of d "store \<sigma>"] assms(7)
      by (auto simp: spec_age_def simp del: qabs_sel split: option.splits)
  next
    case (discard w j t)
    then show ?thesis using inv by (auto simp: worker_inv_def)
  next
    case (discard_reply_lost w j t)
    then show ?thesis using inv by (auto simp: worker_inv_def)
  qed (use assms(7) in \<open>simp_all del: qabs_sel\<close>)
qed

lemma fresh_inv: "fresh view \<sigma> \<Longrightarrow> sys_inv view F \<delta> \<sigma> \<and> timely view Q \<delta> \<sigma> \<and>
    settled_inv fr (qabs (view (store \<sigma>))) (workers \<sigma>)"
  by (simp add: fresh_def sys_inv_def queue_inv_def worker_inv_def settled_inv_def timely_def records_live_def
      listed_def del: qabs_sel)

text \<open>A claim that may be settled again was settled by one step, and terminal records stay as they are.\<close>

lemma step_settles:
  assumes "sys_step R F fr Q \<sigma> \<sigma>'" "workers \<sigma>' w = Settled i v post" "settlement fr post v = Some fvs"
    and "well_typed (view (store \<sigma>))" "0 < iq_job_ttl_seconds Q"
  shows "workers \<sigma> w = Settled i v post \<or>
    qabs (view (store \<sigma>')) = spec_finish (iq_job_ttl_seconds Q) i fvs (qabs (view (store \<sigma>)))"
  using assms(1)
proof cases
  case (work_reply_lost w' j t v' post')
  then show ?thesis
    using assms(2,3) process_job_settlement(1) [OF assms(4,5)] by (auto simp del: qabs_sel split: if_splits)
qed (use assms(2) in \<open>auto simp del: qabs_sel split: if_splits option.splits\<close>)

lemma step_settled:
  assumes "float_codec F" "0 < iq_job_ttl_seconds Q" "0 < iq_recovery_lock_seconds Q"
    and "sys_step R F fr Q \<sigma> \<sigma>'" "sys_inv view F \<delta> \<sigma>" "timely view Q \<delta> \<sigma>'"
    and "settled_inv fr (qabs (view (store \<sigma>))) (workers \<sigma>)"
  shows "settled_inv fr (qabs (view (store \<sigma>'))) (workers \<sigma>')"
  unfolding settled_inv_def
proof (intro allI impI)
  fix w i v post fvs
  assume w: "workers \<sigma>' w = Settled i v post" and f: "settlement fr post v = Some fvs"
  let ?q = "qabs (view (store \<sigma>))" and ?q' = "qabs (view (store \<sigma>'))"
  have wt: "well_typed (view (store \<sigma>))" using assms(5) by (simp add: sys_inv_def)
  have live: "q_jobs ?q' i \<noteq> None" using assms(6) w unfolding timely_def records_live_def by blast
  from step_settles [OF assms(4) w f wt assms(2)]
  show "\<exists>h ttl. q_jobs ?q' i = Some (h, ttl) \<and> terminal_status (h ''status'') \<and> map_upd_list h fvs = h"
  proof
    assume "workers \<sigma> w = Settled i v post"
    then obtain h ttl where h: "q_jobs ?q i = Some (h, ttl)" "terminal_status (h ''status'')" "map_upd_list h fvs = h"
      using assms(7) f unfolding settled_inv_def by blast
    then show ?thesis using step_keeps_terminal [OF assms(1-5,7) h(1,2)] live by blast
  next
    assume "?q' = spec_finish (iq_job_ttl_seconds Q) i fvs ?q"
    then show ?thesis using settlement_terminal [OF f] map_upd_list_again by (simp add: spec_finish_def del: qabs_sel)
  qed
qed

lemma timely_run_inv:
  assumes "float_codec F" "0 < iq_job_ttl_seconds Q" "0 < iq_recovery_lock_seconds Q" "0 \<le> \<delta>"
    and "timely_run R view F fr Q \<delta> \<sigma>"
  shows "sys_inv view F \<delta> \<sigma> \<and> timely view Q \<delta> \<sigma> \<and> settled_inv fr (qabs (view (store \<sigma>))) (workers \<sigma>)"
  using assms(5)
proof induction
  case (start \<sigma>)
  then show ?case by (rule fresh_inv)
next
  case (step \<sigma> \<sigma>')
  then show ?case
    using step_inv [OF assms(1-3) step(2) _ _ step(3) assms(4)] step_settled [OF assms(1-3) step(2) _ step(3)]
    by blast
qed

end

end
