(* ===== verification/Delivery.thy ===== *)
theory Delivery
  imports Worker_System
begin

text \<open>
  What the queue and the workers together guarantee, for every timely run of the concurrent system:
  no job is lost, no job is processed twice at the same time, a finished job stays finished. The
  last section has the steps of a race in which a worker overruns the lease and \<open>claim\<close>, which checks
  the record and stamps it in two round trips, rewinds a finished job.
\<close>

section \<open>A run of the reference instance\<close>

definition demo_start :: "mem sys" where
  "demo_start = \<lparr>store = Map.empty, clock = 0, workers = (\<lambda>_. Idle), sweeps = (\<lambda>_. NoSweep)\<rparr>"

abbreviation demo_step :: "mem sys \<Rightarrow> mem sys \<Rightarrow> bool" where
  "demo_step \<equiv> sys_step mem_redis frac_text id demo_queue"

abbreviation demo_run :: "mem sys \<Rightarrow> bool" where
  "demo_run \<equiv> timely_run mem_redis mem_view frac_text id demo_queue 5"

definition demo_submitted :: "mem sys" where
  "demo_submitted = demo_start\<lparr>store := one_job\<rparr>"

definition demo_popped :: "mem sys" where
  "demo_popped = move 0 (Popped ''a'' 0) (demo_start\<lparr>store := abandoned_job\<rparr>)"

lemma submitted_step: "demo_step demo_start demo_submitted"
  using sys_step.submit [of mem_redis frac_text id demo_queue demo_start Delivered "''a''" demo_payload]
  by (simp add: demo_submitted_def demo_start_def one_job_def)

lemma demo_run_submitted: "demo_run demo_submitted"
proof (rule timely_run.step [where \<sigma> = demo_start])
  show "demo_run demo_start"
    by (rule timely_run.start) (simp add: fresh_def demo_start_def del: qabs_sel)
  show "demo_step demo_start demo_submitted" by (rule submitted_step)
  show "timely mem_view demo_queue 5 demo_submitted"
    by (simp add: timely_def records_live_def demo_submitted_def demo_start_def one_job_state(2) listed_def del: qabs_sel)
qed

lemma pop_one_job: "fst (claim_pop mem_redis one_job) = Some ''a''"
  using mem.claim_pop_refines(2) [OF one_job_state(1)]
  by (simp add: one_job_state(2) spec_pop_def del: qabs_sel)

lemma popped_step: "demo_step demo_submitted demo_popped"
  using sys_step.pop [of demo_submitted 0 mem_redis "''a''" frac_text id demo_queue] pop_one_job
  by (simp add: demo_submitted_def demo_popped_def demo_start_def abandoned_job_def)

lemma demo_run_popped: "demo_run demo_popped"
proof (rule timely_run.step [OF demo_run_submitted])
  show "demo_step demo_submitted demo_popped" by (rule popped_step)
  show "timely mem_view demo_queue 5 demo_popped"
    by (simp add: timely_def records_live_def demo_popped_def demo_start_def abandoned_job_state(2) listed_def del: qabs_sel)
qed

section \<open>Guarantees of timely runs\<close>

text \<open>
  (C1) No job is lost. Let the scripts of sweeps take effect up to \<open>\<delta>\<close> seconds after their sweep read
  the clock and live claims be younger than the lease by more than \<open>\<delta>\<close> (a timely run). Then in every
  state, with workers crashing at any point, single commands to Redis interleaved in any order,
  replies lost and commands sent again, every job whose record exists and is not succeeded or failed
  is waiting in the queue or standing in the processing list, in exactly one place.
\<close>

theorem no_job_lost:
  assumes "redis_server R view" "float_codec F" "0 < iq_job_ttl_seconds Q" "0 < iq_recovery_lock_seconds Q"
    and "0 \<le> \<delta>" "timely_run R view F fr Q \<delta> \<sigma>" "q = qabs (view (store \<sigma>))"
    and "q_jobs q i = Some (h, ttl)" "\<not> terminal_status (h ''status'')"
  shows "count_list (q_queued q @ q_processing q) i = 1"
proof -
  have "queue_inv q"
    using redis_server.timely_run_inv [OF assms(1-6)] assms(7) by (simp add: sys_inv_def del: qabs_sel)
  then have "distinct (q_queued q @ q_processing q)" "listed q i"
    using assms(8,9) unfolding queue_inv_def by blast+
  then show ?thesis by (intro count_list_distinct) (auto simp: listed_def)
qed

theorem no_job_lost_witness:
  "count_list (q_queued (qabs (mem_view (store demo_popped))) @
     q_processing (qabs (mem_view (store demo_popped)))) ''a'' = 1"
  by (rule no_job_lost [OF mem.redis_server_axioms frac.float_codec_axioms _ _ _ demo_run_popped refl,
        where h = "[''status'' \<mapsto> ''queued'', ''payload'' \<mapsto> json_dumps id demo_payload]"])
    (simp_all add: demo_popped_def abandoned_job_state(2) terminal_status_def del: qabs_sel)

text \<open>
  (C3) A claim is exclusive: in every state of a timely run, with sweeps late by up to \<open>\<delta>\<close>, an id that a live worker holds, between
  popping it and settling it, stands in the processing list and is held by no other worker, so a
  job is never processed by two live workers at once.
\<close>

theorem claims_exclusive:
  assumes "redis_server R view" "float_codec F" "0 < iq_job_ttl_seconds Q" "0 < iq_recovery_lock_seconds Q"
    and "0 \<le> \<delta>" "timely_run R view F fr Q \<delta> \<sigma>" "holds (workers \<sigma> w) = Some (i, t)"
  shows "i \<in> set (q_processing (qabs (view (store \<sigma>)))) \<and>
    (\<forall>w' t'. holds (workers \<sigma> w') = Some (i, t') \<longrightarrow> w' = w)"
proof -
  have "worker_inv F \<delta> (qabs (view (store \<sigma>))) (clock \<sigma>) (workers \<sigma>)"
    using redis_server.timely_run_inv [OF assms(1-6)] by (simp add: sys_inv_def del: qabs_sel)
  from worker_inv_processing [OF this assms(7)] worker_inv_exclusive [OF this assms(7)]
  show ?thesis by blast
qed

theorem claims_exclusive_witness:
  "''a'' \<in> set (q_processing (qabs (mem_view (store demo_popped)))) \<and>
   holds (workers demo_popped 0) = Some (''a'', 0) \<and> holds (workers demo_popped 1) \<noteq> Some (''a'', 0)"
proof -
  have pos: "0 < iq_job_ttl_seconds demo_queue" "0 < iq_recovery_lock_seconds demo_queue" "(0 :: rat) \<le> 5"
    by simp_all
  have h: "holds (workers demo_popped 0) = Some (''a'', 0)" by (simp add: demo_popped_def)
  from claims_exclusive [OF mem.redis_server_axioms frac.float_codec_axioms pos demo_run_popped h] h
  show ?thesis by (metis zero_neq_one)
qed

section \<open>A finished job\<close>

text \<open>The run goes on: the worker reads the record, stamps it and processes the job.\<close>

definition demo_post :: "string \<Rightarrow> json \<Rightarrow> http_outcome" where
  "demo_post url body = HttpResponse 200 (Inr (JDict [(''label'', JStr ''positive'')]))"

abbreviation demo_job :: "json \<Rightarrow> claimed_job" where
  "demo_job v \<equiv> \<lparr>cj_job_id = ''a'', cj_payload = v\<rparr>"

definition read_job :: "mem \<Rightarrow> (string \<times> string) list" where
  "read_job s = fst (claim_read mem_redis ''a'' s)"

definition stamped_at :: "rat \<Rightarrow> mem \<Rightarrow> mem" where
  "stamped_at t s = snd (claim_stamp mem_redis frac_text ''a'' t s)"

definition worked :: "mem \<Rightarrow> mem" where
  "worked s = snd (process_job mem_redis id demo_queue Delivered demo_post (demo_job demo_payload) s)"

abbreviation demo_fields :: job_fields where
  "demo_fields \<equiv> [''status'' \<mapsto> ''queued'', ''payload'' \<mapsto> json_dumps id demo_payload]"

lemma read_job_facts:
  assumes "well_typed (mem_view s)" "q_jobs (qabs (mem_view s)) ''a'' = Some (h, t)"
    and "\<not> terminal_status (h ''status'')" "h ''payload'' = Some (json_dumps id demo_payload)"
  shows "\<not> rejected_claim (read_job s)" and "claimed_payload (read_job s) = Some demo_payload"
  using mem.rejected_claim_iff [OF assms(1), of "''a''"] mem.hgetall_job [OF assms(1), of "''a''"] assms
  by (simp_all add: read_job_def claim_read_def claimed_payload_def json_loads_dumps del: qabs_sel)

lemma worked_finish:
  "worked s = snd (finish mem_redis id demo_queue Delivered ''a'' ''succeeded''
     (Some (JDict [(''label'', JStr ''positive'')])) None s)"
  by (simp add: worked_def process_job_def runtime_call_payload demo_payload_def demo_post_def
      http_result_def not_null_def lift_finish_def)

definition demo_checked :: "mem sys" where
  "demo_checked = move 0 (Checked ''a'' 0 (read_job abandoned_job)) (demo_start\<lparr>store := abandoned_job\<rparr>)"

definition demo_running :: "mem sys" where
  "demo_running = move 0 (Running ''a'' 0 demo_payload) (demo_start\<lparr>store := stamped_at 0 abandoned_job\<rparr>)"

definition demo_done :: "mem sys" where
  "demo_done = move 0 Idle (demo_start\<lparr>store := worked (stamped_at 0 abandoned_job)\<rparr>)"

lemma abandoned_read:
  "\<not> rejected_claim (read_job abandoned_job)" "claimed_payload (read_job abandoned_job) = Some demo_payload"
  using read_job_facts [OF abandoned_job_state(1)]
  by (simp_all add: abandoned_job_state(2) terminal_status_def del: qabs_sel)

lemma stamped_state:
  "well_typed (mem_view (stamped_at t abandoned_job))"
  "qabs (mem_view (stamped_at t abandoned_job)) = \<lparr>q_queued = [], q_processing = [''a''], q_jobs =
     [''a'' \<mapsto> (demo_fields(''status'' \<mapsto> ''running'', ''claimed_at'' \<mapsto> py_repr frac_text t), Some 60)]\<rparr>"
  using mem.stamp_refines [OF abandoned_job_state(1), of frac_text "''a''" t]
  by (simp_all add: stamped_at_def abandoned_job_state(2) spec_update_def del: qabs_sel)

lemma worked_state:
  assumes "well_typed (mem_view s)"
  shows "well_typed (mem_view (worked s))"
    and "qabs (mem_view (worked s)) = spec_finish 60 ''a'' [(''status'', ''succeeded''),
      (''result'', json_dumps id (JDict [(''label'', JStr ''positive'')]))] (qabs (mem_view s))"
  using mem.finish_refines(1,3) [OF assms, where Q = demo_queue and fr = id and l = Delivered
      and i = "''a''" and status = "''succeeded''"
      and result = "Some (JDict [(''label'', JStr ''positive'')])" and error = None]
  by (simp_all add: worked_finish finish_fields_def del: qabs_sel json_dumps.simps)

lemma checked_step: "demo_step demo_popped demo_checked"
  using sys_step.read [of demo_popped 0 "''a''" 0 _ mem_redis frac_text id demo_queue, OF _ refl]
  by (simp add: demo_popped_def demo_checked_def demo_start_def abandoned_read flip: read_job_def)

lemma running_step: "demo_step demo_checked demo_running"
  using sys_step.stamp [of demo_checked 0 "''a''" 0 "read_job abandoned_job" 0 mem_redis frac_text id demo_queue]
  by (simp add: demo_running_def demo_checked_def demo_start_def abandoned_read stamped_at_def)

lemma demo_run_done: "demo_run demo_done"
proof -
  have c: "demo_run demo_checked"
    by (rule timely_run.step [OF demo_run_popped checked_step])
      (simp add: timely_def records_live_def demo_checked_def demo_start_def abandoned_job_state(2) listed_def del: qabs_sel)
  have r: "demo_run demo_running"
    by (rule timely_run.step [OF c running_step])
      (simp add: timely_def records_live_def demo_running_def demo_start_def stamped_state(2) listed_def del: qabs_sel)
  show ?thesis
  proof (rule timely_run.step [OF r])
    show "demo_step demo_running demo_done"
      using sys_step.work [of demo_running 0 "''a''" 0 demo_payload mem_redis frac_text id demo_queue
          Delivered demo_post]
      by (simp add: demo_running_def demo_done_def demo_start_def worked_def)
  qed (simp add: timely_def records_live_def demo_done_def demo_start_def worked_state(2) stamped_state spec_finish_def
      listed_def del: qabs_sel)
qed

text \<open>
  (C2) A finished job stays finished: in a timely run, with sweeps late by up to \<open>\<delta>\<close>, no step of any
  process, a command sent again included, changes the fields of a record that is succeeded or failed, except that the record expires; in particular no sweep
  resurrects it and no claim rewinds it.
\<close>

theorem terminal_is_final:
  assumes "redis_server R view" "float_codec F" "0 < iq_job_ttl_seconds Q" "0 < iq_recovery_lock_seconds Q"
    and "0 \<le> \<delta>" "timely_run R view F fr Q \<delta> \<sigma>" "sys_step R F fr Q \<sigma> \<sigma>'"
    and "q_jobs (qabs (view (store \<sigma>))) i = Some (h, ttl)" "terminal_status (h ''status'')"
  shows "q_jobs (qabs (view (store \<sigma>'))) i = None \<or>
    (\<exists>ttl'. q_jobs (qabs (view (store \<sigma>'))) i = Some (h, ttl'))"
proof -
  have "sys_inv view F \<delta> \<sigma>" "settled_inv fr (qabs (view (store \<sigma>))) (workers \<sigma>)"
    using redis_server.timely_run_inv [OF assms(1-6)] by blast+
  then show ?thesis by (rule redis_server.step_keeps_terminal [OF assms(1-4,7) _ _ assms(8,9)])
qed

theorem terminal_is_final_witness:
  "\<exists>h ttl. q_jobs (qabs (mem_view (store demo_done))) ''a'' = Some (h, ttl) \<and>
     h ''status'' = Some ''succeeded'' \<and>
     (q_jobs (qabs (mem_view (store (move 0 Idle demo_done)))) ''a'' = None \<or>
      (\<exists>ttl'. q_jobs (qabs (mem_view (store (move 0 Idle demo_done)))) ''a'' = Some (h, ttl')))"
proof -
  obtain h ttl where j: "q_jobs (qabs (mem_view (store demo_done))) ''a'' = Some (h, ttl)"
    and s: "h ''status'' = Some ''succeeded''"
    by (simp add: demo_done_def worked_state(2) stamped_state spec_finish_def del: qabs_sel json_dumps.simps)
  have "terminal_status (h ''status'')" using s by (simp add: terminal_status_def)
  then show ?thesis
    using terminal_is_final [OF mem.redis_server_axioms frac.float_codec_axioms _ _ _ demo_run_done
        sys_step.crash [of mem_redis frac_text id demo_queue demo_done 0], OF _ _ _ j] j s
    by simp
qed

section \<open>Without timeliness a claim can rewind a finished job\<close>

text \<open>
  Worker 0 claims the job at time 0 and is slow; at time 30, one lease later, a sweep requeues the
  id and worker 1 pops it and reads the record; then worker 0 finishes, and only then does worker 1
  write its stamp.
\<close>

definition race_requeued :: mem where
  "race_requeued = snd (recover_processing mem_redis frac_text demo_queue Delivered Delivered 30
     (r_tick mem_redis 30 (stamped_at 0 abandoned_job)))"

definition race_popped :: mem where
  "race_popped = snd (claim_pop mem_redis race_requeued)"

lemma lock_free:
  "mem_view (stamped_at 0 abandoned_job) RECOVERY_LOCK_KEY = None"
  by (simp add: stamped_at_def claim_stamp_def abandoned_job_def claim_pop_def one_job_def enqueue_def
      enqueue_script_def mem_redis_def QUEUE_KEY_def PROCESSING_KEY_def RECOVERY_LOCK_KEY_def JOB_PREFIX_def)

lemma race_ticked:
  "well_typed (mem_view (r_tick mem_redis 30 (stamped_at 0 abandoned_job)))"
  "qabs (mem_view (r_tick mem_redis 30 (stamped_at 0 abandoned_job))) =
     \<lparr>q_queued = [], q_processing = [''a''], q_jobs = [''a'' \<mapsto>
       (demo_fields(''status'' \<mapsto> ''running'', ''claimed_at'' \<mapsto> py_repr frac_text 0), Some 30)]\<rparr>"
  "mem_view (r_tick mem_redis 30 (stamped_at 0 abandoned_job)) RECOVERY_LOCK_KEY = None"
proof -
  have t: "mem_view (r_tick mem_redis 30 s) = age 30 (mem_view s)" for s
    by (rule mem.tick_law) simp
  show "well_typed (mem_view (r_tick mem_redis 30 (stamped_at 0 abandoned_job)))"
    by (simp add: t well_typed_age stamped_state(1))
  show "qabs (mem_view (r_tick mem_redis 30 (stamped_at 0 abandoned_job))) =
     \<lparr>q_queued = [], q_processing = [''a''], q_jobs = [''a'' \<mapsto>
       (demo_fields(''status'' \<mapsto> ''running'', ''claimed_at'' \<mapsto> py_repr frac_text 0), Some 30)]\<rparr>"
    by (simp add: t qabs_age stamped_state spec_age_def fun_eq_iff del: qabs_sel)
  show "mem_view (r_tick mem_redis 30 (stamped_at 0 abandoned_job)) RECOVERY_LOCK_KEY = None"
    by (simp only: t age_def lock_free option.case)
qed

lemma race_requeued_state:
  "well_typed (mem_view race_requeued)"
  "qabs (mem_view race_requeued) =
     \<lparr>q_queued = [''a''], q_processing = [], q_jobs = [''a'' \<mapsto> (demo_fields, Some 30)]\<rparr>"
proof -
  show "well_typed (mem_view race_requeued)"
    using mem.recover_processing_refines(1) [OF race_ticked(1) _ frac.float_codec_axioms,
        where Q = demo_queue and ?l1.0 = Delivered and ?l2.0 = Delivered and now = 30]
    by (simp add: race_requeued_def)
  have "qabs (mem_view race_requeued) = swept frac_text 0 (py_repr frac_text 30) [] [''a'']
      (qabs (mem_view (r_tick mem_redis 30 (stamped_at 0 abandoned_job))))"
    using mem.recover_runs [OF race_ticked(1) _ frac.float_codec_axioms race_ticked(3),
        where Q = demo_queue and now = 30]
    by (simp add: race_requeued_def race_ticked(2) del: qabs_sel)
  then show "qabs (mem_view race_requeued) =
     \<lparr>q_queued = [''a''], q_processing = [], q_jobs = [''a'' \<mapsto> (demo_fields, Some 30)]\<rparr>"
    by (simp add: race_ticked(2) swept_def stranded_def dead_entry_def stamp_of_def swept_job_def
        terminal_status_def claim_time_def fun_eq_iff del: qabs_sel)
qed

lemma race_popped_state:
  "fst (claim_pop mem_redis race_requeued) = Some ''a''"
  "well_typed (mem_view race_popped)"
  "qabs (mem_view race_popped) =
     \<lparr>q_queued = [], q_processing = [''a''], q_jobs = [''a'' \<mapsto> (demo_fields, Some 30)]\<rparr>"
  using mem.claim_pop_refines [OF race_requeued_state(1)]
  by (simp_all add: race_popped_def race_requeued_state(2) spec_pop_def del: qabs_sel)

lemma race_read:
  "\<not> rejected_claim (read_job race_popped)" "claimed_payload (read_job race_popped) = Some demo_payload"
  using read_job_facts [OF race_popped_state(2)]
  by (simp_all add: race_popped_state(3) terminal_status_def del: qabs_sel)

definition race_finished :: "mem sys" where
  "race_finished = \<lparr>store = worked race_popped, clock = 30,
     workers = (\<lambda>_. Idle)(0 := Idle, 1 := Checked ''a'' 30 (read_job race_popped)), sweeps = (\<lambda>_. NoSweep)\<rparr>"

definition race_rewound :: "mem sys" where
  "race_rewound = \<lparr>store = stamped_at 30 (worked race_popped), clock = 30,
     workers = (\<lambda>_. Idle)(0 := Idle, 1 := Running ''a'' 30 demo_payload), sweeps = (\<lambda>_. NoSweep)\<rparr>"

text \<open>Worker 0 is processing its job while worker 1 is in state \<open>pc\<close>; the steps of the race in order.\<close>

definition race_state :: "mem \<Rightarrow> rat \<Rightarrow> worker_pc \<Rightarrow> mem sys" where
  "race_state s t pc = \<lparr>store = s, clock = t,
     workers = (\<lambda>_. Idle)(0 := Running ''a'' 0 demo_payload, 1 := pc), sweeps = (\<lambda>_. NoSweep)\<rparr>"

lemma race_running: "demo_running = race_state (stamped_at 0 abandoned_job) 0 Idle"
  by (simp add: demo_running_def demo_start_def race_state_def fun_eq_iff)

text \<open>The sweep: its lock, its reading of the clock and its script.\<close>

definition race_late :: mem where
  "race_late = r_tick mem_redis 30 (stamped_at 0 abandoned_job)"

definition race_locked :: mem where
  "race_locked = snd (r_set_nx_ex mem_redis RECOVERY_LOCK_KEY ''1'' 30 race_late)"

definition race_sweeping :: "sweep_pc \<Rightarrow> mem sys" where
  "race_sweeping pc = (race_state race_locked 30 Idle)\<lparr>sweeps := (\<lambda>_. NoSweep)(0 := pc)\<rparr>"

lemma race_lock: "demo_step (race_state race_late 30 Idle) (race_sweeping Locked)"
proof -
  have "fst (r_set_nx_ex mem_redis RECOVERY_LOCK_KEY ''1'' 30 race_late)"
    using mem.set_nx_law [of 30 RECOVERY_LOCK_KEY "''1''" race_late] race_ticked(3) by (simp add: race_late_def)
  then show ?thesis
    using sys_step.lock [of "race_state race_late 30 Idle" 0 mem_redis frac_text id demo_queue]
    by (simp add: race_state_def race_sweeping_def race_locked_def)
qed

lemma race_clock: "demo_step (race_sweeping Locked) (race_sweeping (Evaluating 30))"
  using sys_step.take_time [of "race_sweeping Locked" 0 mem_redis frac_text id demo_queue]
  by (simp add: race_sweeping_def race_state_def)

lemma race_script: "race_requeued = snd (recover_sweep mem_redis frac_text 30 30 race_locked)"
proof -
  have a: "fst (r_set_nx_ex mem_redis RECOVERY_LOCK_KEY ''1'' 30 race_late)"
    using mem.set_nx_law [of 30 RECOVERY_LOCK_KEY "''1''" race_late] race_ticked(3) by (simp add: race_late_def)
  show ?thesis
    using a unfolding race_requeued_def recover_processing_def race_late_def [symmetric]
    by (simp add: race_locked_def split: option.split)
qed

lemma race_sweep: "demo_step (race_sweeping (Evaluating 30)) (race_state race_requeued 30 Idle)"
  using sys_step.sweep [of "race_sweeping (Evaluating 30)" 0 30 mem_redis frac_text id demo_queue]
  by (simp add: race_sweeping_def race_state_def race_script fun_upd_idem)

lemma race_read_step:
  "demo_step (race_state race_popped 30 (Popped ''a'' 30)) (race_state race_popped 30 (Checked ''a'' 30 (read_job race_popped)))"
  using sys_step.read [of "race_state race_popped 30 (Popped ''a'' 30)" 1 "''a''" 30 _ mem_redis
      frac_text id demo_queue, OF _ refl]
  by (simp add: race_state_def race_read flip: read_job_def)

lemma race_work:
  "demo_step (race_state race_popped 30 (Checked ''a'' 30 (read_job race_popped))) race_finished"
  using sys_step.work [of "race_state race_popped 30 (Checked ''a'' 30 (read_job race_popped))" 0
      "''a''" 0 demo_payload mem_redis frac_text id demo_queue Delivered demo_post]
  by (simp add: race_state_def race_finished_def worked_def fun_upd_twist)

lemma race_stamp: "demo_step race_finished race_rewound"
  using sys_step.stamp [of race_finished 1 "''a''" 30 "read_job race_popped" 30 mem_redis frac_text id demo_queue]
  by (simp add: race_finished_def race_rewound_def race_read stamped_at_def)

text \<open>Before the last step the job is succeeded; after it the job is running and stands in no list.\<close>

lemma race_result:
  "\<exists>h t. q_jobs (qabs (mem_view (store race_finished))) ''a'' = Some (h, t) \<and> h ''status'' = Some ''succeeded''"
  "\<exists>h t. q_jobs (qabs (mem_view (store race_rewound))) ''a'' = Some (h, t) \<and> h ''status'' = Some ''running''"
  "\<not> listed (qabs (mem_view (store race_rewound))) ''a''"
proof -
  note w = worked_state [OF race_popped_state(2)]
  have r: "qabs (mem_view (stamped_at 30 (worked race_popped))) = spec_update ''a''
      [(''status'', ''running''), (''claimed_at'', py_repr frac_text 30)] (qabs (mem_view (worked race_popped)))"
    using mem.stamp_refines(2) [OF w(1)] by (simp add: stamped_at_def)
  show "\<exists>h t. q_jobs (qabs (mem_view (store race_finished))) ''a'' = Some (h, t) \<and> h ''status'' = Some ''succeeded''"
    by (simp add: race_finished_def w(2) race_popped_state(3) spec_finish_def del: qabs_sel json_dumps.simps)
  show "\<exists>h t. q_jobs (qabs (mem_view (store race_rewound))) ''a'' = Some (h, t) \<and> h ''status'' = Some ''running''"
    by (simp add: race_rewound_def r w(2) race_popped_state(3) spec_finish_def spec_update_def
        del: qabs_sel json_dumps.simps)
  show "\<not> listed (qabs (mem_view (store race_rewound))) ''a''"
    by (simp add: race_rewound_def r w(2) race_popped_state(3) spec_finish_def spec_update_def
        listed_def del: qabs_sel json_dumps.simps)
qed

end
