(* ===== verification/Py_Text.thy ===== *)
theory Py_Text
  imports Json
begin

text \<open>
  The text functions of Python's standard library the program uses, on Latin-1 text, and regular
  expressions: a datatype of patterns, a derivative matcher (\<open>rx_match\<close>, what \<open>re.fullmatch\<close>
  decides) and the language it accepts (\<open>rx_lang\<close>), with their equivalence and the
  characterisation of the pattern shapes the program writes.
\<close>

section \<open>Characters\<close>

abbreviation cp :: "char \<Rightarrow> nat" where
  "cp c \<equiv> of_char c"

definition is_lower :: "char \<Rightarrow> bool" where "is_lower c \<longleftrightarrow> 97 \<le> cp c \<and> cp c \<le> 122"
definition is_upper :: "char \<Rightarrow> bool" where "is_upper c \<longleftrightarrow> 65 \<le> cp c \<and> cp c \<le> 90"

definition is_alnum_ascii :: "char \<Rightarrow> bool" where
  "is_alnum_ascii c \<longleftrightarrow> is_lower c \<or> is_upper c \<or> is_digit c"

text \<open>\<open>str.isspace\<close>, and the white space that pydantic's \<open>strip_whitespace\<close> removes.\<close>

definition py_isspace :: "char \<Rightarrow> bool" where
  "py_isspace c \<longleftrightarrow>
     9 \<le> cp c \<and> cp c \<le> 13 \<or> 28 \<le> cp c \<and> cp c \<le> 32 \<or> cp c = 133 \<or> cp c = 160"

definition rust_isspace :: "char \<Rightarrow> bool" where
  "rust_isspace c \<longleftrightarrow> 9 \<le> cp c \<and> cp c \<le> 13 \<or> cp c = 32 \<or> cp c = 133 \<or> cp c = 160"

text \<open>
  \<open>str.isalnum\<close> of one character: ASCII letters and digits, the Latin-1 letters, and the
  superscripts and fractions, which count as numeric.
\<close>

definition py_isalnum :: "char \<Rightarrow> bool" where
  "py_isalnum c \<longleftrightarrow> is_alnum_ascii c \<or>
     cp c \<in> {170, 178, 179, 181, 185, 186, 188, 189, 190} \<or>
     192 \<le> cp c \<and> cp c \<noteq> 215 \<and> cp c \<noteq> 247"

definition lower_char :: "char \<Rightarrow> char" where
  "lower_char c =
     (if is_upper c \<or> 192 \<le> cp c \<and> cp c \<le> 222 \<and> cp c \<noteq> 215
      then char_of (cp c + 32) else c)"

text \<open>
  \<open>str.upper\<close>; the capital forms of the micro sign and of y with diaeresis lie outside Latin-1,
  and the two characters are kept.
\<close>

definition upper_char :: "char \<Rightarrow> string" where
  "upper_char c =
     (if cp c = 223 then ''SS''
      else if is_lower c \<or> 224 \<le> cp c \<and> cp c \<le> 254 \<and> cp c \<noteq> 247
      then [char_of (cp c - 32)] else [c])"

definition py_lower :: "string \<Rightarrow> string" where "py_lower s = map lower_char s"
definition py_upper :: "string \<Rightarrow> string" where "py_upper s = concat (map upper_char s)"

definition strip_by :: "(char \<Rightarrow> bool) \<Rightarrow> string \<Rightarrow> string" where
  "strip_by p s = rev (dropWhile p (rev (dropWhile p s)))"

definition py_strip :: "string \<Rightarrow> string" where "py_strip s = strip_by py_isspace s"
definition rust_trim :: "string \<Rightarrow> string" where "rust_trim s = strip_by rust_isspace s"

lemma strip_by_id: "(\<forall>c \<in> set s. \<not> p c) \<Longrightarrow> strip_by p s = s"
proof -
  assume a: "\<forall>c \<in> set s. \<not> p c"
  have "dropWhile p s = s" "dropWhile p (rev s) = rev s"
    using a by (auto simp: dropWhile_eq_self_iff hd_rev)
  then show ?thesis by (simp add: strip_by_def)
qed

lemma strip_by_prefix: "\<exists>zs. dropWhile p s = strip_by p s @ zs"
  unfolding strip_by_def
  by (metis rev_append rev_rev_ident takeWhile_dropWhile_id)

lemma strip_by_ends:
  assumes "strip_by p s \<noteq> []"
  shows "\<not> p (hd (strip_by p s)) \<and> \<not> p (last (strip_by p s))"
proof
  obtain zs where z: "dropWhile p s = strip_by p s @ zs" using strip_by_prefix by blast
  then have "dropWhile p s \<noteq> []" using assms by simp
  then show "\<not> p (hd (strip_by p s))" using hd_dropWhile [of p s] assms unfolding z by simp
  show "\<not> p (last (strip_by p s))"
    using assms hd_dropWhile [of p "rev (dropWhile p s)"] by (simp add: strip_by_def last_rev)
qed

section \<open>int()\<close>

fun digits_tail_ok :: "string \<Rightarrow> bool" where
  "digits_tail_ok [] = True"
| "digits_tail_ok (c # cs) =
     (if c = CHR ''_'' then (case cs of d # ds \<Rightarrow> is_digit d \<and> digits_tail_ok ds | [] \<Rightarrow> False)
      else is_digit c \<and> digits_tail_ok cs)"

definition digits_ok :: "string \<Rightarrow> bool" where
  "digits_ok s = (case s of [] \<Rightarrow> False | c # cs \<Rightarrow> is_digit c \<and> digits_tail_ok cs)"

text \<open>
  \<open>int(text)\<close>: white space around, a sign, digits with single underscores between them, at most
  4300 digits; anything else is a \<open>ValueError\<close>.
\<close>

definition py_int :: "string \<Rightarrow> int option" where
  "py_int s =
     (let (sg, ds) = split_sign (py_strip s) in
      if digits_ok ds \<and> length (filter is_digit ds) \<le> 4300
      then (let n = int (read_nat (filter is_digit ds)) in Some (if sg = ''-'' then - n else n))
      else None)"

lemma digits_tail_ok_digits: "\<forall>c \<in> set s. is_digit c \<Longrightarrow> digits_tail_ok s"
  by (induction s) (auto simp: is_digit_def)

lemma py_int_show_if:
  "py_int (show_int n) = (if length (show_nat (nat \<bar>n\<bar>)) \<le> 4300 then Some n else None)"
proof -
  let ?ds = "show_nat (nat \<bar>n\<bar>)"
  have dg: "\<forall>c \<in> set ?ds. is_digit c" by (rule show_nat_digits)
  then have f: "filter is_digit ?ds = ?ds" by (simp add: filter_id_conv)
  have ok: "digits_ok ?ds"
    using dg digits_tail_ok_digits [of "tl ?ds"]
    by (cases ?ds) (auto simp: digits_ok_def)
  have ns: "\<not> py_isspace c" if "c \<in> set (show_int n)" for c
    using that dg by (auto simp: show_int_def py_isspace_def is_digit_def split: if_splits)
  have st: "py_strip (show_int n) = show_int n"
    unfolding py_strip_def using ns by (intro strip_by_id) blast
  have sg: "split_sign (show_int n) = (if n < 0 then ''-'' else [], ?ds)"
  proof (cases "n < 0")
    case True
    then show ?thesis by (simp add: show_int_def split_sign_def)
  next
    case False
    then show ?thesis using dg
      by (cases ?ds) (auto simp: show_int_def split_sign_def is_digit_def)
  qed
  show ?thesis using ok by (simp add: py_int_def st sg f)
qed

lemma py_int_show: "length (show_nat (nat \<bar>n\<bar>)) \<le> 4300 \<Longrightarrow> py_int (show_int n) = Some n"
  by (simp add: py_int_show_if)

section \<open>Regular expressions\<close>

datatype rx = Empty | Eps | Cls "char \<Rightarrow> bool" | Seq rx rx | Alt rx rx | Star rx

abbreviation Opt :: "rx \<Rightarrow> rx" where "Opt r \<equiv> Alt Eps r"
abbreviation Chr :: "char \<Rightarrow> rx" where "Chr c \<equiv> Cls (\<lambda>x. x = c)"

inductive rx_lang :: "rx \<Rightarrow> string \<Rightarrow> bool" where
  eps: "rx_lang Eps []"
| cls: "p c \<Longrightarrow> rx_lang (Cls p) [c]"
| seq: "rx_lang r xs \<Longrightarrow> rx_lang q ys \<Longrightarrow> rx_lang (Seq r q) (xs @ ys)"
| alt1: "rx_lang r xs \<Longrightarrow> rx_lang (Alt r q) xs"
| alt2: "rx_lang q xs \<Longrightarrow> rx_lang (Alt r q) xs"
| star0: "rx_lang (Star r) []"
| star1: "rx_lang r xs \<Longrightarrow> rx_lang (Star r) ys \<Longrightarrow> rx_lang (Star r) (xs @ ys)"

inductive_simps rx_lang_simps:
  "rx_lang Empty s" "rx_lang Eps s" "rx_lang (Cls p) s" "rx_lang (Seq r q) s" "rx_lang (Alt r q) s"

inductive_cases rx_star_cases: "rx_lang (Star r) s"

fun nullable :: "rx \<Rightarrow> bool" where
  "nullable Empty = False"
| "nullable Eps = True"
| "nullable (Cls p) = False"
| "nullable (Seq r q) = (nullable r \<and> nullable q)"
| "nullable (Alt r q) = (nullable r \<or> nullable q)"
| "nullable (Star r) = True"

fun deriv :: "char \<Rightarrow> rx \<Rightarrow> rx" where
  "deriv c Empty = Empty"
| "deriv c Eps = Empty"
| "deriv c (Cls p) = (if p c then Eps else Empty)"
| "deriv c (Seq r q) =
     (if nullable r then Alt (Seq (deriv c r) q) (deriv c q) else Seq (deriv c r) q)"
| "deriv c (Alt r q) = Alt (deriv c r) (deriv c q)"
| "deriv c (Star r) = Seq (deriv c r) (Star r)"

definition rx_match :: "rx \<Rightarrow> string \<Rightarrow> bool" where
  "rx_match r s = nullable (fold deriv s r)"

lemma nullable_lang: "nullable r \<longleftrightarrow> rx_lang r []"
  by (induction r) (auto simp: rx_lang_simps intro: rx_lang.intros)

lemma star_Cons:
  "rx_lang (Star r) (c # s) \<Longrightarrow> \<exists>xs ys. s = xs @ ys \<and> rx_lang r (c # xs) \<and> rx_lang (Star r) ys"
proof (induction "Star r" "c # s" arbitrary: s rule: rx_lang.induct)
  case (star1 xs ys)
  then show ?case by (cases xs) auto
qed

lemma deriv_lang: "rx_lang (deriv c r) s \<longleftrightarrow> rx_lang r (c # s)"
proof (induction r arbitrary: s)
  case (Seq r q)
  then show ?case
    by (auto simp: rx_lang_simps nullable_lang Cons_eq_append_conv)
next
  case (Star r)
  have "rx_lang (Star r) (c # s)" if "rx_lang r (c # xs)" "rx_lang (Star r) ys" "s = xs @ ys" for xs ys
    using rx_lang.star1 [OF that(1,2)] that(3) by simp
  then show ?case using Star by (auto simp: rx_lang_simps dest!: star_Cons)
qed (auto simp: rx_lang_simps)

lemma rx_match_lang: "rx_match r s \<longleftrightarrow> rx_lang r s"
  unfolding rx_match_def by (induction s arbitrary: r) (simp_all add: nullable_lang deriv_lang)

subsection \<open>Pattern shapes\<close>

lemma star_cls: "rx_lang (Star (Cls p)) s \<longleftrightarrow> (\<forall>c \<in> set s. p c)"
proof
  show "rx_lang (Star (Cls p)) s \<Longrightarrow> \<forall>c \<in> set s. p c"
    by (induction "Star (Cls p)" s rule: rx_lang.induct) (auto simp: rx_lang_simps)
  show "\<forall>c \<in> set s. p c \<Longrightarrow> rx_lang (Star (Cls p)) s"
  proof (induction s)
    case (Cons c s)
    then show ?case using rx_lang.star1 [OF rx_lang.cls, of p c s] by simp
  qed (rule rx_lang.star0)
qed

text \<open>\<open>a(?:b*a)?\<close>: one \<open>a\<close>, or \<open>a\<close> at both ends and \<open>b\<close> between.\<close>

definition name_rx :: "(char \<Rightarrow> bool) \<Rightarrow> (char \<Rightarrow> bool) \<Rightarrow> rx" where
  "name_rx a b = Seq (Cls a) (Opt (Seq (Star (Cls b)) (Cls a)))"

lemma name_rx_lang:
  assumes "\<And>c. a c \<Longrightarrow> b c"
  shows "rx_lang (name_rx a b) s \<longleftrightarrow> s \<noteq> [] \<and> a (hd s) \<and> a (last s) \<and> (\<forall>c \<in> set s. b c)"
proof
  assume "rx_lang (name_rx a b) s"
  then show "s \<noteq> [] \<and> a (hd s) \<and> a (last s) \<and> (\<forall>c \<in> set s. b c)"
    using assms by (auto simp: name_rx_def rx_lang_simps star_cls)
next
  assume r: "s \<noteq> [] \<and> a (hd s) \<and> a (last s) \<and> (\<forall>c \<in> set s. b c)"
  then obtain c t where s: "s = c # t" by (cases s) auto
  show "rx_lang (name_rx a b) s"
  proof (cases t rule: rev_cases)
    case Nil
    then show ?thesis using r s by (auto simp: name_rx_def rx_lang_simps star_cls)
  next
    case (snoc m e)
    have "rx_lang (Seq (Star (Cls b)) (Cls a)) (m @ [e])"
      by (rule rx_lang.seq) (use r s snoc in \<open>auto simp: star_cls rx_lang_simps\<close>)
    then show ?thesis using rx_lang.seq [OF rx_lang.cls, of a c] r s snoc
      by (auto simp: name_rx_def intro: rx_lang.alt2)
  qed
qed

fun rx_rep :: "nat \<Rightarrow> rx \<Rightarrow> rx" where
  "rx_rep 0 r = Eps"
| "rx_rep (Suc n) r = Seq r (rx_rep n r)"

fun rx_upto :: "nat \<Rightarrow> rx \<Rightarrow> rx" where
  "rx_upto 0 r = Eps"
| "rx_upto (Suc n) r = Opt (Seq r (rx_upto n r))"

lemma seq_cls: "rx_lang (Seq (Cls p) q) s \<longleftrightarrow> (\<exists>c t. s = c # t \<and> p c \<and> rx_lang q t)"
proof
  assume "\<exists>c t. s = c # t \<and> p c \<and> rx_lang q t"
  then show "rx_lang (Seq (Cls p) q) s"
    using rx_lang.seq [OF rx_lang.cls, of p] by fastforce
qed (auto simp: rx_lang_simps)

lemma rx_rep_cls: "rx_lang (rx_rep n (Cls p)) s \<longleftrightarrow> length s = n \<and> (\<forall>c \<in> set s. p c)"
proof (induction n arbitrary: s)
  case (Suc n)
  show ?case using Suc by (cases s) (auto simp: seq_cls)
qed (auto simp: rx_lang_simps)

lemma rx_upto_cls: "rx_lang (rx_upto n (Cls p)) s \<longleftrightarrow> length s \<le> n \<and> (\<forall>c \<in> set s. p c)"
proof (induction n arbitrary: s)
  case (Suc n)
  show ?case using Suc by (cases s) (auto simp: seq_cls rx_lang_simps(2,5))
qed (auto simp: rx_lang_simps)

fun rx_str :: "string \<Rightarrow> rx" where
  "rx_str [] = Eps"
| "rx_str (c # cs) = Seq (Chr c) (rx_str cs)"

lemma rx_str_lang: "rx_lang (rx_str t) s \<longleftrightarrow> s = t"
proof (induction t arbitrary: s)
  case (Cons c t)
  show ?case using Cons by (cases s) (auto simp: seq_cls)
qed (simp add: rx_lang_simps)

end
