(* ===== verification/Deadlines.thy ===== *)
theory Deadlines
  imports Delivery Config
begin

text \<open>
  The time limits of the worker. The runtime call of \<open>process_job\<close> ends within its configured limit, and
  every command to Redis is over within some time \<open>r\<close>, so the time for which a claim is held is
  bounded. The system of \<open>Worker_System\<close> is refined by the awaits a worker is in and the times by which
  they end. When the recovery lease is longer than the sum of the limits, every run is timely, so the
  guarantees of \<open>Delivery\<close> hold; the lease is computed from the runtime's limit alone, and for some
  accepted settings a finished job can be rewound.
\<close>

section \<open>Awaits and their limits\<close>

text \<open>
  The await a worker is in while it holds an id: the reply of the pop, the read of the record, the
  write that stamps or unlinks it, the call of the runtime, and the transaction of \<open>finish\<close>.
\<close>

datatype stage = PopReply | ReadSent | WriteSent | PostSent | FinishSent

text \<open>
  \<open>ClientTimeout\<close> bounds the call of the runtime. A command to Redis is over after \<open>r\<close> seconds: by then
  its await has ended, with a reply or an exception, and the command has taken effect or never will.
  How \<open>r\<close> follows from \<open>socket_timeout\<close> depends on the client, which may connect, check the connection,
  read several replies and send the command again within one await, and on the network, which may
  deliver a command late; \<open>r\<close> is a parameter.
\<close>

definition await_limit :: "settings \<Rightarrow> rat \<Rightarrow> stage \<Rightarrow> rat" where
  "await_limit st r g = (if g = PostSent then of_int (async_inference_timeout_seconds st) else r)"

definition settings_queue :: "settings \<Rightarrow> inference_queue" where
  "settings_queue st = worker_queue (async_queue_capacity st) (async_job_ttl_seconds st)
     (async_inference_timeout_seconds st)"

text \<open>When the command of the await takes effect, and the await that follows when it is over.\<close>

fun in_flight :: "worker_pc \<Rightarrow> stage \<Rightarrow> bool" where
  "in_flight (Popped i t) g \<longleftrightarrow> g = ReadSent"
| "in_flight (Checked i t job) g \<longleftrightarrow> g = WriteSent"
| "in_flight (Rejected i t) g \<longleftrightarrow> g = WriteSent"
| "in_flight (Running i t v) g \<longleftrightarrow> g = FinishSent"
| "in_flight (Settled i v post) g \<longleftrightarrow> g = FinishSent"
| "in_flight Idle g \<longleftrightarrow> False"

fun next_await :: "worker_pc \<Rightarrow> stage \<Rightarrow> stage option" where
  "next_await (Popped i t) PopReply = Some ReadSent"
| "next_await (Checked i t job) ReadSent = Some WriteSent"
| "next_await (Rejected i t) ReadSent = Some WriteSent"
| "next_await (Running i t v) WriteSent = Some PostSent"
| "next_await (Running i t v) PostSent = Some FinishSent"
| "next_await _ _ = None"

section \<open>Runs within the limits\<close>

type_synonym timing = "nat \<Rightarrow> stage \<times> rat"

abbreviation set_await :: "settings \<Rightarrow> rat \<Rightarrow> nat \<Rightarrow> stage \<Rightarrow> 's sys \<Rightarrow> timing \<Rightarrow> timing" where
  "set_await st r w g \<sigma> \<tau> \<equiv> \<tau>(w := (g, clock \<sigma> + await_limit st r g))"

text \<open>
  The steps of the system with the awaits of the workers: a step that moves no worker, the end of a
  claim (the worker died, or gave up and nothing sent for it can take effect any more), a pop, the
  effect of a command in flight, the end of an await, and the passing of time, which outlasts neither
  an await of a claim nor the script of a sweep.
\<close>

inductive timed_step ::
  "'s redis \<Rightarrow> float_text \<Rightarrow> (string \<Rightarrow> string) \<Rightarrow> settings \<Rightarrow> rat \<Rightarrow>
   's sys \<times> timing \<Rightarrow> 's sys \<times> timing \<Rightarrow> bool"
  for R F fr st r where
  other: "sys_step R F fr (settings_queue st) \<sigma> \<sigma>' \<Longrightarrow> workers \<sigma>' = workers \<sigma> \<Longrightarrow> clock \<sigma>' = clock \<sigma> \<Longrightarrow>
    timed_step R F fr st r (\<sigma>, \<tau>) (\<sigma>', \<tau>)"
| crash: "timed_step R F fr st r (\<sigma>, \<tau>) (move w Idle \<sigma>, \<tau>)"
| pop: "workers \<sigma> w = Idle \<Longrightarrow> fst (claim_pop R (store \<sigma>)) = Some i \<Longrightarrow>
    timed_step R F fr st r (\<sigma>, \<tau>)
      (move w (Popped i (clock \<sigma>)) (\<sigma>\<lparr>store := snd (claim_pop R (store \<sigma>))\<rparr>), set_await st r w PopReply \<sigma> \<tau>)"
| effect: "in_flight (workers \<sigma> w) (fst (\<tau> w)) \<Longrightarrow> sys_step R F fr (settings_queue st) \<sigma> \<sigma>' \<Longrightarrow>
    \<forall>w'. w' \<noteq> w \<longrightarrow> workers \<sigma>' w' = workers \<sigma> w' \<Longrightarrow> clock \<sigma>' = clock \<sigma> \<Longrightarrow>
    timed_step R F fr st r (\<sigma>, \<tau>) (\<sigma>', \<tau>)"
| reply: "next_await (workers \<sigma> w) (fst (\<tau> w)) = Some g \<Longrightarrow>
    timed_step R F fr st r (\<sigma>, \<tau>) (\<sigma>, set_await st r w g \<sigma> \<tau>)"
| pass: "0 \<le> d \<Longrightarrow> \<forall>w. workers \<sigma> w \<noteq> Idle \<longrightarrow> clock \<sigma> + d \<le> snd (\<tau> w) \<Longrightarrow>
    \<forall>k now. sweeps \<sigma> k = Evaluating now \<longrightarrow> clock \<sigma> + d \<le> now + r \<Longrightarrow>
    timed_step R F fr st r (\<sigma>, \<tau>) (\<sigma>\<lparr>store := r_tick R d (store \<sigma>), clock := clock \<sigma> + d\<rparr>, \<tau>)"

inductive_cases timed_stepE: "timed_step R F fr st r (\<sigma>, \<tau>) (\<sigma>', \<tau>')"

text \<open>Runs from an empty queue in which no waiting, claimed or settled id outlives its record.\<close>

inductive timed_run ::
  "'s redis \<Rightarrow> ('s \<Rightarrow> keyspace) \<Rightarrow> float_text \<Rightarrow> (string \<Rightarrow> string) \<Rightarrow> settings \<Rightarrow> rat \<Rightarrow> 's sys \<times> timing \<Rightarrow> bool"
  for R view F fr st r where
  start: "fresh view \<sigma> \<Longrightarrow> timed_run R view F fr st r (\<sigma>, \<tau>)"
| step: "timed_run R view F fr st r x \<Longrightarrow> timed_step R F fr st r x y \<Longrightarrow> records_live view (fst y) \<Longrightarrow>
    timed_run R view F fr st r y"

section \<open>How long a claim is held\<close>

fun spent :: "settings \<Rightarrow> rat \<Rightarrow> stage \<Rightarrow> rat" where
  "spent st r PopReply = r"
| "spent st r ReadSent = 2 * r"
| "spent st r WriteSent = 3 * r"
| "spent st r PostSent = 3 * r + of_int (async_inference_timeout_seconds st)"
| "spent st r FinishSent = 4 * r + of_int (async_inference_timeout_seconds st)"

text \<open>The longest time between popping an id and settling it.\<close>

definition claim_bound :: "settings \<Rightarrow> rat \<Rightarrow> rat" where
  "claim_bound st r = 4 * r + of_int (async_inference_timeout_seconds st)"

definition in_time :: "settings \<Rightarrow> rat \<Rightarrow> 's sys \<times> timing \<Rightarrow> bool" where
  "in_time st r x \<longleftrightarrow>
     (\<forall>w i t. holds (workers (fst x) w) = Some (i, t) \<longrightarrow>
        clock (fst x) \<le> snd (snd x w) \<and> snd (snd x w) \<le> t + spent st r (fst (snd x w))) \<and>
     (\<forall>k now. sweeps (fst x) k = Evaluating now \<longrightarrow> clock (fst x) \<le> now + r)"

text \<open>A step of the system makes a worker that holds an id keep it since the same time or give it up.\<close>

lemma step_holds:
  assumes "sys_step R F fr Q \<sigma> \<sigma>'" "workers \<sigma> w \<noteq> Idle" "holds (workers \<sigma>' w) = Some p"
  shows "holds (workers \<sigma> w) = Some p"
  using assms by cases (auto split: if_splits option.splits)

lemma next_spent:
  assumes "next_await pc g = Some g'"
  shows "pc \<noteq> Idle" "spent st r g' = spent st r g + await_limit st r g'"
  using assms by (cases "(pc, g)" rule: next_await.cases; simp add: await_limit_def)+

lemma spent_bound:
  assumes "0 \<le> r" "0 \<le> async_inference_timeout_seconds st"
  shows "spent st r g \<le> claim_bound st r"
  using assms by (cases g) (simp_all add: claim_bound_def)

text \<open>A step that lets no time pass starts no script later than its reading of the clock.\<close>

lemma step_sweeps:
  assumes "sys_step R F fr Q \<sigma> \<sigma>'" "clock \<sigma>' = clock \<sigma>" "sweeps \<sigma>' k = Evaluating now"
  shows "sweeps \<sigma> k = Evaluating now \<or> now = clock \<sigma>"
  using assms by cases (auto split: if_splits)

lemma in_time_step:
  assumes "timed_step R F fr st r x y" "in_time st r x" "0 \<le> r" "0 \<le> async_inference_timeout_seconds st"
  shows "in_time st r y"
  using assms(1)
proof cases
  case (other \<sigma> \<sigma>' \<tau>)
  then show ?thesis using assms(2,3) step_sweeps [OF other(3,5)] by (fastforce simp: in_time_def)
next
  case (crash \<sigma> \<tau> w)
  then show ?thesis using assms(2) by (simp add: in_time_def)
next
  case (pop \<sigma> w i \<tau>)
  then show ?thesis using assms(2,3) by (simp add: in_time_def await_limit_def)
next
  case (effect \<sigma> w \<tau> \<sigma>')
  have "workers \<sigma> w \<noteq> Idle" using effect(3) by auto
  then have "holds (workers \<sigma>' v) = Some p \<Longrightarrow> holds (workers \<sigma> v) = Some p" for v p
    using step_holds [OF effect(4)] effect(5) by (metis (no_types))
  then show ?thesis using effect(1,2,6) assms(2,3) step_sweeps [OF effect(4,6)] by (fastforce simp: in_time_def)
next
  case (reply \<sigma> w \<tau> g)
  have "0 \<le> await_limit st r g" using assms(3,4) by (simp add: await_limit_def)
  then show ?thesis
    using reply(1,2) assms(2) next_spent(2) [OF reply(3), of st r] by (fastforce simp: in_time_def)
next
  case (pass d \<sigma> \<tau>)
  have "clock \<sigma> + d \<le> snd (\<tau> w)" if "holds (workers \<sigma> w) = Some (i, t)" for w i t
    using pass(4) that by (metis holds.simps(1) option.distinct(1))
  then show ?thesis using pass(1,2,5) assms(2) by (simp add: in_time_def)
qed

text \<open>A timed step is a step of the system or leaves it as it is.\<close>

lemma timed_step_sys:
  assumes "timed_step R F fr st r x y"
  shows "fst y = fst x \<or> sys_step R F fr (settings_queue st) (fst x) (fst y)"
  using assms
proof cases
  case (pop \<sigma> w i \<tau>)
  then show ?thesis using sys_step.pop [OF pop(3,4), of F fr "settings_queue st"] by simp
qed (auto intro: sys_step.crash sys_step.pass)

lemma timed_run_timely:
  assumes "timed_run R view F fr st r x" "0 \<le> r" "0 \<le> async_inference_timeout_seconds st"
    and "claim_bound st r + r < of_int (recovery_lease_seconds (async_inference_timeout_seconds st))"
  shows "timely_run R view F fr (settings_queue st) r (fst x) \<and> in_time st r x"
  using assms(1)
proof induction
  case (start \<sigma> \<tau>)
  then show ?case by (auto intro: timely_run.start simp: in_time_def fresh_def)
next
  case (step x y)
  have w: "in_time st r y" using in_time_step [OF step(2) _ assms(2,3)] step.IH by blast
  have "clock (fst y) + r < t + of_int (iq_recovery_lock_seconds (settings_queue st))"
    if "holds (workers (fst y) v) = Some (i, t)" for v i t
  proof -
    have "clock (fst y) \<le> t + spent st r (fst (snd y v))" using w that by (fastforce simp: in_time_def)
    also have "\<dots> \<le> t + claim_bound st r" using spent_bound [OF assms(2,3)] by simp
    finally show ?thesis using assms(4) by (simp add: settings_queue_def worker_queue_def)
  qed
  then have "timely view (settings_queue st) r (fst y)" using step(3) w by (simp add: timely_def in_time_def)
  then show ?case
    using timed_step_sys [OF step(2)] step.IH w by (metis timely_run.step)
qed

section \<open>Properties\<close>

text \<open>
  (C4) The time limits protect claims. Let \<open>r\<close> be the longest time for which a command to Redis can be
  under way, and let four such times, the time limit of the runtime call, and one more \<open>r\<close> by which a
  sweep can be late together be shorter than the recovery lease. Then every run within these limits is
  timely, so that no job is lost and finished jobs stay finished; and no other worker holds the id of
  a live worker, which stands in the processing list. For the default settings the condition is that
  a command to Redis is over within less than 6 seconds.
\<close>

theorem limits_protect_claims:
  assumes "redis_server R view" "float_codec F" "0 < async_job_ttl_seconds st"
    and "0 \<le> r" "0 < async_inference_timeout_seconds st"
    and "claim_bound st r + r < of_int (recovery_lease_seconds (async_inference_timeout_seconds st))"
    and "timed_run R view F fr st r (\<sigma>, \<tau>)"
  shows "timely_run R view F fr (settings_queue st) r \<sigma> \<and>
    (\<forall>w i t. holds (workers \<sigma> w) = Some (i, t) \<longrightarrow> i \<in> set (q_processing (qabs (view (store \<sigma>)))) \<and>
       (\<forall>w' t'. holds (workers \<sigma> w') = Some (i, t') \<longrightarrow> w' = w)) \<and>
    (claim_bound default_settings r + r <
       of_int (recovery_lease_seconds (async_inference_timeout_seconds default_settings)) \<longleftrightarrow> r < 6)"
proof -
  have run: "timely_run R view F fr (settings_queue st) r \<sigma>"
    using timed_run_timely [OF assms(7,4) _ assms(6)] assms(5) by simp
  have pos: "0 < iq_job_ttl_seconds (settings_queue st)" "0 < iq_recovery_lock_seconds (settings_queue st)"
    using assms(3) by (simp_all add: settings_queue_def worker_queue_def recovery_lease_seconds_def)
  have inv: "worker_inv F r (qabs (view (store \<sigma>))) (clock \<sigma>) (workers \<sigma>)"
    using redis_server.timely_run_inv [OF assms(1,2) pos assms(4) run] by (simp add: sys_inv_def del: qabs_sel)
  have d: "claim_bound default_settings r + r <
      of_int (recovery_lease_seconds (async_inference_timeout_seconds default_settings)) \<longleftrightarrow> r < 6"
    by (simp add: claim_bound_def recovery_lease_seconds_def default_settings_def)
  then show ?thesis using run worker_inv_processing [OF inv] worker_inv_exclusive [OF inv] by blast
qed

text \<open>Settings with a short and with a long time limit of Redis, and the queue both give.\<close>

definition demo_limits :: "int \<Rightarrow> settings" where
  "demo_limits s = default_settings\<lparr> async_queue_capacity := 2, async_job_ttl_seconds := 60,
     redis_socket_timeout_seconds := s, async_inference_timeout_seconds := 15 \<rparr>"

lemma demo_limits_simps [simp]:
  "settings_queue (demo_limits s) = demo_queue" "redis_socket_timeout_seconds (demo_limits s) = s"
  "async_inference_timeout_seconds (demo_limits s) = 15" "async_job_ttl_seconds (demo_limits s) = 60"
  by (simp_all add: demo_limits_def settings_queue_def worker_queue_def recovery_lease_seconds_def demo_queue_def)

definition no_awaits :: timing where
  "no_awaits w = (PopReply, 0)"

abbreviation demo_timed :: "int \<Rightarrow> mem sys \<times> timing \<Rightarrow> mem sys \<times> timing \<Rightarrow> bool" where
  "demo_timed s \<equiv> timed_step mem_redis frac_text id (demo_limits s)
     (of_int (redis_socket_timeout_seconds (demo_limits s)))"

lemma timed_submitted: "demo_timed s (demo_start, \<tau>) (demo_submitted, \<tau>)"
  by (rule timed_step.other) (simp_all add: submitted_step, simp_all add: demo_submitted_def)

lemma timed_popped:
  "demo_timed s (demo_submitted, \<tau>) (demo_popped, \<tau>(0 := (PopReply, of_int s)))"
  using timed_step.pop [of demo_submitted 0 mem_redis "''a''" frac_text id "demo_limits s" _ \<tau>] pop_one_job
  by (simp add: demo_submitted_def demo_popped_def demo_start_def abandoned_job_def await_limit_def)

theorem limits_protect_claims_witness:
  "timely_run mem_redis mem_view frac_text id demo_queue 2 demo_popped \<and>
   ''a'' \<in> set (q_processing (qabs (mem_view (store demo_popped))))"
proof -
  have "timed_run mem_redis mem_view frac_text id (demo_limits 2) 2 (demo_start, no_awaits)"
    by (rule timed_run.start) (simp add: fresh_def demo_start_def del: qabs_sel)
  from timed_run.step [OF this] timed_submitted [of 2 no_awaits]
  have "timed_run mem_redis mem_view frac_text id (demo_limits 2) 2 (demo_submitted, no_awaits)"
    by (simp add: records_live_def demo_submitted_def demo_start_def one_job_state(2) listed_def del: qabs_sel)
  from timed_run.step [OF this]
  have run: "timed_run mem_redis mem_view frac_text id (demo_limits 2) 2 (demo_popped, no_awaits(0 := (PopReply, 2)))"
    using timed_popped [of 2 no_awaits]
    by (simp add: records_live_def demo_popped_def demo_start_def abandoned_job_state(2) listed_def del: qabs_sel)
  have "holds (workers demo_popped 0) = Some (''a'', 0)" by (simp add: demo_popped_def)
  moreover have "claim_bound (demo_limits 2) 2 + 2 <
      of_int (recovery_lease_seconds (async_inference_timeout_seconds (demo_limits 2)))"
    by (simp add: claim_bound_def recovery_lease_seconds_def)
  ultimately show ?thesis
    using limits_protect_claims [OF mem.redis_server_axioms frac.float_codec_axioms _ _ _ _ run] by auto
qed

text \<open>
  The race of \<open>Delivery\<close> within 30 seconds, the socket time limit, for every command to Redis and 15
  for the runtime: worker 0 waits for its \<open>finish\<close> while worker 1 claims the id again.
\<close>

definition race_timing :: "stage \<Rightarrow> rat \<Rightarrow> stage \<Rightarrow> rat \<Rightarrow> timing" where
  "race_timing g t g' t' = no_awaits(0 := (g, t), 1 := (g', t'))"

abbreviation race_timed :: "mem sys \<times> timing \<Rightarrow> mem sys \<times> timing \<Rightarrow> bool" where
  "race_timed \<equiv> demo_timed 30"

definition race_environ :: environ where
  "race_environ = map_of
     [(''KERNEXYS_ASYNC_QUEUE_CAPACITY'', ''2''), (''KERNEXYS_ASYNC_JOB_TTL_SECONDS'', ''60''),
      (''KERNEXYS_REDIS_SOCKET_TIMEOUT_SECONDS'', ''30''), (''KERNEXYS_ASYNC_INFERENCE_TIMEOUT_SECONDS'', ''15'')]"

lemma race_settings: "from_env race_environ = Inr (demo_limits 30)"
  by code_simp

lemma timed_reply:
  assumes "next_await (workers \<sigma> w) (fst (\<tau> w)) = Some g" "\<tau>' = set_await (demo_limits s) (of_int s) w g \<sigma> \<tau>"
  shows "demo_timed s (\<sigma>, \<tau>) (\<sigma>, \<tau>')"
  using timed_step.reply [of \<sigma> w \<tau> g mem_redis frac_text id "demo_limits s"] assms by simp

lemma timed_effect:
  assumes "demo_step \<sigma> \<sigma>'" "in_flight (workers \<sigma> w) (fst (\<tau> w))" "\<forall>w'. w' \<noteq> w \<longrightarrow> workers \<sigma>' w' = workers \<sigma> w'"
    and "clock \<sigma>' = clock \<sigma>"
  shows "demo_timed s (\<sigma>, \<tau>) (\<sigma>', \<tau>)"
  using timed_step.effect [where \<sigma> = \<sigma> and w = w and \<tau> = \<tau> and st = "demo_limits s" and \<sigma>' = \<sigma>']
    assms by simp

text \<open>Worker 0 claims the job at time 0 and sends the transaction of \<open>finish\<close> at once.\<close>

lemma race_claimed:
  "race_timed\<^sup>*\<^sup>* (demo_start, no_awaits)
     (race_state (stamped_at 0 abandoned_job) 0 Idle, race_timing FinishSent 30 PopReply 0)"
proof -
  let ?t = "\<lambda>g t. race_timing g t PopReply 0"
  have t: "no_awaits(0 := (g, t)) = ?t g t" for g t by (simp add: race_timing_def no_awaits_def fun_eq_iff)
  note defs = demo_popped_def demo_checked_def demo_running_def demo_start_def race_timing_def await_limit_def
  have 1: "race_timed (demo_start, no_awaits) (demo_submitted, no_awaits)" by (rule timed_submitted)
  have 2: "race_timed (demo_submitted, no_awaits) (demo_popped, ?t PopReply 30)"
    using timed_popped [of 30 no_awaits] by (simp add: t)
  have 3: "race_timed (demo_popped, ?t PopReply 30) (demo_popped, ?t ReadSent 30)"
    by (rule timed_reply [of _ 0 _ ReadSent]) (simp_all add: defs fun_eq_iff)
  have 4: "race_timed (demo_popped, ?t ReadSent 30) (demo_checked, ?t ReadSent 30)"
    by (rule timed_effect [OF checked_step, of 0]) (simp_all add: defs)
  have 5: "race_timed (demo_checked, ?t ReadSent 30) (demo_checked, ?t WriteSent 30)"
    by (rule timed_reply [of _ 0 _ WriteSent]) (simp_all add: defs fun_eq_iff)
  have 6: "race_timed (demo_checked, ?t WriteSent 30) (demo_running, ?t WriteSent 30)"
    by (rule timed_effect [OF running_step, of 0]) (simp_all add: defs)
  have 7: "race_timed (demo_running, ?t WriteSent 30) (demo_running, ?t PostSent 15)"
    by (rule timed_reply [of _ 0 _ PostSent]) (simp_all add: defs fun_eq_iff)
  have 8: "race_timed (demo_running, ?t PostSent 15) (demo_running, ?t FinishSent 30)"
    by (rule timed_reply [of _ 0 _ FinishSent]) (simp_all add: defs fun_eq_iff)
  show ?thesis
    using 1 2 3 4 5 6 7 8 unfolding race_running by (meson rtranclp.rtrancl_into_rtrancl rtranclp.rtrancl_refl)
qed

text \<open>At time 30 a sweep requeues the id, worker 1 pops and reads it, and only then worker 0 finishes.\<close>

lemma race_overtaken:
  "race_timed\<^sup>*\<^sup>* (race_state (stamped_at 0 abandoned_job) 0 Idle, race_timing FinishSent 30 PopReply 0)
     (race_finished, race_timing FinishSent 30 WriteSent 60)"
proof -
  let ?t = "race_timing FinishSent 30 PopReply 0"
  let ?c = "Checked ''a'' 30 (read_job race_popped)"
  note defs = race_state_def race_finished_def race_timing_def await_limit_def race_sweeping_def
  have 1: "race_timed (race_state (stamped_at 0 abandoned_job) 0 Idle, race_timing FinishSent 30 PopReply 0)
      (race_state race_late 30 Idle, race_timing FinishSent 30 PopReply 0)"
    using timed_step.pass [where d = 30 and \<sigma> = "race_state (stamped_at 0 abandoned_job) 0 Idle" and \<tau> = ?t
        and R = mem_redis]
    by (simp add: defs race_late_def)
  have l: "race_timed (race_state race_late 30 Idle, ?t) (race_sweeping Locked, ?t)"
    by (rule timed_step.other) (simp_all add: race_lock, simp_all add: defs)
  have c: "race_timed (race_sweeping Locked, ?t) (race_sweeping (Evaluating 30), ?t)"
    by (rule timed_step.other) (simp_all add: race_clock, simp_all add: defs)
  have e: "race_timed (race_sweeping (Evaluating 30), ?t) (race_state race_requeued 30 Idle, ?t)"
    by (rule timed_step.other) (simp_all add: race_sweep, simp_all add: defs)
  have 3: "race_timed (race_state race_requeued 30 Idle, race_timing FinishSent 30 PopReply 0)
      (race_state race_popped 30 (Popped ''a'' 30), race_timing FinishSent 30 PopReply 60)"
    using timed_step.pop [of "race_state race_requeued 30 Idle" 1 mem_redis "''a''" frac_text id "demo_limits 30" 30
        "race_timing FinishSent 30 PopReply 0"] race_popped_state(1)
    by (simp add: defs race_popped_def)
  have 4: "race_timed (race_state race_popped 30 (Popped ''a'' 30), race_timing FinishSent 30 PopReply 60)
      (race_state race_popped 30 (Popped ''a'' 30), race_timing FinishSent 30 ReadSent 60)"
    by (rule timed_reply [of _ 1 _ ReadSent]) (simp_all add: defs)
  have 5: "race_timed (race_state race_popped 30 (Popped ''a'' 30), race_timing FinishSent 30 ReadSent 60)
      (race_state race_popped 30 ?c, race_timing FinishSent 30 ReadSent 60)"
    by (rule timed_effect [OF race_read_step, of 1]) (simp_all add: defs)
  have 6: "race_timed (race_state race_popped 30 ?c, race_timing FinishSent 30 ReadSent 60)
      (race_state race_popped 30 ?c, race_timing FinishSent 30 WriteSent 60)"
    by (rule timed_reply [of _ 1 _ WriteSent]) (simp_all add: defs)
  have 7: "race_timed (race_state race_popped 30 ?c, race_timing FinishSent 30 WriteSent 60)
      (race_finished, race_timing FinishSent 30 WriteSent 60)"
    by (rule timed_effect [OF race_work, of 0]) (simp_all add: defs)
  show ?thesis using 1 l c e 3 4 5 6 7 by (meson rtranclp.rtrancl_into_rtrancl rtranclp.rtrancl_refl)
qed

text \<open>
  (C13) The lease does not follow from the limits for every accepted setting: it is computed from the
  time limit of the runtime call, while a claim also spans round trips to Redis. With 15 seconds for
  the runtime and 30 for Redis, values that \<open>from_env\<close> accepts, there is a run in which every await
  ends within its limit, a live worker's job is requeued and succeeds with its result, and the next
  step of the worker that claimed it again sets it back to running, because \<open>claim\<close> checks the record
  and stamps it in two round trips; the id then stands in neither list, so if that worker dies, no
  sweep finds the job again.
\<close>

theorem claim_can_rewind_finished_job:
  "from_env race_environ = Inr (demo_limits 30) \<and>
   (\<exists>x y h h' t t'. race_timed\<^sup>*\<^sup>* (demo_start, no_awaits) x \<and> race_timed x y \<and>
     q_jobs (qabs (mem_view (store (fst x)))) ''a'' = Some (h, t) \<and> h ''status'' = Some ''succeeded'' \<and>
     q_jobs (qabs (mem_view (store (fst y)))) ''a'' = Some (h', t') \<and> h' ''status'' = Some ''running'' \<and>
     \<not> listed (qabs (mem_view (store (fst y)))) ''a'')"
proof -
  have "race_timed (race_finished, race_timing FinishSent 30 WriteSent 60)
      (race_rewound, race_timing FinishSent 30 WriteSent 60)"
    by (rule timed_effect [OF race_stamp, of 1])
      (simp_all add: race_finished_def race_rewound_def race_timing_def)
  with rtranclp_trans [OF race_claimed race_overtaken] race_result race_settings show ?thesis by (metis fst_conv)
qed

end
