(* ===== verification/Schemas.thy ===== *)
theory Schemas
  imports Py_Text Py_Values
begin

text \<open>
  The request and response schemas of \<open>app/schemas.py\<close>: the constrained string types, the
  request models with their field validators, and the models the API answers with. Validation
  collects every violation of a body in field order, as pydantic does; a body that validates gives
  a record with the normalised values. The coercions of pydantic's lax mode that depend on its
  number and date parsers are the fields of \<open>pydantic\<close>.
\<close>

section \<open>Validation\<close>

datatype rule =
    Missing | WrongType | TooShort | TooLong | PatternMismatch | OutOfRange | ExtraForbidden
  | Rejected string

type_synonym violation = "string list \<times> rule"
type_synonym 'a checked = "violation list + 'a"
type_synonym dict = "(string \<times> json) list"

text \<open>The coercions of pydantic to \<open>int\<close> and \<open>datetime\<close> (as its ISO text).\<close>

record pydantic =
  lax_int :: "json \<Rightarrow> int option"
  lax_datetime :: "json \<Rightarrow> string option"

locale pydantic_lax =
  fixes P :: pydantic
  assumes lax_int_int [simp]: "lax_int P (JInt n) = Some n"
    and lax_int_text: "0 \<le> n \<Longrightarrow> n < 10 ^ 18 \<Longrightarrow> lax_int P (JStr (show_int n)) = Some n"

text \<open>A concrete instance: integers as they are, text by \<open>int()\<close>, dates as their text.\<close>

fun plain_int :: "json \<Rightarrow> int option" where
  "plain_int (JInt n) = Some n"
| "plain_int (JStr s) = py_int s"
| "plain_int _ = None"

fun plain_datetime :: "json \<Rightarrow> string option" where
  "plain_datetime (JStr s) = Some s"
| "plain_datetime _ = None"

definition plain_pydantic :: pydantic where
  "plain_pydantic = \<lparr> lax_int = plain_int, lax_datetime = plain_datetime \<rparr>"

lemma show_nat_length: "n < 10 ^ Suc k \<Longrightarrow> length (show_nat n) \<le> Suc k"
proof (induction k arbitrary: n)
  case 0
  then show ?case by (subst show_nat.simps) simp
next
  case (Suc k)
  then have "n div 10 < 10 ^ Suc k" by (simp add: less_mult_imp_div_less)
  then show ?case using Suc.IH [of "n div 10"] by (subst show_nat.simps) simp
qed

interpretation plain: pydantic_lax plain_pydantic
proof
  fix n :: int
  assume n: "0 \<le> n" "n < 10 ^ 18"
  then have "nat \<bar>n\<bar> < 10 ^ Suc 17" by (simp add: nat_less_iff)
  then show "lax_int plain_pydantic (JStr (show_int n)) = Some n"
    using show_nat_length [of "nat \<bar>n\<bar>" 17] by (simp add: plain_pydantic_def py_int_show)
qed (simp add: plain_pydantic_def)

definition both :: "'a checked \<Rightarrow> 'b checked \<Rightarrow> ('a \<times> 'b) checked" where
  "both a b = (case a of
      Inl es \<Rightarrow> (case b of Inl fs \<Rightarrow> Inl (es @ fs) | Inr _ \<Rightarrow> Inl es)
    | Inr x \<Rightarrow> (case b of Inl fs \<Rightarrow> Inl fs | Inr y \<Rightarrow> Inr (x, y)))"

definition map_checked :: "('a \<Rightarrow> 'b) \<Rightarrow> 'a checked \<Rightarrow> 'b checked" where
  "map_checked f a = (case a of Inl es \<Rightarrow> Inl es | Inr x \<Rightarrow> Inr (f x))"

text \<open>One violation of a single value, and the violations of a nested model under its field.\<close>

definition at_root :: "rule + 'a \<Rightarrow> 'a checked" where
  "at_root r = (case r of Inl e \<Rightarrow> Inl [([], e)] | Inr x \<Rightarrow> Inr x)"

definition under :: "string \<Rightarrow> 'a checked \<Rightarrow> 'a checked" where
  "under k r = (case r of Inl es \<Rightarrow> Inl (map (\<lambda>(l, e). (k # l, e)) es) | Inr x \<Rightarrow> Inr x)"

definition field :: "dict \<Rightarrow> string \<Rightarrow> 'a option \<Rightarrow> (json \<Rightarrow> 'a checked) \<Rightarrow> 'a checked" where
  "field kvs k dflt check =
     (case map_of kvs k of
        Some v \<Rightarrow> under k (check v)
      | None \<Rightarrow> (case dflt of None \<Rightarrow> Inl [([k], Missing)] | Some x \<Rightarrow> Inr x))"

definition no_extra :: "string list \<Rightarrow> dict \<Rightarrow> unit checked" where
  "no_extra names kvs =
     (let extra = filter (\<lambda>k. k \<notin> set names) (map fst kvs) in
      if extra = [] then Inr () else Inl (map (\<lambda>k. ([k], ExtraForbidden)) extra))"

fun as_dict :: "json \<Rightarrow> dict checked" where
  "as_dict (JDict kvs) = Inr kvs"
| "as_dict _ = Inl [([], WrongType)]"

fun as_str :: "json \<Rightarrow> string checked" where
  "as_str (JStr s) = Inr s"
| "as_str _ = Inl [([], WrongType)]"

definition optional :: "(json \<Rightarrow> 'a checked) \<Rightarrow> json \<Rightarrow> 'a option checked" where
  "optional check v = (if v = JNull then Inr None else map_checked Some (check v))"

definition int_range :: "pydantic \<Rightarrow> int \<Rightarrow> int \<Rightarrow> json \<Rightarrow> int checked" where
  "int_range P lo hi v =
     (case lax_int P v of
        None \<Rightarrow> Inl [([], WrongType)]
      | Some n \<Rightarrow> if lo \<le> n \<and> n \<le> hi then Inr n else Inl [([], OutOfRange)])"

definition len_between :: "nat \<Rightarrow> nat \<Rightarrow> string \<Rightarrow> rule + string" where
  "len_between lo hi s =
     (if length s < lo then Inl TooShort else if hi < length s then Inl TooLong else Inr s)"

lemma both_Inr_iff: "both a b = Inr z \<longleftrightarrow> a = Inr (fst z) \<and> b = Inr (snd z)"
  by (cases z) (auto simp: both_def split: sum.splits)

lemma map_checked_Inr_iff: "map_checked f a = Inr y \<longleftrightarrow> (\<exists>x. a = Inr x \<and> y = f x)"
  by (auto simp: map_checked_def split: sum.splits)

lemma under_Inr_iff: "under k r = Inr x \<longleftrightarrow> r = Inr x"
  by (auto simp: under_def split: sum.splits)

lemma at_root_Inr_iff: "at_root r = Inr x \<longleftrightarrow> r = Inr x"
  by (auto simp: at_root_def split: sum.splits)

lemma no_extra_Inr_iff: "no_extra names kvs = Inr u \<longleftrightarrow> fst ` set kvs \<subseteq> set names"
  by (auto simp: no_extra_def filter_empty_conv Let_def image_def)

lemma field_Inr_iff:
  "field kvs k d check = Inr x \<longleftrightarrow>
     (case map_of kvs k of None \<Rightarrow> d = Some x | Some v \<Rightarrow> check v = Inr x)"
  by (auto simp: field_def under_Inr_iff split: option.splits)

lemma optional_Inr_iff:
  "optional check v = Inr x \<longleftrightarrow>
     (if v = JNull then x = None else \<exists>y. check v = Inr y \<and> x = Some y)"
  by (auto simp: optional_def map_checked_Inr_iff)

lemma int_range_Inr_iff:
  "int_range P lo hi v = Inr n \<longleftrightarrow> lax_int P v = Some n \<and> lo \<le> n \<and> n \<le> hi"
  by (auto simp: int_range_def split: option.splits)

lemma len_between_Inr_iff:
  "len_between lo hi s = Inr t \<longleftrightarrow> t = s \<and> lo \<le> length s \<and> length s \<le> hi"
  by (auto simp: len_between_def)

lemma as_dict_Inr_iff: "as_dict v = Inr kvs \<longleftrightarrow> v = JDict kvs"
  by (cases v) auto

lemma as_str_Inr_iff: "as_str v = Inr s \<longleftrightarrow> v = JStr s"
  by (cases v) auto

lemmas checked_iffs = both_Inr_iff map_checked_Inr_iff under_Inr_iff at_root_Inr_iff
  no_extra_Inr_iff field_Inr_iff optional_Inr_iff int_range_Inr_iff len_between_Inr_iff
  as_dict_Inr_iff as_str_Inr_iff bind_result_Inr_iff

section \<open>Constrained names\<close>

definition resource_char :: "char \<Rightarrow> bool" where "resource_char c \<longleftrightarrow> is_lower c \<or> is_digit c"

definition label_char :: "char \<Rightarrow> bool" where "label_char c \<longleftrightarrow> c = CHR ''-'' \<or> resource_char c"

definition version_char :: "char \<Rightarrow> bool" where
  "version_char c \<longleftrightarrow> c = CHR ''-'' \<or> c = CHR ''.'' \<or> c = CHR ''_'' \<or> is_alnum_ascii c"

text \<open>\<open>strip_whitespace\<close>, then the lengths, then the pattern.\<close>

definition constrained_name :: "rx \<Rightarrow> string \<Rightarrow> rule + string" where
  "constrained_name r s =
     bind_result (len_between 1 63 (rust_trim s)) (\<lambda>t.
     if rx_match r t then Inr t else Inl PatternMismatch)"

definition resource_name_rx :: rx where
  "resource_name_rx = name_rx resource_char label_char"

definition version_name_rx :: rx where
  "version_name_rx = name_rx is_alnum_ascii version_char"

definition ResourceName :: "string \<Rightarrow> rule + string" where
  "ResourceName s = constrained_name resource_name_rx s"

definition VersionName :: "string \<Rightarrow> rule + string" where
  "VersionName s = constrained_name version_name_rx s"

definition field_str :: "(string \<Rightarrow> rule + 'a) \<Rightarrow> json \<Rightarrow> 'a checked" where
  "field_str f v = bind_result (as_str v) (\<lambda>s. at_root (f s))"

section \<open>Request models\<close>

record model_upsert =
  mu_description :: "string option"

definition ModelUpsert :: "json \<Rightarrow> model_upsert checked" where
  "ModelUpsert v =
     bind_result (as_dict v) (\<lambda>kvs.
     map_checked (\<lambda>(d, _). \<lparr> mu_description = d \<rparr>)
       (both (field kvs ''description'' (Some None) (optional (field_str (len_between 0 2000))))
             (no_extra [''description''] kvs)))"

record version_create =
  vc_runtime_image :: string
  vc_artifact_digest :: "string option"
  vc_metadata :: dict

definition validate_runtime_image :: "string \<Rightarrow> rule + string" where
  "validate_runtime_image value =
     (let value = py_strip value in
      if value = [] \<or> (\<exists>c \<in> set value. py_isspace c)
      then Inl (Rejected ''runtime_image must be a non-empty OCI image reference'')
      else Inr value)"

definition hex_digit :: "char \<Rightarrow> bool" where
  "hex_digit c \<longleftrightarrow> is_digit c \<or> 97 \<le> cp c \<and> cp c \<le> 102"

definition digest_rx :: rx where
  "digest_rx = Seq (rx_str ''sha256:'') (rx_rep 64 (Cls hex_digit))"

definition validate_artifact_digest :: "string \<Rightarrow> rule + string" where
  "validate_artifact_digest value =
     (let value = py_lower (py_strip value) in
      if \<not> rx_match digest_rx value then Inl (Rejected ''artifact_digest must be a sha256 digest'')
      else Inr value)"

definition VersionCreate :: "json \<Rightarrow> version_create checked" where
  "VersionCreate v =
     bind_result (as_dict v) (\<lambda>kvs.
     map_checked
       (\<lambda>(i, d, m, _). \<lparr> vc_runtime_image = i, vc_artifact_digest = d, vc_metadata = m \<rparr>)
       (both (field kvs ''runtime_image'' None
                (field_str (\<lambda>s. bind_result (len_between 1 512 s) validate_runtime_image)))
       (both (field kvs ''artifact_digest'' (Some None)
                (optional (field_str
                  (\<lambda>s. bind_result (len_between 0 128 s) validate_artifact_digest))))
       (both (field kvs ''metadata'' (Some []) as_dict)
             (no_extra [''runtime_image'', ''artifact_digest'', ''metadata''] kvs)))))"

subsection \<open>Kubernetes resource requests\<close>

definition resource_part_rx :: rx where
  "resource_part_rx =
     name_rx resource_char (\<lambda>c. c = CHR ''-'' \<or> resource_char c \<or> c = CHR ''.'')"

definition RESOURCE_NAME_PATTERN :: rx where
  "RESOURCE_NAME_PATTERN = Seq (Opt (Seq resource_part_rx (Chr (CHR ''/'')))) resource_part_rx"

definition one_of :: "string \<Rightarrow> rx" where
  "one_of cs = Cls (\<lambda>c. c \<in> set cs)"

definition digits1 :: rx where
  "digits1 = Seq (Cls is_digit) (Star (Cls is_digit))"

definition RESOURCE_QUANTITY_PATTERN :: rx where
  "RESOURCE_QUANTITY_PATTERN =
     Seq (Opt (one_of ''+-''))
    (Seq (Alt (Seq digits1 (Opt (Seq (Chr (CHR ''.'')) (Star (Cls is_digit)))))
              (Seq (Chr (CHR ''.'')) digits1))
         (Opt (Alt (Seq (one_of ''eE'') (Seq (Opt (one_of ''+-'')) digits1))
              (Alt (one_of ''numkKMGTPE'')
                   (Seq (one_of ''KMGTPE'') (Chr (CHR ''i'')))))))"

record deployment_resources =
  dr_requests :: "(string \<times> string) list"
  dr_limits :: "(string \<times> string) list"

text \<open>\<open>dict[str, str]\<close>: every value is a string.\<close>

fun str_values :: "dict \<Rightarrow> (string \<times> string) list checked" where
  "str_values [] = Inr []"
| "str_values ((k, v) # kvs) =
     map_checked (\<lambda>(s, r). (k, s) # r) (both (under k (as_str v)) (str_values kvs))"

fun validate_resources_loop ::
  "(string \<times> string) list \<Rightarrow> (string \<times> string) list \<Rightarrow> rule + (string \<times> string) list" where
  "validate_resources_loop [] normalized = Inr normalized"
| "validate_resources_loop ((name, quantity) # values) normalized =
     (let quantity = py_strip quantity in
      if 253 < length name \<or> \<not> rx_match RESOURCE_NAME_PATTERN name
      then Inl (Rejected (''invalid Kubernetes resource name: '' @ name))
      else if 64 < length quantity \<or> \<not> rx_match RESOURCE_QUANTITY_PATTERN quantity
      then Inl (Rejected (''invalid Kubernetes resource quantity for '' @ name))
      else validate_resources_loop values (AList.update name quantity normalized))"

definition validate_resources :: "(string \<times> string) list \<Rightarrow> rule + (string \<times> string) list" where
  "validate_resources values = validate_resources_loop values []"

definition resource_map :: "json \<Rightarrow> (string \<times> string) list checked" where
  "resource_map v =
     bind_result (as_dict v) (\<lambda>kvs.
     bind_result (str_values kvs) (\<lambda>values. at_root (validate_resources values)))"

definition DeploymentResources :: "json \<Rightarrow> deployment_resources checked" where
  "DeploymentResources v =
     bind_result (as_dict v) (\<lambda>kvs.
     map_checked (\<lambda>(r, l, _). \<lparr> dr_requests = r, dr_limits = l \<rparr>)
       (both (field kvs ''requests'' (Some []) resource_map)
       (both (field kvs ''limits'' (Some []) resource_map)
             (no_extra [''requests'', ''limits''] kvs))))"

record deployment_upsert =
  du_model :: string
  du_version :: string
  du_replicas :: int
  du_port :: int
  du_resources :: deployment_resources

definition DeploymentUpsert :: "pydantic \<Rightarrow> json \<Rightarrow> deployment_upsert checked" where
  "DeploymentUpsert P v =
     bind_result (as_dict v) (\<lambda>kvs.
     map_checked (\<lambda>(m, ver, n, p, r, _).
         \<lparr> du_model = m, du_version = ver, du_replicas = n, du_port = p, du_resources = r \<rparr>)
       (both (field kvs ''model'' None (field_str ResourceName))
       (both (field kvs ''version'' None (field_str VersionName))
       (both (field kvs ''replicas'' (Some 1) (int_range P 1 100))
       (both (field kvs ''port'' (Some 8080) (int_range P 1 65535))
       (both (field kvs ''resources'' (Some \<lparr> dr_requests = [], dr_limits = [] \<rparr>)
                DeploymentResources)
             (no_extra [''model'', ''version'', ''replicas'', ''port'', ''resources''] kvs)))))))"

definition RollbackRequest :: "json \<Rightarrow> string checked" where
  "RollbackRequest v =
     bind_result (as_dict v) (\<lambda>kvs.
     map_checked fst
       (both (field kvs ''version'' None (field_str VersionName)) (no_extra [''version''] kvs)))"

definition AsyncInferenceRequest :: "json \<Rightarrow> string checked" where
  "AsyncInferenceRequest v =
     bind_result (as_dict v) (\<lambda>kvs.
     map_checked fst
       (both (field kvs ''text'' None (field_str (len_between 1 4096))) (no_extra [''text''] kvs)))"

section \<open>Response models\<close>

text \<open>A field with an alias under \<open>populate_by_name\<close>: the alias first, then the name.\<close>

definition alias_field ::
  "dict \<Rightarrow> string \<Rightarrow> string \<Rightarrow> 'a \<Rightarrow> (json \<Rightarrow> 'a checked) \<Rightarrow> 'a checked" where
  "alias_field kvs alias name dflt check =
     (case map_of kvs alias of
        Some v \<Rightarrow> under alias (check v)
      | None \<Rightarrow> field kvs name (Some dflt) check)"

definition any_int :: "pydantic \<Rightarrow> json \<Rightarrow> int checked" where
  "any_int P v = (case lax_int P v of None \<Rightarrow> Inl [([], WrongType)] | Some n \<Rightarrow> Inr n)"

definition any_datetime :: "pydantic \<Rightarrow> json \<Rightarrow> string checked" where
  "any_datetime P v = (case lax_datetime P v of None \<Rightarrow> Inl [([], WrongType)] | Some t \<Rightarrow> Inr t)"

fun list_items :: "(json \<Rightarrow> 'a checked) \<Rightarrow> nat \<Rightarrow> json list \<Rightarrow> 'a list checked" where
  "list_items check i [] = Inr []"
| "list_items check i (v # vs) =
     map_checked (\<lambda>(x, xs). x # xs)
       (both (under (show_nat i) (check v)) (list_items check (Suc i) vs))"

fun list_of :: "(json \<Rightarrow> 'a checked) \<Rightarrow> json \<Rightarrow> 'a list checked" where
  "list_of check (JList vs) = list_items check 0 vs"
| "list_of check _ = Inl [([], WrongType)]"

record deployment_spec_read =
  sr_model :: string
  sr_version :: string
  sr_runtime_image :: string
  sr_replicas :: int
  sr_port :: int
  sr_resources :: deployment_resources

record deployment_condition =
  co_type :: string
  co_status :: string
  co_observed_generation :: int
  co_reason :: string
  co_message :: string
  co_last_transition_time :: "string option"

definition DeploymentCondition :: "pydantic \<Rightarrow> json \<Rightarrow> deployment_condition checked" where
  "DeploymentCondition P v =
     bind_result (as_dict v) (\<lambda>kvs.
     map_checked (\<lambda>(t, s, g, r, m, l).
         \<lparr> co_type = t, co_status = s, co_observed_generation = g, co_reason = r,
           co_message = m, co_last_transition_time = l \<rparr>)
       (both (field kvs ''type'' None as_str)
       (both (field kvs ''status'' None as_str)
       (both (alias_field kvs ''observedGeneration'' ''observed_generation'' 0 (any_int P))
       (both (field kvs ''reason'' (Some []) as_str)
       (both (field kvs ''message'' (Some []) as_str)
             (alias_field kvs ''lastTransitionTime'' ''last_transition_time'' None
                (optional (any_datetime P)))))))))"

record deployment_status =
  ds_observed_generation :: int
  ds_desired_replicas :: int
  ds_ready_replicas :: int
  ds_active_model :: string
  ds_active_version :: string
  ds_endpoint :: string
  ds_conditions :: "deployment_condition list"

definition DeploymentStatus :: "pydantic \<Rightarrow> json \<Rightarrow> deployment_status checked" where
  "DeploymentStatus P v =
     bind_result (as_dict v) (\<lambda>kvs.
     map_checked (\<lambda>(g, d, r, m, ver, e, cs).
         \<lparr> ds_observed_generation = g, ds_desired_replicas = d, ds_ready_replicas = r,
           ds_active_model = m, ds_active_version = ver, ds_endpoint = e, ds_conditions = cs \<rparr>)
       (both (alias_field kvs ''observedGeneration'' ''observed_generation'' 0 (any_int P))
       (both (alias_field kvs ''desiredReplicas'' ''desired_replicas'' 0 (any_int P))
       (both (alias_field kvs ''readyReplicas'' ''ready_replicas'' 0 (any_int P))
       (both (alias_field kvs ''activeModel'' ''active_model'' [] as_str)
       (both (alias_field kvs ''activeVersion'' ''active_version'' [] as_str)
       (both (field kvs ''endpoint'' (Some []) as_str)
             (field kvs ''conditions'' (Some []) (list_of (DeploymentCondition P))))))))))"

record deployment_read =
  rd_name :: string
  rd_namespace :: string
  rd_generation :: int
  rd_resource_version :: string
  rd_created_at :: "string option"
  rd_spec :: deployment_spec_read
  rd_status :: deployment_status

record async_inference_job =
  aj_job_id :: string
  aj_status :: string
  aj_result :: "dict option"
  aj_error :: "string option"

text \<open>\<open>DeploymentResources.model_dump()\<close>.\<close>

definition dump_map :: "(string \<times> string) list \<Rightarrow> json" where
  "dump_map kvs = JDict (map (\<lambda>(k, v). (k, JStr v)) kvs)"

definition dump_resources :: "deployment_resources \<Rightarrow> json" where
  "dump_resources r =
     JDict [(''requests'', dump_map (dr_requests r)), (''limits'', dump_map (dr_limits r))]"

section \<open>What the validators accept\<close>

lemma label_char_class: "label_char c \<Longrightarrow> \<not> rust_isspace c \<and> c \<noteq> CHR ''/''"
  by (auto simp: label_char_def resource_char_def is_lower_def is_digit_def rust_isspace_def)

lemma version_char_class: "version_char c \<Longrightarrow> \<not> rust_isspace c"
  by (auto simp: version_char_def is_alnum_ascii_def is_lower_def is_upper_def is_digit_def
      rust_isspace_def)

text \<open>A DNS label, and a version label: what the two name types stand for.\<close>

definition dns_label :: "string \<Rightarrow> bool" where
  "dns_label t \<longleftrightarrow> 1 \<le> length t \<and> length t \<le> 63 \<and> resource_char (hd t) \<and> resource_char (last t) \<and>
     (\<forall>c \<in> set t. label_char c)"

definition version_label :: "string \<Rightarrow> bool" where
  "version_label t \<longleftrightarrow> 1 \<le> length t \<and> length t \<le> 63 \<and> is_alnum_ascii (hd t) \<and>
     is_alnum_ascii (last t) \<and> (\<forall>c \<in> set t. version_char c)"

lemma resource_name_lang:
  "rx_match resource_name_rx s \<longleftrightarrow>
     s \<noteq> [] \<and> resource_char (hd s) \<and> resource_char (last s) \<and> (\<forall>c \<in> set s. label_char c)"
  unfolding rx_match_lang resource_name_rx_def by (rule name_rx_lang) (simp add: label_char_def)

lemma version_name_lang:
  "rx_match version_name_rx s \<longleftrightarrow>
     s \<noteq> [] \<and> is_alnum_ascii (hd s) \<and> is_alnum_ascii (last s) \<and> (\<forall>c \<in> set s. version_char c)"
  unfolding rx_match_lang version_name_rx_def by (rule name_rx_lang) (simp add: version_char_def)

lemma constrained_name_iff:
  "constrained_name r s = Inr t \<longleftrightarrow>
     t = rust_trim s \<and> 1 \<le> length t \<and> length t \<le> 63 \<and> rx_match r t"
  by (auto simp: constrained_name_def bind_result_Inr_iff len_between_Inr_iff)

lemma ResourceName_iff: "ResourceName s = Inr t \<longleftrightarrow> t = rust_trim s \<and> dns_label t"
  unfolding ResourceName_def constrained_name_iff resource_name_lang dns_label_def
  by (metis length_0_conv not_one_le_zero)

lemma VersionName_iff: "VersionName s = Inr t \<longleftrightarrow> t = rust_trim s \<and> version_label t"
  unfolding VersionName_def constrained_name_iff version_name_lang version_label_def
  by (metis length_0_conv not_one_le_zero)

lemma dns_label_trim: "dns_label t \<Longrightarrow> rust_trim t = t"
  unfolding rust_trim_def dns_label_def by (intro strip_by_id) (blast dest: label_char_class)

lemma version_label_trim: "version_label t \<Longrightarrow> rust_trim t = t"
  unfolding rust_trim_def version_label_def by (intro strip_by_id) (blast dest: version_char_class)

lemma dns_label_no_slash: "dns_label t \<Longrightarrow> CHR ''/'' \<notin> set t"
  unfolding dns_label_def by (blast dest: label_char_class)

text \<open>Every word of a pattern is made of the characters of its classes.\<close>

primrec rx_within :: "(char \<Rightarrow> bool) \<Rightarrow> rx \<Rightarrow> bool" where
  "rx_within p Empty = True"
| "rx_within p Eps = True"
| "rx_within p (Cls q) = (\<forall>c. q c \<longrightarrow> p c)"
| "rx_within p (Seq r q) = (rx_within p r \<and> rx_within p q)"
| "rx_within p (Alt r q) = (rx_within p r \<and> rx_within p q)"
| "rx_within p (Star r) = rx_within p r"

lemma rx_within_lang: "rx_lang r s \<Longrightarrow> rx_within p r \<Longrightarrow> \<forall>c \<in> set s. p c"
  by (induction rule: rx_lang.induct) auto

lemma quantity_no_space:
  assumes "rx_match RESOURCE_QUANTITY_PATTERN q"
  shows "py_strip q = q \<and> q \<noteq> []"
proof
  have "rx_within (\<lambda>c. \<not> py_isspace c) RESOURCE_QUANTITY_PATTERN"
    by (auto simp: RESOURCE_QUANTITY_PATTERN_def one_of_def digits1_def py_isspace_def is_digit_def)
  then show "py_strip q = q"
    using rx_within_lang assms unfolding rx_match_lang py_strip_def by (intro strip_by_id) blast
  show "q \<noteq> []" using assms
    by (auto simp: rx_match_def RESOURCE_QUANTITY_PATTERN_def digits1_def)
qed

definition valid_resources :: "(string \<times> string) list \<Rightarrow> bool" where
  "valid_resources r \<longleftrightarrow> distinct (map fst r) \<and>
     (\<forall>(n, q) \<in> set r. length n \<le> 253 \<and> rx_match RESOURCE_NAME_PATTERN n \<and>
        length q \<le> 64 \<and> rx_match RESOURCE_QUANTITY_PATTERN q)"

lemma valid_resources_update:
  assumes "valid_resources r" and "length n \<le> 253" "rx_match RESOURCE_NAME_PATTERN n"
    and "length q \<le> 64" "rx_match RESOURCE_QUANTITY_PATTERN q"
  shows "valid_resources (AList.update n q r)"
proof -
  have "set (AList.update n q r) \<subseteq> insert (n, q) (set r)" by (induction r) auto
  then show ?thesis using assms unfolding valid_resources_def
    by (auto simp: distinct_update)
qed

lemma validate_resources_loop_valid:
  "validate_resources_loop vals r = Inr r' \<Longrightarrow> valid_resources r \<Longrightarrow> valid_resources r'"
  by (induction vals r rule: validate_resources_loop.induct)
    (auto simp: Let_def valid_resources_update split: if_splits)

lemma validate_resources_loop_id:
  "valid_resources (r @ vals) \<Longrightarrow> validate_resources_loop vals r = Inr (r @ vals)"
proof (induction vals arbitrary: r)
  case (Cons nq vals)
  obtain n q where nq: "nq = (n, q)" by (cases nq)
  have f: "n \<notin> fst ` set r" and ok: "length n \<le> 253" "rx_match RESOURCE_NAME_PATTERN n"
    "length q \<le> 64" "rx_match RESOURCE_QUANTITY_PATTERN q"
    using Cons.prems by (auto simp: valid_resources_def nq)
  show ?case using Cons.IH [of "r @ [(n, q)]"] Cons.prems ok quantity_no_space [OF ok(4)]
    by (simp add: nq alist_update_fresh [OF f])
qed simp

lemma validate_resources_valid: "validate_resources vs = Inr r \<Longrightarrow> valid_resources r"
  unfolding validate_resources_def
  by (erule validate_resources_loop_valid) (simp add: valid_resources_def)

lemma validate_resources_id: "valid_resources r \<Longrightarrow> validate_resources r = Inr r"
  using validate_resources_loop_id [of "[]" r] by (simp add: validate_resources_def)

lemma str_values_dump: "str_values (map (\<lambda>(k, v). (k, JStr v)) kvs) = Inr kvs"
  by (induction kvs) (auto simp: map_checked_Inr_iff both_Inr_iff under_Inr_iff)

lemma resource_map_dump: "valid_resources r \<Longrightarrow> resource_map (dump_map r) = Inr r"
  by (simp add: resource_map_def dump_map_def str_values_dump validate_resources_id at_root_def)

lemma resource_map_valid: "resource_map v = Inr r \<Longrightarrow> valid_resources r"
  by (auto simp: resource_map_def checked_iffs dest: validate_resources_valid)

definition resources_ok :: "deployment_resources \<Rightarrow> bool" where
  "resources_ok r \<longleftrightarrow> valid_resources (dr_requests r) \<and> valid_resources (dr_limits r)"

lemma valid_resources_Nil [simp]: "valid_resources []"
  by (simp add: valid_resources_def)

lemma resources_ok_Nil [simp]: "resources_ok \<lparr> dr_requests = [], dr_limits = [] \<rparr>"
  by (simp add: resources_ok_def)

lemma DeploymentResources_ok: "DeploymentResources v = Inr r \<Longrightarrow> resources_ok r"
  by (auto simp: DeploymentResources_def resources_ok_def checked_iffs dest: resource_map_valid
      split: option.splits)

lemma DeploymentResources_dump: "resources_ok r \<Longrightarrow> DeploymentResources (dump_resources r) = Inr r"
  by (auto simp: DeploymentResources_def dump_resources_def resources_ok_def checked_iffs
      resource_map_dump)

definition upsert_ok :: "deployment_upsert \<Rightarrow> bool" where
  "upsert_ok d \<longleftrightarrow> dns_label (du_model d) \<and> version_label (du_version d) \<and>
     1 \<le> du_replicas d \<and> du_replicas d \<le> 100 \<and> 1 \<le> du_port d \<and> du_port d \<le> 65535 \<and>
     resources_ok (du_resources d)"

lemma DeploymentUpsert_ok: "DeploymentUpsert P v = Inr d \<Longrightarrow> upsert_ok d"
  by (auto simp: DeploymentUpsert_def upsert_ok_def checked_iffs field_str_def ResourceName_iff
      VersionName_iff dest: DeploymentResources_ok split: option.splits)

lemma digest_form:
  assumes "rx_match digest_rx t"
  shows "\<exists>xs. t = ''sha256:'' @ xs \<and> length xs = 64 \<and> (\<forall>c \<in> set xs. hex_digit c)"
  using assms
  by (auto simp: rx_match_lang digest_rx_def rx_lang_simps(4) rx_rep_cls rx_str_lang
      simp del: rx_rep.simps rx_str.simps)

lemma digest_normal:
  assumes "rx_match digest_rx t"
  shows "py_strip t = t \<and> py_lower t = t \<and> length t = 71"
proof -
  have w: "rx_within (\<lambda>c. \<not> py_isspace c \<and> lower_char c = c) (rx_str ''sha256:'')"
    by (simp add: py_isspace_def lower_char_def is_upper_def)
  have c: "\<not> py_isspace c \<and> lower_char c = c" if "hex_digit c" for c
    using that by (auto simp: hex_digit_def is_digit_def py_isspace_def lower_char_def is_upper_def)
  obtain xs where t: "t = ''sha256:'' @ xs" and l: "length xs = 64" and h: "\<forall>c \<in> set xs. hex_digit c"
    using digest_form [OF assms] by blast
  have all: "\<forall>c \<in> set t. \<not> py_isspace c \<and> lower_char c = c"
    using rx_within_lang [of "rx_str ''sha256:''" "''sha256:''"] w h c
    unfolding rx_str_lang t set_append by blast
  show ?thesis
    unfolding py_strip_def py_lower_def using all l by (auto simp: strip_by_id t map_idI)
qed

lemma strip_by_no_longer: "length (strip_by p s) \<le> length s"
proof -
  have "length (strip_by p s) \<le> length (dropWhile p s)"
    unfolding strip_by_def using length_dropWhile_le [of p "rev (dropWhile p s)"] by simp
  also have "\<dots> \<le> length s" by (rule length_dropWhile_le)
  finally show ?thesis .
qed

definition image_ok :: "string \<Rightarrow> bool" where
  "image_ok i \<longleftrightarrow> i \<noteq> [] \<and> length i \<le> 512 \<and> (\<forall>c \<in> set i. \<not> py_isspace c)"

lemma runtime_image_ok:
  assumes "validate_runtime_image s = Inr i" and "length s \<le> 512"
  shows "image_ok i"
proof -
  have "length i \<le> length s"
    using assms(1) strip_by_no_longer [of py_isspace s]
    by (auto simp: validate_runtime_image_def Let_def py_strip_def split: if_splits)
  then show ?thesis using assms
    by (auto simp: validate_runtime_image_def Let_def image_ok_def split: if_splits)
qed

lemma runtime_image_id: "image_ok i \<Longrightarrow> validate_runtime_image i = Inr i"
  by (auto simp: validate_runtime_image_def Let_def py_strip_def image_ok_def strip_by_id)

lemma artifact_digest_ok: "validate_artifact_digest s = Inr d \<Longrightarrow> rx_match digest_rx d"
  by (auto simp: validate_artifact_digest_def Let_def split: if_splits)

lemma artifact_digest_id: "rx_match digest_rx d \<Longrightarrow> validate_artifact_digest d = Inr d"
  using digest_normal [of d] by (simp add: validate_artifact_digest_def)

definition dump_version :: "version_create \<Rightarrow> json" where
  "dump_version c =
     JDict [(''runtime_image'', JStr (vc_runtime_image c)),
            (''artifact_digest'', (case vc_artifact_digest c of None \<Rightarrow> JNull | Some d \<Rightarrow> JStr d)),
            (''metadata'', JDict (vc_metadata c))]"

lemma VersionCreate_ok:
  assumes "VersionCreate v = Inr c"
  shows "image_ok (vc_runtime_image c)"
    and "vc_artifact_digest c = Some d \<Longrightarrow> rx_match digest_rx d"
  using assms
  by (auto simp: VersionCreate_def checked_iffs field_str_def intro: runtime_image_ok
      dest: artifact_digest_ok split: option.splits if_splits)

text \<open>Names, versions and digests hold no NUL; an image may.\<close>

lemma no_nul_all: "(\<forall>c \<in> set t. p c) \<Longrightarrow> \<not> p (CHR 0x00) \<Longrightarrow> no_nul t"
  by (auto simp: no_nul_def)

lemma ResourceName_text: "ResourceName s = Inr n \<Longrightarrow> length n \<le> 63 \<and> no_nul n"
proof -
  have "\<not> label_char (CHR 0x00)" by code_simp
  then show "ResourceName s = Inr n \<Longrightarrow> length n \<le> 63 \<and> no_nul n"
    by (auto simp: ResourceName_iff dns_label_def intro: no_nul_all)
qed

lemma VersionName_text: "VersionName s = Inr v \<Longrightarrow> length v \<le> 63 \<and> no_nul v"
proof -
  have "\<not> version_char (CHR 0x00)" by code_simp
  then show "VersionName s = Inr v \<Longrightarrow> length v \<le> 63 \<and> no_nul v"
    by (auto simp: VersionName_iff version_label_def intro: no_nul_all)
qed

lemma digest_text:
  assumes "rx_match digest_rx d"
  shows "length d \<le> 128 \<and> no_nul d"
proof -
  obtain xs where "d = ''sha256:'' @ xs" "length xs = 64" "\<forall>c \<in> set xs. hex_digit c"
    using digest_form [OF assms] by blast
  moreover have "\<not> hex_digit (CHR 0x00)" by code_simp
  ultimately show ?thesis by (auto simp: no_nul_def)
qed

section \<open>Properties\<close>

text \<open>
  The two name types accept exactly the DNS labels and the version labels: after trimming
  white space, 1 to 63 characters, a letter or digit at both ends (lower case for resource
  names), and only the permitted characters between; the accepted value is the trimmed text, so
  validating it again gives the same name.
\<close>

theorem names_accepted:
  "(ResourceName s = Inr t \<longleftrightarrow> t = rust_trim s \<and> dns_label t) \<and>
   (VersionName s = Inr t \<longleftrightarrow> t = rust_trim s \<and> version_label t) \<and>
   (dns_label t = (ResourceName t = Inr t)) \<and> (version_label t = (VersionName t = Inr t))"
  using dns_label_trim version_label_trim by (auto simp: ResourceName_iff VersionName_iff)

text \<open>
  A version body that validates is in normal form: its image reference is non-empty, at most
  512 characters and free of white space, its digest (when given) is \<open>sha256:\<close> and 64 lower-case
  hexadecimal digits, and submitting the normalised body again gives the same values.
\<close>

theorem version_create_normal:
  assumes "VersionCreate v = Inr c"
  shows "VersionCreate (dump_version c) = Inr c \<and> image_ok (vc_runtime_image c) \<and>
     (case vc_artifact_digest c of None \<Rightarrow> True
      | Some d \<Rightarrow> \<exists>xs. d = ''sha256:'' @ xs \<and> length xs = 64 \<and> filter hex_digit xs = xs)"
proof (intro conjI)
  show i: "image_ok (vc_runtime_image c)" by (rule VersionCreate_ok(1) [OF assms])
  show "VersionCreate (dump_version c) = Inr c"
    using i VersionCreate_ok(2) [OF assms] digest_normal runtime_image_id [OF i]
    by (cases c) (auto simp: VersionCreate_def dump_version_def checked_iffs field_str_def
        artifact_digest_id image_ok_def Suc_le_eq split: option.splits)
  show "case vc_artifact_digest c of None \<Rightarrow> True
      | Some d \<Rightarrow> \<exists>xs. d = ''sha256:'' @ xs \<and> length xs = 64 \<and> filter hex_digit xs = xs"
    using VersionCreate_ok(2) [OF assms]
    by (auto simp: rx_match_lang digest_rx_def rx_lang_simps(4) rx_rep_cls rx_str_lang
        filter_id_conv simp del: rx_rep.simps rx_str.simps split: option.splits)
qed

definition sample_version_body :: json where
  "sample_version_body =
     JDict [(''runtime_image'', JStr '' registry/sentiment:1 ''), (''metadata'', JDict [])]"

theorem version_create_normal_witness:
  "VersionCreate sample_version_body =
     Inr \<lparr> vc_runtime_image = ''registry/sentiment:1'', vc_artifact_digest = None, vc_metadata = [] \<rparr>
   \<and> image_ok ''registry/sentiment:1''"
proof -
  have e: "VersionCreate sample_version_body =
     Inr \<lparr> vc_runtime_image = ''registry/sentiment:1'', vc_artifact_digest = None, vc_metadata = [] \<rparr>"
    by code_simp
  show ?thesis using version_create_normal [OF e] e by simp
qed

end
