(* ===== verification/Errors.thy ===== *)
theory Errors
  imports Schemas
begin

text \<open>
  The domain errors of \<open>app/errors.py\<close> and their serialisation. Every exception that leaves a
  route is a value of \<open>exc\<close>; the installed handlers turn the ones they know into the error
  envelope, and any other exception is answered by the framework with a bare status 500.
\<close>

record api_error =
  ae_status_code :: int
  ae_code :: string
  ae_message :: string
  ae_details :: json

abbreviation ApiError :: "int \<Rightarrow> string \<Rightarrow> string \<Rightarrow> api_error" where
  "ApiError s c m \<equiv> \<lparr> ae_status_code = s, ae_code = c, ae_message = m, ae_details = JNull \<rparr>"

datatype exc =
    ApiExc api_error
  | ValidationExc "violation list"
  | HttpExc int json
  | DatabaseExc
  | PyExc py_error

type_synonym http_response = "int \<times> json"

definition error_response ::
  "string option \<Rightarrow> int \<Rightarrow> string \<Rightarrow> string \<Rightarrow> json \<Rightarrow> http_response" where
  "error_response request_id status code message details =
     (status,
      JDict [(''error'', JDict
        [(''code'', JStr code),
         (''message'', JStr message),
         (''request_id'', JStr (case request_id of None \<Rightarrow> [] | Some r \<Rightarrow> r)),
         (''details'', details)])])"

definition handle_api_error :: "string option \<Rightarrow> api_error \<Rightarrow> http_response" where
  "handle_api_error rid e =
     error_response rid (ae_status_code e) (ae_code e) (ae_message e) (ae_details e)"

text \<open>
  Pydantic renders each violation as a dict (\<open>render\<close>); the values of its \<open>ctx\<close> entry, when there
  are any, are replaced by their text (\<open>str\<close>).
\<close>

definition normalize_error :: "(json \<Rightarrow> string) \<Rightarrow> dict \<Rightarrow> dict" where
  "normalize_error str error =
     (case map_of error ''ctx'' of
        Some (JDict context) \<Rightarrow>
          if context = [] then error
          else AList.update ''ctx'' (JDict (map (\<lambda>(k, v). (k, JStr (str v))) context)) error
      | _ \<Rightarrow> error)"

text \<open>
  \<open>JSONResponse\<close> encodes its content without NaN and infinities and raises \<open>ValueError\<close> for one. Each
  violation repeats the input it is about, and the decoder of request bodies accepts these values, so
  the handler of validation errors can raise. The floats of \<open>render\<close> are the texts of \<open>float.__repr__\<close>;
  an input that has no JSON form at all, such as the bytes of an undeclared body, stands for a float
  that cannot be encoded.
\<close>

fun encodable :: "json \<Rightarrow> bool" where
  "encodable (JFloat t) \<longleftrightarrow> t \<notin> {''nan'', ''inf'', ''-inf''}"
| "encodable (JList vs) \<longleftrightarrow> (\<forall>v \<in> set vs. encodable v)"
| "encodable (JDict kvs) \<longleftrightarrow> (\<forall>kv \<in> set kvs. encodable (snd kv))"
| "encodable v \<longleftrightarrow> True"

definition handle_validation_error ::
  "(json \<Rightarrow> string) \<Rightarrow> (violation \<Rightarrow> dict) \<Rightarrow> string option \<Rightarrow> violation list \<Rightarrow> py_error + http_response" where
  "handle_validation_error str render rid errors =
     (let details = JList (map (\<lambda>e. JDict (normalize_error str (render e))) errors) in
      if encodable details
      then Inr (error_response rid 422 ''validation_error'' ''The request did not satisfy the API schema.'' details)
      else Inl ValueError)"

definition handle_http_error :: "string option \<Rightarrow> int \<Rightarrow> json \<Rightarrow> http_response" where
  "handle_http_error rid status detail =
     error_response rid status ''http_error''
       (case detail of JStr m \<Rightarrow> m | _ \<Rightarrow> ''The request failed.'') detail"

definition handle_database_error :: "string option \<Rightarrow> http_response" where
  "handle_database_error rid =
     error_response rid 503 ''database_unavailable'' ''The model registry database is unavailable.''
       JNull"

text \<open>The response to an exception, or the exception that leaves the application.\<close>

definition handle_exception ::
  "(json \<Rightarrow> string) \<Rightarrow> (violation \<Rightarrow> dict) \<Rightarrow> string option \<Rightarrow> exc \<Rightarrow> py_error + http_response" where
  "handle_exception str render rid e =
     (case e of
        ApiExc a \<Rightarrow> Inr (handle_api_error rid a)
      | ValidationExc vs \<Rightarrow> handle_validation_error str render rid vs
      | HttpExc status detail \<Rightarrow> Inr (handle_http_error rid status detail)
      | DatabaseExc \<Rightarrow> Inr (handle_database_error rid)
      | PyExc p \<Rightarrow> Inl p)"

text \<open>The status and the error code of an exception: what a client distinguishes errors by.\<close>

fun error_key :: "exc \<Rightarrow> int \<times> string" where
  "error_key (ApiExc a) = (ae_status_code a, ae_code a)"
| "error_key (ValidationExc vs) = (422, ''validation_error'')"
| "error_key (HttpExc s d) = (s, ''http_error'')"
| "error_key DatabaseExc = (503, ''database_unavailable'')"
| "error_key (PyExc e) = (500, [])"

fun envelope_key :: "http_response \<Rightarrow> int \<times> string" where
  "envelope_key (status, body) =
     (status,
      (case bind_result (getitem body ''error'') (\<lambda>e. getitem e ''code'') of
         Inr (JStr c) \<Rightarrow> c | _ \<Rightarrow> []))"

text \<open>A schema check whose failure is the request's validation error.\<close>

definition checked :: "'a checked \<Rightarrow> exc + 'a" where
  "checked c = (case c of Inl vs \<Rightarrow> Inl (ValidationExc vs) | Inr x \<Rightarrow> Inr x)"

lemma checked_simps [simp]: "checked (Inl vs) = Inl (ValidationExc vs)" "checked (Inr x) = Inr x"
  by (simp_all add: checked_def)

lemma checked_Inr_iff: "checked c = Inr x \<longleftrightarrow> c = Inr x"
  by (cases c) auto

lemma handle_exception_key:
  "handle_exception str render rid e = Inr r \<Longrightarrow> envelope_key r = error_key e"
  by (cases e)
    (auto simp: handle_exception_def handle_api_error_def handle_validation_error_def
      handle_http_error_def handle_database_error_def error_response_def Let_def split: if_splits)

lemma handle_exception_Inl:
  "handle_exception str render rid e = Inl p \<Longrightarrow> e = PyExc p \<or>
     (\<exists>vs. e = ValidationExc vs \<and> \<not> encodable (JList (map (\<lambda>e. JDict (normalize_error str (render e))) vs)))"
  by (cases e) (auto simp: handle_exception_def handle_validation_error_def Let_def split: if_splits)

lemma normalize_encodable:
  assumes "encodable (JDict error)"
  shows "encodable (JDict (normalize_error str error))"
proof -
  have "v \<in> set (map snd xs) \<or> v = y" if "(k, v) \<in> set (AList.update x y xs)" for k v x y and xs :: dict
    using that by (induction xs) (force split: if_splits)+
  then show ?thesis
    using assms by (fastforce simp: normalize_error_def split: option.splits json.splits)
qed

end
