(* ===== verification/Sql_Server.thy ===== *)
theory Sql_Server
  imports Errors
begin

text \<open>
  The relational database behind the registry. Its state is opaque: the program reaches it only
  through the operations of the record \<open>sql\<close>, each of which is one statement or one committed
  transaction, and relies on the laws of the locale \<open>sql_server\<close>, which state what the tables of
  \<open>app/db_models.py\<close> promise: primary key, unique and foreign key constraints, server-side time
  stamps, and which values the columns refuse. An in-memory database with a clock interprets the locale.
\<close>

type_synonym metadata = "(string \<times> json) list"

record model_row =
  m_name :: string
  m_description :: "string option"
  m_created_at :: rat
  m_updated_at :: rat

record version_row =
  v_id :: nat
  v_model_name :: string
  v_version :: string
  v_runtime_image :: string
  v_artifact_digest :: "string option"
  v_metadata :: metadata
  v_created_at :: rat

text \<open>How a transaction ends: committed, refused by a constraint, or refused for another reason.\<close>

datatype commit = Committed | IntegrityError | OtherSqlError

text \<open>
  The statements. A scan gives the rows of a table in whatever order the server finds them; \<open>collate\<close> is
  the sort key of a text in the database's collation.
\<close>

record 's sql =
  sel_model :: "string \<Rightarrow> 's \<Rightarrow> model_row option"
  sel_version :: "string \<Rightarrow> string \<Rightarrow> 's \<Rightarrow> version_row option"
  scan_models :: "'s \<Rightarrow> model_row list"
  scan_versions :: "'s \<Rightarrow> version_row list"
  collate :: "string \<Rightarrow> string"
  ins_model :: "string \<Rightarrow> string option \<Rightarrow> 's \<Rightarrow> commit \<times> 's"
  ins_version ::
    "string \<Rightarrow> string \<Rightarrow> string \<Rightarrow> string option \<Rightarrow> metadata \<Rightarrow> 's \<Rightarrow> commit \<times> 's"
  upd_model :: "string \<Rightarrow> string option \<Rightarrow> 's \<Rightarrow> commit \<times> 's"

text \<open>\<open>ORDER BY\<close>, \<open>LIMIT\<close> and \<open>OFFSET\<close> of a query.\<close>

definition order_limit :: "('r \<Rightarrow> string) \<Rightarrow> int \<Rightarrow> int \<Rightarrow> 'r list \<Rightarrow> 'r list" where
  "order_limit key limit offset rs = take (nat limit) (drop (nat offset) (sort_key key rs))"

type_synonym models = "string \<rightharpoonup> model_row"
type_synonym versions = "string \<times> string \<rightharpoonup> version_row"

text \<open>
  The values the columns hold. PostgreSQL stores no NUL in a text, nothing longer than the column, and
  no JSON document with NaN or an infinity; which documents it stores is the parameter \<open>storable_json\<close>
  of the locale below.
\<close>

fun absent_or :: "('a \<Rightarrow> bool) \<Rightarrow> 'a option \<Rightarrow> bool" where
  "absent_or p None \<longleftrightarrow> True"
| "absent_or p (Some x) \<longleftrightarrow> p x"

definition storable_model :: "string \<Rightarrow> string option \<Rightarrow> bool" where
  "storable_model n d \<longleftrightarrow> length n \<le> 63 \<and> no_nul n \<and> absent_or no_nul d"

definition storable_version ::
  "(metadata \<Rightarrow> bool) \<Rightarrow> string \<Rightarrow> string \<Rightarrow> string \<Rightarrow> string option \<Rightarrow> metadata \<Rightarrow> bool" where
  "storable_version storable_json n v i a m \<longleftrightarrow>
     length n \<le> 63 \<and> no_nul n \<and> length v \<le> 63 \<and> no_nul v \<and> length i \<le> 512 \<and> no_nul i \<and>
     absent_or (\<lambda>d. length d \<le> 128 \<and> no_nul d) a \<and> storable_json m"

text \<open>
  \<open>mview\<close> and \<open>vview\<close> are the two tables by their keys and \<open>clock\<close> is the time of the server. A write that
  is refused changes nothing: a constraint refuses it with an integrity error; another error is
  possible only for a value that cannot be stored, or a row that is gone.
\<close>

locale sql_server =
  fixes D :: "'s sql"
    and mview :: "'s \<Rightarrow> models" and vview :: "'s \<Rightarrow> versions" and clock :: "'s \<Rightarrow> rat"
    and storable_json :: "metadata \<Rightarrow> bool"
  assumes sel_model [view_simps]: "sel_model D n s = mview s n"
    and sel_version [view_simps]: "sel_version D n v s = vview s (n, v)"
    and refused: "ins_model D n d s = (c, s') \<Longrightarrow> c \<noteq> Committed \<Longrightarrow> s' = s"
      "ins_version D n v i a m s = (c, s') \<Longrightarrow> c \<noteq> Committed \<Longrightarrow> s' = s"
      "upd_model D n d s = (c, s') \<Longrightarrow> c \<noteq> Committed \<Longrightarrow> s' = s"
    and stored: "storable_model n d \<Longrightarrow> fst (ins_model D n d s) \<noteq> OtherSqlError"
      "storable_version storable_json n v i a m \<Longrightarrow> fst (ins_version D n v i a m s) \<noteq> OtherSqlError"
      "storable_model n d \<Longrightarrow> mview s n \<noteq> None \<Longrightarrow> fst (upd_model D n d s) = Committed"
    and ins_model_taken: "mview s n \<noteq> None \<Longrightarrow> fst (ins_model D n d s) \<noteq> Committed"
    and ins_model_fresh: "mview s n = None \<Longrightarrow> fst (ins_model D n d s) \<noteq> IntegrityError"
    and ins_model_row: "ins_model D n d s = (Committed, s') \<Longrightarrow>
      vview s' = vview s \<and>
      mview s' = (mview s)(n \<mapsto> \<lparr> m_name = n, m_description = d,
                                m_created_at = clock s, m_updated_at = clock s \<rparr>)"
    and ins_version_taken:
      "vview s (n, v) \<noteq> None \<or> mview s n = None \<Longrightarrow> fst (ins_version D n v i a m s) \<noteq> Committed"
    and ins_version_fresh:
      "vview s (n, v) = None \<Longrightarrow> mview s n \<noteq> None \<Longrightarrow> fst (ins_version D n v i a m s) \<noteq> IntegrityError"
    and ins_version_row: "ins_version D n v i a m s = (Committed, s') \<Longrightarrow>
      mview s' = mview s \<and>
      (\<exists>k. vview s' = (vview s)((n, v) \<mapsto>
         \<lparr> v_id = k, v_model_name = n, v_version = v, v_runtime_image = i, v_artifact_digest = a,
           v_metadata = m, v_created_at = clock s \<rparr>))"
    and upd_model_missing: "mview s n = None \<Longrightarrow> fst (upd_model D n d s) \<noteq> Committed"
    and upd_model_row: "mview s n = Some r \<Longrightarrow> upd_model D n d s = (Committed, s') \<Longrightarrow>
      vview s' = vview s \<and>
      mview s' = (mview s)(n \<mapsto> r\<lparr> m_description := d, m_updated_at := clock s \<rparr>)"
    and keys: "mview s n = Some r \<Longrightarrow> m_name r = n"
      "vview s (n, v) = Some q \<Longrightarrow> v_model_name q = n \<and> v_version q = v"
    and scans: "distinct (scan_models D s)" "set (scan_models D s) = ran (mview s)"
      "distinct (scan_versions D s)" "set (scan_versions D s) = ran (vview s)"
    and collate_inj: "inj (collate D)"

section \<open>An in-memory database\<close>

record mem_db =
  tab_models :: "model_row list"
  tab_versions :: "version_row list"
  db_clock :: rat

definition keyed :: "('r \<Rightarrow> 'k) \<Rightarrow> 'r list \<Rightarrow> ('k \<times> 'r) list" where
  "keyed key rs = map (\<lambda>r. (key r, r)) rs"

abbreviation version_key :: "version_row \<Rightarrow> string \<times> string" where
  "version_key r \<equiv> (v_model_name r, v_version r)"

definition mem_models :: "mem_db \<Rightarrow> models" where
  "mem_models s = map_of (keyed m_name (tab_models s))"

definition mem_versions :: "mem_db \<Rightarrow> versions" where
  "mem_versions s = map_of (keyed version_key (tab_versions s))"

definition mem_now :: "mem_db \<Rightarrow> mem_db" where
  "mem_now s = s\<lparr> db_clock := db_clock s + 1 \<rparr>"

definition mem_json :: "metadata \<Rightarrow> bool" where
  "mem_json m \<longleftrightarrow> encodable (JDict m)"

definition mem_ins_model :: "string \<Rightarrow> string option \<Rightarrow> mem_db \<Rightarrow> commit \<times> mem_db" where
  "mem_ins_model n d s =
     (if \<not> storable_model n d then (OtherSqlError, s)
      else if mem_models s n \<noteq> None then (IntegrityError, s)
      else (Committed, mem_now (s\<lparr> tab_models := tab_models s @
          [\<lparr> m_name = n, m_description = d, m_created_at = db_clock s, m_updated_at = db_clock s \<rparr>] \<rparr>)))"

definition mem_ins_version ::
  "string \<Rightarrow> string \<Rightarrow> string \<Rightarrow> string option \<Rightarrow> metadata \<Rightarrow> mem_db \<Rightarrow> commit \<times> mem_db" where
  "mem_ins_version n v i a m s =
     (if \<not> storable_version mem_json n v i a m then (OtherSqlError, s)
      else if mem_versions s (n, v) \<noteq> None \<or> mem_models s n = None then (IntegrityError, s)
      else (Committed, mem_now (s\<lparr> tab_versions := tab_versions s @
        [\<lparr> v_id = Suc (length (tab_versions s)), v_model_name = n, v_version = v,
           v_runtime_image = i, v_artifact_digest = a, v_metadata = m,
           v_created_at = db_clock s \<rparr>] \<rparr>)))"

definition mem_upd_model :: "string \<Rightarrow> string option \<Rightarrow> mem_db \<Rightarrow> commit \<times> mem_db" where
  "mem_upd_model n d s =
     (if \<not> storable_model n d \<or> mem_models s n = None then (OtherSqlError, s)
      else (Committed, mem_now (s\<lparr> tab_models := map (\<lambda>r. if m_name r = n
          then r\<lparr> m_description := d, m_updated_at := db_clock s \<rparr> else r) (tab_models s) \<rparr>)))"

definition rows :: "('k \<times> 'r) list \<Rightarrow> 'r list" where
  "rows al = remdups (map snd (AList.clearjunk al))"

definition mem_sql :: "mem_db sql" where
  "mem_sql =
     \<lparr> sel_model = (\<lambda>n s. mem_models s n), sel_version = (\<lambda>n v s. mem_versions s (n, v)),
       scan_models = (\<lambda>s. rows (keyed m_name (tab_models s))),
       scan_versions = (\<lambda>s. rows (keyed version_key (tab_versions s))), collate = id,
       ins_model = mem_ins_model, ins_version = mem_ins_version, upd_model = mem_upd_model \<rparr>"

lemma map_of_snoc: "m k = None \<Longrightarrow> [k \<mapsto> v] ++ m = m(k \<mapsto> v)"
  by (auto simp: map_add_def fun_eq_iff split: option.splits)

lemma keyed_snoc: "map_of (keyed key rs) (key r) = None \<Longrightarrow>
    map_of (keyed key (rs @ [r])) = (map_of (keyed key rs))(key r \<mapsto> r)"
  by (simp add: keyed_def map_of_snoc)

lemma keyed_update:
  assumes "\<And>r. key (f r) = key r" "map_of (keyed key rs) k = Some r"
  shows "map_of (keyed key (map (\<lambda>r. if key r = k then f r else r) rs)) = (map_of (keyed key rs))(k \<mapsto> f r)"
proof -
  have "map_of (keyed key (map (\<lambda>r. if key r = k then f r else r) rs)) x =
      (if x = k then map_option f (map_of (keyed key rs) k) else map_of (keyed key rs) x)" for x
    by (induction rs) (auto simp: keyed_def assms(1))
  then show ?thesis using assms(2) by (auto simp: fun_eq_iff)
qed

lemma keyed_key: "map_of (keyed key rs) k = Some r \<Longrightarrow> key r = k"
  by (auto simp: keyed_def dest!: map_of_SomeD)

lemma set_clearjunk: "set (AList.clearjunk al) = {(k, v). map_of al k = Some v}"
proof -
  have "(k, v) \<in> set (AList.clearjunk al) \<longleftrightarrow> map_of al k = Some v" for k v
    using distinct_clearjunk [of al] map_of_clearjunk [of al]
    by (metis map_of_eq_Some_iff)
  then show ?thesis by auto
qed

lemma rows_ran: "distinct (rows al)" "set (rows al) = ran (map_of al)"
  by (force simp: rows_def set_clearjunk ran_def)+

interpretation mem_db: sql_server mem_sql mem_models mem_versions db_clock mem_json
proof (unfold_locales, goal_cases)
  case (11 n d s s')
  then have "mem_models s n = None" by (auto simp: mem_sql_def mem_ins_model_def split: if_splits)
  then show ?case
    using 11 keyed_snoc [of m_name "tab_models s" "\<lparr> m_name = n, m_description = d, m_created_at = db_clock s,
      m_updated_at = db_clock s \<rparr>"]
    by (auto simp: mem_sql_def mem_ins_model_def mem_now_def mem_models_def mem_versions_def split: if_splits)
next
  case (14 n v i a m s s')
  let ?r = "\<lparr> v_id = Suc (length (tab_versions s)), v_model_name = n, v_version = v, v_runtime_image = i,
    v_artifact_digest = a, v_metadata = m, v_created_at = db_clock s \<rparr>"
  have "mem_versions s (n, v) = None" using 14 by (auto simp: mem_sql_def mem_ins_version_def split: if_splits)
  then show ?case
    using 14 keyed_snoc [of version_key "tab_versions s" ?r]
    by (auto simp: mem_sql_def mem_ins_version_def mem_now_def mem_models_def mem_versions_def split: if_splits)
next
  case (16 s n r d s')
  then show ?case
    using keyed_update [of m_name "\<lambda>r. r\<lparr> m_description := d, m_updated_at := db_clock s \<rparr>" "tab_models s" n r]
    by (auto simp: mem_sql_def mem_upd_model_def mem_now_def mem_models_def mem_versions_def split: if_splits)
next
  case (17 s n r)
  then show ?case by (auto simp: mem_models_def dest: keyed_key)
next
  case (18 s n v q)
  then show ?case by (auto simp: mem_versions_def dest: keyed_key)
qed (auto simp: mem_sql_def mem_ins_model_def mem_ins_version_def mem_upd_model_def rows_ran mem_models_def
    mem_versions_def split: if_splits)

end
