(* ===== verification/Registry.thy ===== *)
theory Registry
  imports Sql_Server Errors Config
begin

text \<open>
  The model registry: \<open>app/repository.py\<close> and the routes of \<open>app/routes.py\<close>, over the operations
  of the database. Between two awaits of a request other requests run: every await carries the
  change the rest of the world made before it and the fate of the round trip.
\<close>

type_synonym 's awaits = "nat \<Rightarrow> ('s \<Rightarrow> 's) \<times> link"

definition await :: "('s \<Rightarrow> 's) \<times> link \<Rightarrow> ('s \<Rightarrow> 'a \<times> 's) \<Rightarrow> 's \<Rightarrow> 'a option \<times> 's" where
  "await a f s = call (snd a) f (fst a s)"

definition reading :: "('s \<Rightarrow> 'a) \<Rightarrow> 's \<Rightarrow> 'a \<times> 's" where
  "reading f s = (f s, s)"

section \<open>Repository\<close>

record 'v write_result =
  wr_value :: 'v
  wr_created :: bool

text \<open>\<open>session.refresh\<close>: the row as the database has it now; a row that vanished is an error.\<close>

definition refreshed ::
  "bool \<Rightarrow> 'v option option \<times> 's \<Rightarrow> (exc + 'v write_result) \<times> 's" where
  "refreshed created r =
     (case r of
        (Some (Some row), s) \<Rightarrow> (Inr \<lparr> wr_value = row, wr_created = created \<rparr>, s)
      | (_, s) \<Rightarrow> (Inl DatabaseExc, s))"

definition put_model_update ::
  "'s sql \<Rightarrow> 's awaits \<Rightarrow> string \<Rightarrow> model_row \<Rightarrow> string option \<Rightarrow> 's
     \<Rightarrow> (exc + model_row write_result) \<times> 's" where
  "put_model_update D aw name model description s =
     (if m_description model \<noteq> description then
        (case await (aw 4) (upd_model D name description) s of
           (Some Committed, s) \<Rightarrow>
             refreshed False (await (aw 5) (reading (sel_model D name)) s)
         | (_, s) \<Rightarrow> (Inl DatabaseExc, s))
      else (Inr \<lparr> wr_value = model, wr_created = False \<rparr>, s))"

definition put_model ::
  "'s sql \<Rightarrow> 's awaits \<Rightarrow> string \<Rightarrow> string option \<Rightarrow> 's \<Rightarrow> (exc + model_row write_result) \<times> 's" where
  "put_model D aw name description s =
     (case await (aw 0) (reading (sel_model D name)) s of
        (None, s) \<Rightarrow> (Inl DatabaseExc, s)
      | (Some (Some model), s) \<Rightarrow> put_model_update D aw name model description s
      | (Some None, s) \<Rightarrow>
          (case await (aw 1) (ins_model D name description) s of
             (Some Committed, s) \<Rightarrow>
               refreshed True (await (aw 2) (reading (sel_model D name)) s)
           | (Some IntegrityError, s) \<Rightarrow>
               (case await (aw 3) (reading (sel_model D name)) s of
                  (Some (Some model), s) \<Rightarrow> put_model_update D aw name model description s
                | (_, s) \<Rightarrow> (Inl DatabaseExc, s))
           | (_, s) \<Rightarrow> (Inl DatabaseExc, s)))"

definition get_model ::
  "'s sql \<Rightarrow> ('s \<Rightarrow> 's) \<times> link \<Rightarrow> string \<Rightarrow> 's \<Rightarrow> (exc + model_row option) \<times> 's" where
  "get_model D a name s =
     (case await a (reading (sel_model D name)) s of
        (None, s) \<Rightarrow> (Inl DatabaseExc, s)
      | (Some r, s) \<Rightarrow> (Inr r, s))"

text \<open>
  The query of a page: the models by name, from the offset on and at most the limit. Offsets beyond
  the integers of the server, which refuses them, are not considered.
\<close>

definition page_models :: "'s sql \<Rightarrow> int \<Rightarrow> int \<Rightarrow> 's \<Rightarrow> model_row list" where
  "page_models D limit offset s = order_limit (collate D \<circ> m_name) limit offset (scan_models D s)"

definition list_models ::
  "'s sql \<Rightarrow> ('s \<Rightarrow> 's) \<times> link \<Rightarrow> int \<Rightarrow> int \<Rightarrow> 's \<Rightarrow> (exc + model_row list) \<times> 's" where
  "list_models D a limit offset s =
     (case await a (reading (page_models D limit offset)) s of
        (None, s) \<Rightarrow> (Inl DatabaseExc, s)
      | (Some r, s) \<Rightarrow> (Inr r, s))"

definition find_version ::
  "'s sql \<Rightarrow> ('s \<Rightarrow> 's) \<times> link \<Rightarrow> string \<Rightarrow> string \<Rightarrow> 's \<Rightarrow> (exc + version_row option) \<times> 's" where
  "find_version D a model_name version s =
     (case await a (reading (sel_version D model_name version)) s of
        (None, s) \<Rightarrow> (Inl DatabaseExc, s)
      | (Some r, s) \<Rightarrow> (Inr r, s))"

definition put_version ::
  "'s sql \<Rightarrow> 's awaits \<Rightarrow> string \<Rightarrow> string \<Rightarrow> string \<Rightarrow> string option \<Rightarrow> metadata \<Rightarrow> 's
     \<Rightarrow> (exc + version_row write_result) \<times> 's" where
  "put_version D aw model_name version runtime_image artifact_digest metadata s =
     (case find_version D (aw 1) model_name version s of
        (Inl e, s) \<Rightarrow> (Inl e, s)
      | (Inr (Some existing), s) \<Rightarrow> (Inr \<lparr> wr_value = existing, wr_created = False \<rparr>, s)
      | (Inr None, s) \<Rightarrow>
          (case await (aw 2)
             (ins_version D model_name version runtime_image artifact_digest metadata) s of
             (Some Committed, s) \<Rightarrow>
               refreshed True (await (aw 3) (reading (sel_version D model_name version)) s)
           | (Some IntegrityError, s) \<Rightarrow>
               (case find_version D (aw 4) model_name version s of
                  (Inr (Some existing), s) \<Rightarrow>
                    (Inr \<lparr> wr_value = existing, wr_created = False \<rparr>, s)
                | (_, s) \<Rightarrow> (Inl DatabaseExc, s))
           | (_, s) \<Rightarrow> (Inl DatabaseExc, s)))"

definition get_version ::
  "'s sql \<Rightarrow> ('s \<Rightarrow> 's) \<times> link \<Rightarrow> string \<Rightarrow> string \<Rightarrow> 's \<Rightarrow> (exc + version_row option) \<times> 's" where
  "get_version D a model_name version s = find_version D a model_name version s"

definition page_versions :: "'s sql \<Rightarrow> string \<Rightarrow> int \<Rightarrow> int \<Rightarrow> 's \<Rightarrow> version_row list" where
  "page_versions D model_name limit offset s =
     order_limit (collate D \<circ> v_version) limit offset
       (filter (\<lambda>r. v_model_name r = model_name) (scan_versions D s))"

definition list_versions ::
  "'s sql \<Rightarrow> ('s \<Rightarrow> 's) \<times> link \<Rightarrow> string \<Rightarrow> int \<Rightarrow> int \<Rightarrow> 's \<Rightarrow> (exc + version_row list) \<times> 's" where
  "list_versions D a model_name limit offset s =
     (case await a (reading (page_versions D model_name limit offset)) s of
        (None, s) \<Rightarrow> (Inl DatabaseExc, s)
      | (Some r, s) \<Rightarrow> (Inr r, s))"

definition version_matches ::
  "(json \<Rightarrow> json \<Rightarrow> bool) \<Rightarrow> version_row \<Rightarrow> string \<Rightarrow> string option \<Rightarrow> metadata \<Rightarrow> bool" where
  "version_matches feq r runtime_image artifact_digest metadata \<longleftrightarrow>
     v_runtime_image r = runtime_image \<and> v_artifact_digest r = artifact_digest \<and>
     py_eq feq (JDict (v_metadata r)) (JDict metadata)"

section \<open>Routes\<close>

record model_read =
  mr_name :: string
  mr_description :: "string option"
  mr_created_at :: rat
  mr_updated_at :: rat

definition ModelRead :: "model_row \<Rightarrow> model_read" where
  "ModelRead r = \<lparr> mr_name = m_name r, mr_description = m_description r,
     mr_created_at = m_created_at r, mr_updated_at = m_updated_at r \<rparr>"

record version_read =
  vr_model_name :: string
  vr_version :: string
  vr_runtime_image :: string
  vr_artifact_digest :: "string option"
  vr_metadata :: metadata
  vr_created_at :: rat

definition VersionRead :: "version_row \<Rightarrow> version_read" where
  "VersionRead r = \<lparr> vr_model_name = v_model_name r, vr_version = v_version r,
     vr_runtime_image = v_runtime_image r, vr_artifact_digest = v_artifact_digest r,
     vr_metadata = v_metadata r, vr_created_at = v_created_at r \<rparr>"

record 'a page =
  pg_items :: "'a list"
  pg_limit :: int
  pg_offset :: int

text \<open>Continue a request with the value of a step, or end it with the step's exception.\<close>

definition and_then :: "(exc + 'a) \<times> 's \<Rightarrow> ('a \<Rightarrow> 's \<Rightarrow> (exc + 'b) \<times> 's) \<Rightarrow> (exc + 'b) \<times> 's" where
  "and_then m f = (case m of (Inl e, s) \<Rightarrow> (Inl e, s) | (Inr x, s) \<Rightarrow> f x s)"

definition path_arg :: "string \<Rightarrow> (string \<Rightarrow> rule + string) \<Rightarrow> string \<Rightarrow> string checked" where
  "path_arg name f value = under ''path'' (under name (at_root (f value)))"

definition query_int :: "pydantic \<Rightarrow> string \<Rightarrow> int \<Rightarrow> int \<Rightarrow> int \<Rightarrow> string option \<Rightarrow> int checked" where
  "query_int P name dflt lo hi value =
     under ''query'' (under name
       (case value of None \<Rightarrow> Inr dflt | Some raw \<Rightarrow> int_range P lo hi (JStr raw)))"

definition page_offset :: "pydantic \<Rightarrow> string option \<Rightarrow> int checked" where
  "page_offset P value =
     under ''query'' (under ''offset''
       (case value of
          None \<Rightarrow> Inr 0
        | Some raw \<Rightarrow>
            bind_result (any_int P (JStr raw)) (\<lambda>n.
            if 0 \<le> n then Inr n else Inl [([], OutOfRange)])))"

definition model_not_found :: "string \<Rightarrow> exc" where
  "model_not_found name =
     ApiExc (ApiError 404 ''model_not_found'' (''Model '' @ [CHR 0x27] @ name @ [CHR 0x27] @ '' was not found.''))"

definition version_not_found :: "string \<Rightarrow> string \<Rightarrow> exc" where
  "version_not_found name version =
     ApiExc (ApiError 404 ''model_version_not_found''
       (''Model version '' @ [CHR 0x27] @ name @ '':'' @ version @ [CHR 0x27] @ '' was not found.''))"

definition version_conflict :: "string \<Rightarrow> string \<Rightarrow> exc" where
  "version_conflict name version =
     ApiExc (ApiError 409 ''immutable_model_version''
       (''Model version '' @ [CHR 0x27] @ name @ '':'' @ version @ [CHR 0x27] @
        '' already exists with different content.''))"

definition live :: json where
  "live = JDict [(''status'', JStr ''ok'')]"

text \<open>
  Readiness. Each dependency check is given by how its await ends (the time limit of the request
  included); \<open>None\<close> stands for a gateway or queue that was never created.
\<close>

definition not_ready :: "string \<Rightarrow> exc" where
  "not_ready dependency =
     ApiExc \<lparr> ae_status_code = 503, ae_code = ''not_ready'',
              ae_message = ''A required control-plane dependency is unavailable.'',
              ae_details = JDict [(''dependency'', JStr dependency)] \<rparr>"

definition ready ::
  "settings \<Rightarrow> exc + unit \<Rightarrow> (exc + unit) option \<Rightarrow> (exc + unit) option \<Rightarrow> exc + json" where
  "ready st database gateway queue =
     (case database of
        Inl _ \<Rightarrow> Inl (not_ready ''database'')
      | Inr _ \<Rightarrow>
          if kubernetes_enabled st \<and> (case gateway of Some (Inr _) \<Rightarrow> False | _ \<Rightarrow> True)
          then Inl (not_ready ''kubernetes'')
          else if async_inference_enabled st \<and> (case queue of Some (Inr _) \<Rightarrow> False | _ \<Rightarrow> True)
          then Inl (not_ready ''redis'')
          else Inr (JDict [(''status'', JStr ''ready'')]))"

definition put_model_route ::
  "'s sql \<Rightarrow> 's awaits \<Rightarrow> string \<Rightarrow> json \<Rightarrow> 's \<Rightarrow> (exc + int \<times> model_read) \<times> 's" where
  "put_model_route D aw model_name body s =
     and_then (checked (both (path_arg ''model_name'' ResourceName model_name)
                             (under ''body'' (ModelUpsert body))), s)
       (\<lambda>(name, b) s.
     and_then (put_model D aw name (mu_description b) s) (\<lambda>result s.
     (Inr (if wr_created result then 201 else 200, ModelRead (wr_value result)), s)))"

definition list_models_route ::
  "pydantic \<Rightarrow> 's sql \<Rightarrow> 's awaits \<Rightarrow> string option \<Rightarrow> string option \<Rightarrow> 's
     \<Rightarrow> (exc + model_read page) \<times> 's" where
  "list_models_route P D aw limit offset s =
     and_then (checked (both (query_int P ''limit'' 50 1 100 limit) (page_offset P offset)), s)
       (\<lambda>(l, k) s.
     and_then (list_models D (aw 0) l k s) (\<lambda>rs s.
     (Inr \<lparr> pg_items = map ModelRead rs, pg_limit = l, pg_offset = k \<rparr>, s)))"

definition get_model_route ::
  "'s sql \<Rightarrow> 's awaits \<Rightarrow> string \<Rightarrow> 's \<Rightarrow> (exc + model_read) \<times> 's" where
  "get_model_route D aw model_name s =
     and_then (checked (path_arg ''model_name'' ResourceName model_name), s) (\<lambda>name s.
     and_then (get_model D (aw 0) name s) (\<lambda>r s.
     case r of None \<Rightarrow> (Inl (model_not_found name), s) | Some row \<Rightarrow> (Inr (ModelRead row), s)))"

definition put_version_route ::
  "(json \<Rightarrow> json \<Rightarrow> bool) \<Rightarrow> 's sql \<Rightarrow> 's awaits \<Rightarrow> string \<Rightarrow> string \<Rightarrow> json \<Rightarrow> 's
     \<Rightarrow> (exc + int \<times> version_read) \<times> 's" where
  "put_version_route feq D aw model_name version body s =
     and_then (checked (both (path_arg ''model_name'' ResourceName model_name)
                       (both (path_arg ''version'' VersionName version)
                             (under ''body'' (VersionCreate body)))), s)
       (\<lambda>(name, ver, b) s.
     and_then (get_model D (aw 0) name s) (\<lambda>m s.
     if m = None then (Inl (model_not_found name), s)
     else and_then
       (put_version D aw name ver (vc_runtime_image b) (vc_artifact_digest b) (vc_metadata b) s)
       (\<lambda>result s.
     if \<not> wr_created result \<and>
        \<not> version_matches feq (wr_value result)
            (vc_runtime_image b) (vc_artifact_digest b) (vc_metadata b)
     then (Inl (version_conflict name ver), s)
     else (Inr (if wr_created result then 201 else 200, VersionRead (wr_value result)), s))))"

definition list_versions_route ::
  "pydantic \<Rightarrow> 's sql \<Rightarrow> 's awaits \<Rightarrow> string \<Rightarrow> string option \<Rightarrow> string option \<Rightarrow> 's
     \<Rightarrow> (exc + version_read page) \<times> 's" where
  "list_versions_route P D aw model_name limit offset s =
     and_then (checked (both (path_arg ''model_name'' ResourceName model_name)
                       (both (query_int P ''limit'' 50 1 100 limit) (page_offset P offset))), s)
       (\<lambda>(name, l, k) s.
     and_then (get_model D (aw 0) name s) (\<lambda>m s.
     if m = None then (Inl (model_not_found name), s)
     else and_then (list_versions D (aw 1) name l k s) (\<lambda>rs s.
     (Inr \<lparr> pg_items = map VersionRead rs, pg_limit = l, pg_offset = k \<rparr>, s))))"

definition get_version_route ::
  "'s sql \<Rightarrow> 's awaits \<Rightarrow> string \<Rightarrow> string \<Rightarrow> 's \<Rightarrow> (exc + version_read) \<times> 's" where
  "get_version_route D aw model_name version s =
     and_then (checked (both (path_arg ''model_name'' ResourceName model_name)
                             (path_arg ''version'' VersionName version)), s)
       (\<lambda>(name, ver) s.
     and_then (get_version D (aw 0) name ver s) (\<lambda>r s.
     case r of None \<Rightarrow> (Inl (version_not_found name ver), s)
     | Some row \<Rightarrow> (Inr (VersionRead row), s)))"

end
