(* ===== verification/Kubernetes.thy ===== *)
theory Kubernetes
  imports Registry
begin

text \<open>
  The gateway to the Kubernetes API (\<open>app/kubernetes.py\<close>). The API server and its generated client
  are the operations of the record \<open>k8s\<close> on an opaque cluster state; the locale \<open>k8s_server\<close> states
  the documented behaviour of custom objects under server-side apply, and an in-memory cluster
  interprets it.
\<close>

section \<open>The API server\<close>

text \<open>
  What a client call returns: the object, nothing (the generated client has no type for a 201
  answer), or an \<open>ApiException\<close> with its status and reason. A call that times out or cannot
  connect is a lost round trip.
\<close>

datatype k8s_reply = KObject dict | KNothing | KApiException "int option" "string option"

record 'k k8s =
  k_resources :: "'k \<Rightarrow> k8s_reply \<times> 'k"
  k_patch :: "string \<Rightarrow> string \<Rightarrow> json \<Rightarrow> 'k \<Rightarrow> k8s_reply \<times> 'k"
  k_get :: "string \<Rightarrow> string \<Rightarrow> 'k \<Rightarrow> k8s_reply \<times> 'k"
  k_delete :: "string \<Rightarrow> string \<Rightarrow> 'k \<Rightarrow> k8s_reply \<times> 'k"

type_synonym objects = "string \<times> string \<rightharpoonup> dict"

fun lookup :: "json \<Rightarrow> string list \<Rightarrow> json option" where
  "lookup v [] = Some v"
| "lookup (JDict kvs) (k # ks) = (case map_of kvs k of None \<Rightarrow> None | Some v \<Rightarrow> lookup v ks)"
| "lookup _ (k # ks) = None"

fun scalar :: "json \<Rightarrow> bool" where
  "scalar (JDict kvs) = False"
| "scalar (JList vs) = False"
| "scalar _ = True"

text \<open>
  Server-side apply sets every scalar field of the applied configuration: \<open>carries o body\<close> says
  that the object has the values of the applied \<open>spec\<close>.
\<close>

definition carries :: "dict \<Rightarrow> json \<Rightarrow> bool" where
  "carries obj body \<longleftrightarrow>
     (\<forall>p v. lookup body (''spec'' # p) = Some v \<longrightarrow> scalar v \<longrightarrow>
        lookup (JDict obj) (''spec'' # p) = Some v)"

definition rv_of :: "json \<Rightarrow> json option" where
  "rv_of v = lookup v [''metadata'', ''resourceVersion'']"

locale k8s_server =
  fixes K :: "'k k8s" and objs :: "'k \<Rightarrow> objects"
  assumes get_present: "objs s (ns, n) = Some obj \<Longrightarrow> k_get K ns n s = (KObject obj, s)"
    and get_absent: "objs s (ns, n) = None \<Longrightarrow> \<exists>r. k_get K ns n s = (KApiException (Some 404) r, s)"
    and delete_absent:
      "objs s (ns, n) = None \<Longrightarrow> \<exists>r. k_delete K ns n s = (KApiException (Some 404) r, s)"
    and delete_present: "objs s (ns, n) = Some obj \<Longrightarrow> k_delete K ns n s = (rep, s') \<Longrightarrow>
      (\<forall>st r. rep \<noteq> KApiException st r) \<and> (\<forall>k. k \<noteq> (ns, n) \<longrightarrow> objs s' k = objs s k)"
    and patch_stale: "rv_of body = Some v \<Longrightarrow>
      (case objs s (ns, n) of None \<Rightarrow> True | Some obj \<Rightarrow> rv_of (JDict obj) \<noteq> Some v) \<Longrightarrow>
      \<exists>r. k_patch K ns n body s = (KApiException (Some 409) r, s)"
    and patch_refused: "k_patch K ns n body s = (KApiException st r, s') \<Longrightarrow> s' = s"
    and patch_object: "k_patch K ns n body s = (KObject obj, s') \<Longrightarrow>
      objs s' = (objs s)((ns, n) \<mapsto> obj) \<and> carries obj body"
    and patch_created: "k_patch K ns n body s = (KNothing, s') \<Longrightarrow>
      \<exists>obj. objs s' = (objs s)((ns, n) \<mapsto> obj) \<and> carries obj body"

section \<open>The gateway\<close>

record gateway_error =
  ge_status :: int
  ge_reason :: string

text \<open>A gateway operation raises a \<open>DeploymentGatewayError\<close> or lets a Python error through.\<close>

datatype gateway_exc = GatewayError gateway_error | GatewayPy py_error

datatype config_source = InCluster | KubeConfig "string option" "string option"

text \<open>Which configuration \<open>create\<close> loads for the client, and the time limit of its requests.\<close>

definition gateway_config :: "settings \<Rightarrow> config_source \<times> int" where
  "gateway_config st =
     (if kubernetes_config_mode st = ''in-cluster'' then InCluster
      else KubeConfig (kubernetes_kubeconfig st) (kubernetes_context st),
      kubernetes_request_timeout_seconds st)"

text \<open>\<open>dict(value)\<close>: the object, or a \<open>TypeError\<close> when the client returned nothing.\<close>

fun as_object :: "dict option \<Rightarrow> gateway_exc + dict" where
  "as_object (Some obj) = Inr obj"
| "as_object None = Inl (GatewayPy TypeError)"

definition execute :: "k8s_reply option \<Rightarrow> gateway_exc + dict option" where
  "execute reply =
     (case reply of
        Some (KObject obj) \<Rightarrow> Inr (Some obj)
      | Some KNothing \<Rightarrow> Inr None
      | Some (KApiException status reason) \<Rightarrow>
          Inl (GatewayError
            \<lparr> ge_status = (case status of Some st \<Rightarrow> if st = 0 then 503 else st | None \<Rightarrow> 503),
              ge_reason = (case reason of Some r \<Rightarrow> if r = [] then ''request failed'' else r
                           | None \<Rightarrow> ''request failed'') \<rparr>)
      | None \<Rightarrow>
          Inl (GatewayError \<lparr> ge_status = 503, ge_reason = ''Kubernetes API is unavailable'' \<rparr>))"

type_synonym 's step = "('s \<Rightarrow> 's) \<times> link"

definition gw_check_ready :: "'k k8s \<Rightarrow> 'k step \<Rightarrow> 'k \<Rightarrow> (gateway_exc + unit) \<times> 'k" where
  "gw_check_ready K a s =
     (let (reply, s) = await a (k_resources K) s in
      (case execute reply of Inl e \<Rightarrow> (Inl e, s) | Inr _ \<Rightarrow> (Inr (), s)))"

definition gw_get :: "'k k8s \<Rightarrow> 'k step \<Rightarrow> string \<Rightarrow> string \<Rightarrow> 'k \<Rightarrow> (gateway_exc + dict) \<times> 'k" where
  "gw_get K a namespace name s =
     (let (reply, s) = await a (k_get K namespace name) s in
      (bind_result (execute reply) as_object, s))"

definition gw_apply ::
  "'k k8s \<Rightarrow> (nat \<Rightarrow> 'k step) \<Rightarrow> string \<Rightarrow> string \<Rightarrow> json \<Rightarrow> 'k \<Rightarrow> (gateway_exc + dict) \<times> 'k" where
  "gw_apply K aw namespace name body s =
     (let (reply, s) = await (aw 0) (k_patch K namespace name body) s in
      case execute reply of
        Inl e \<Rightarrow> (Inl e, s)
      | Inr None \<Rightarrow> gw_get K (aw 1) namespace name s
      | Inr (Some value) \<Rightarrow> (Inr value, s))"

definition gw_delete ::
  "'k k8s \<Rightarrow> 'k step \<Rightarrow> string \<Rightarrow> string \<Rightarrow> 'k \<Rightarrow> (gateway_exc + bool) \<times> 'k" where
  "gw_delete K a namespace name s =
     (let (reply, s) = await a (k_delete K namespace name) s in
      case execute reply of
        Inr _ \<Rightarrow> (Inr True, s)
      | Inl (GatewayError e) \<Rightarrow>
          (if ge_status e = 404 then Inr False else Inl (GatewayError e), s)
      | Inl e \<Rightarrow> (Inl e, s))"

section \<open>An in-memory cluster\<close>

record mem_cluster =
  cl_objects :: "((string \<times> string) \<times> dict) list"
  cl_counter :: nat

fun body_spec :: "json \<Rightarrow> json" where
  "body_spec (JDict kvs) = (case map_of kvs ''spec'' of None \<Rightarrow> JNull | Some v \<Rightarrow> v)"
| "body_spec _ = JNull"

definition stored :: "string \<Rightarrow> string \<Rightarrow> json \<Rightarrow> nat \<Rightarrow> dict" where
  "stored ns n body k =
     [(''metadata'', JDict [(''name'', JStr n), (''namespace'', JStr ns),
                            (''resourceVersion'', JStr (show_nat k))]),
      (''spec'', body_spec body)]"

definition stale :: "json \<Rightarrow> dict option \<Rightarrow> bool" where
  "stale body obj =
     (case rv_of body of
        None \<Rightarrow> False
      | Some v \<Rightarrow> (case obj of None \<Rightarrow> True | Some x \<Rightarrow> rv_of (JDict x) \<noteq> Some v))"

definition mem_patch :: "string \<Rightarrow> string \<Rightarrow> json \<Rightarrow> mem_cluster \<Rightarrow> k8s_reply \<times> mem_cluster" where
  "mem_patch ns n body c =
     (let cur = map_of (cl_objects c) (ns, n); obj = stored ns n body (Suc (cl_counter c));
          c' = c\<lparr> cl_objects := AList.update (ns, n) obj (cl_objects c),
                  cl_counter := Suc (cl_counter c) \<rparr> in
      if stale body cur then (KApiException (Some 409) (Some ''Conflict''), c)
      else if cur = None then (KNothing, c')
      else (KObject obj, c'))"

definition mem_get :: "string \<Rightarrow> string \<Rightarrow> mem_cluster \<Rightarrow> k8s_reply \<times> mem_cluster" where
  "mem_get ns n c =
     (case map_of (cl_objects c) (ns, n) of
        None \<Rightarrow> (KApiException (Some 404) (Some ''Not Found''), c)
      | Some obj \<Rightarrow> (KObject obj, c))"

definition mem_delete :: "string \<Rightarrow> string \<Rightarrow> mem_cluster \<Rightarrow> k8s_reply \<times> mem_cluster" where
  "mem_delete ns n c =
     (case map_of (cl_objects c) (ns, n) of
        None \<Rightarrow> (KApiException (Some 404) (Some ''Not Found''), c)
      | Some obj \<Rightarrow> (KObject [(''kind'', JStr ''Status'')],
                     c\<lparr> cl_objects := AList.delete (ns, n) (cl_objects c) \<rparr>))"

definition mem_k8s :: "mem_cluster k8s" where
  "mem_k8s = \<lparr> k_resources = (\<lambda>c. (KObject [], c)), k_patch = mem_patch, k_get = mem_get,
     k_delete = mem_delete \<rparr>"

lemma stored_carries: "carries (stored ns n body k) body"
  by (cases body) (auto simp: carries_def stored_def split: option.splits)

interpretation mem_k8s: k8s_server mem_k8s "\<lambda>c. map_of (cl_objects c)"
proof (unfold_locales, goal_cases)
  case (7 ns n body s obj s')
  then show ?case
    by (auto simp: mem_k8s_def mem_patch_def Let_def stored_carries update_conv' split: if_splits)
next
  case (8 ns n body s s')
  then show ?case
    by (auto simp: mem_k8s_def mem_patch_def Let_def stored_carries update_conv' split: if_splits)
qed (auto simp: mem_k8s_def mem_get_def mem_delete_def mem_patch_def Let_def stale_def delete_conv'
    split: if_splits option.splits)

end
