(* ===== verification/Deployments.thy ===== *)
theory Deployments
  imports Kubernetes Worker
begin

text \<open>
  The deployment routes of \<open>app/deployment_routes.py\<close>: registering, reading, deleting and rolling
  back a ModelDeployment, and the synchronous inference proxy. A request works on the registry
  database and on the cluster; the awaits of each are numbered separately.
\<close>

section \<open>Helpers of the routes\<close>

definition kubernetes_disabled :: exc where
  "kubernetes_disabled =
     ApiExc (ApiError 503 ''kubernetes_disabled''
       ''Kubernetes deployment operations are not enabled for this API process.'')"

definition get_deployment_gateway :: "'k k8s option \<Rightarrow> exc + 'k k8s" where
  "get_deployment_gateway gateway =
     (case gateway of None \<Rightarrow> Inl kubernetes_disabled | Some K \<Rightarrow> Inr K)"

definition deployment_error :: "gateway_error \<Rightarrow> string \<Rightarrow> string \<Rightarrow> api_error" where
  "deployment_error error namespace name =
     (if ge_status error = 404 then
        ApiError 404 ''deployment_not_found''
          (''Deployment '' @ [CHR 0x27] @ namespace @ ''/'' @ name @ [CHR 0x27] @ '' was not found.'')
      else if ge_status error = 409 then
        ApiError 409 ''deployment_conflict''
          ''The desired state conflicts with another Kubernetes field manager or update.''
      else if ge_status error = 422 then
        ApiError 422 ''deployment_rejected''
          ''Kubernetes rejected the ModelDeployment desired state.''
      else if ge_status error \<in> {401, 403} then
        ApiError 503 ''kubernetes_forbidden''
          ''The control API is not authorized to manage ModelDeployments.''
      else
        ApiError 503 ''kubernetes_unavailable'' ''The Kubernetes API is unavailable.'')"

text \<open>\<open>except DeploymentGatewayError\<close>: other exceptions pass through.\<close>

definition gateway_failure :: "string \<Rightarrow> string \<Rightarrow> gateway_exc \<Rightarrow> exc" where
  "gateway_failure namespace name e =
     (case e of
        GatewayError g \<Rightarrow> ApiExc (deployment_error g namespace name)
      | GatewayPy p \<Rightarrow> PyExc p)"

definition via_gateway ::
  "string \<Rightarrow> string \<Rightarrow> (gateway_exc + 'a) \<times> 'k \<Rightarrow> (exc + 'a) \<times> 'k" where
  "via_gateway namespace name r =
     (case fst r of Inl e \<Rightarrow> Inl (gateway_failure namespace name e) | Inr x \<Rightarrow> Inr x, snd r)"

text \<open>The truth value of a JSON value.\<close>

fun py_truth :: "json \<Rightarrow> bool" where
  "py_truth JNull = False"
| "py_truth (JBool b) = b"
| "py_truth (JInt n) = (n \<noteq> 0)"
| "py_truth (JFloat t) = (\<exists>c \<in> set t. c \<notin> set ''0.-+'')"
| "py_truth (JStr s) = (s \<noteq> [])"
| "py_truth (JList vs) = (vs \<noteq> [])"
| "py_truth (JDict kvs) = (kvs \<noteq> [])"

definition desired_resource ::
  "string \<Rightarrow> string \<Rightarrow> deployment_upsert \<Rightarrow> string \<Rightarrow> string option \<Rightarrow> json \<Rightarrow> json" where
  "desired_resource namespace name desired runtime_image artifact_digest resource_version =
     (let metadata =
        [(''name'', JStr name),
         (''namespace'', JStr namespace),
         (''labels'', JDict
           [(''app.kubernetes.io/managed-by'', JStr ''kernexys-control-api''),
            (''app.kubernetes.io/part-of'', JStr ''kernexys'')])]
        @ (case artifact_digest of
             None \<Rightarrow> []
           | Some d \<Rightarrow> if d = [] then [] else
               [(''annotations'', JDict [(''platform.kernexys.io/artifact-digest'', JStr d)])])
        @ (if py_truth resource_version then [(''resourceVersion'', resource_version)] else []) in
      JDict
        [(''apiVersion'', JStr ''platform.kernexys.io/v1alpha1''),
         (''kind'', JStr ''ModelDeployment''),
         (''metadata'', JDict metadata),
         (''spec'', JDict
           [(''model'', JDict [(''name'', JStr (du_model desired)),
                               (''version'', JStr (du_version desired))]),
            (''runtime'', JDict [(''image'', JStr runtime_image), (''port'', JInt (du_port desired))]),
            (''replicas'', JInt (du_replicas desired)),
            (''resources'', dump_resources (du_resources desired))])])"

text \<open>A pydantic \<open>ValidationError\<close> is a \<open>ValueError\<close>.\<close>

definition validated :: "'a checked \<Rightarrow> py_error + 'a" where
  "validated c = (case c of Inl _ \<Rightarrow> Inl ValueError | Inr x \<Rightarrow> Inr x)"

definition resource_fields :: "pydantic \<Rightarrow> json \<Rightarrow> py_error + deployment_read" where
  "resource_fields P resource =
     bind_result (getitem resource ''metadata'') (\<lambda>metadata.
     bind_result (getitem resource ''spec'') (\<lambda>spec.
     bind_result (getitem spec ''model'') (\<lambda>model.
     bind_result (getitem spec ''runtime'') (\<lambda>runtime.
     bind_result (dict_get resource ''status'' (JDict [])) (\<lambda>st.
     bind_result (validated (DeploymentStatus P st)) (\<lambda>status.
     bind_result (getitem metadata ''name'') (\<lambda>name.
     bind_result (getitem metadata ''namespace'') (\<lambda>namespace.
     bind_result (dict_get metadata ''generation'' (JInt 0)) (\<lambda>generation.
     bind_result (dict_get metadata ''resourceVersion'' (JStr [])) (\<lambda>resource_version.
     bind_result (dict_get metadata ''creationTimestamp'' JNull) (\<lambda>created_at.
     bind_result (getitem model ''name'') (\<lambda>model_name.
     bind_result (getitem model ''version'') (\<lambda>version.
     bind_result (getitem runtime ''image'') (\<lambda>image.
     bind_result (dict_get spec ''replicas'' (JInt 1)) (\<lambda>replicas.
     bind_result (dict_get runtime ''port'' (JInt 8080)) (\<lambda>port.
     bind_result (dict_get spec ''resources'' (JDict [])) (\<lambda>res.
     bind_result (validated (DeploymentResources res)) (\<lambda>resources.
     bind_result (validated (both (as_str model_name) (both (as_str version) (both (as_str image)
         (both (any_int P replicas) (any_int P port)))))) (\<lambda>(m, v, i, n, p).
     validated (map_checked (\<lambda>(nm, ns, g, rv, c).
         \<lparr> rd_name = nm, rd_namespace = ns, rd_generation = g, rd_resource_version = rv,
           rd_created_at = c,
           rd_spec = \<lparr> sr_model = m, sr_version = v, sr_runtime_image = i, sr_replicas = n,
                       sr_port = p, sr_resources = resources \<rparr>,
           rd_status = status \<rparr>)
       (both (as_str name) (both (as_str namespace) (both (any_int P generation)
         (both (as_str resource_version) (optional (any_datetime P) created_at)))))))))))))))))))))))))"

definition invalid_deployment :: "string \<Rightarrow> exc" where
  "invalid_deployment message = ApiExc (ApiError 502 ''invalid_deployment_state'' message)"

definition resource_to_read :: "pydantic \<Rightarrow> dict \<Rightarrow> exc + deployment_read" where
  "resource_to_read P resource =
     (case resource_fields P (JDict resource) of
        Inr r \<Rightarrow> Inr r
      | Inl e \<Rightarrow>
          if e \<in> {KeyError, TypeError, ValueError}
          then Inl (invalid_deployment ''Kubernetes returned a malformed ModelDeployment resource.'')
          else Inl (PyExc e))"

text \<open>Iterating over a value, and the first available condition, as \<open>any\<close> looks for it.\<close>

fun py_iter :: "json \<Rightarrow> py_error + json list" where
  "py_iter (JList vs) = Inr vs"
| "py_iter (JDict kvs) = Inr (map (\<lambda>(k, v). JStr k) kvs)"
| "py_iter (JStr s) = Inr (map (\<lambda>c. JStr [c]) s)"
| "py_iter _ = Inl TypeError"

definition condition_available :: "json \<Rightarrow> py_error + bool" where
  "condition_available condition =
     bind_result (dict_get condition ''type'' JNull) (\<lambda>t.
     if t = JStr ''Available''
     then bind_result (dict_get condition ''status'' JNull) (\<lambda>st. Inr (st = JStr ''True''))
     else Inr False)"

fun any_available :: "json list \<Rightarrow> py_error + bool" where
  "any_available [] = Inr False"
| "any_available (c # cs) =
     bind_result (condition_available c) (\<lambda>b. if b then Inr True else any_available cs)"

definition deployment_not_ready :: exc where
  "deployment_not_ready =
     ApiExc (ApiError 409 ''deployment_not_ready'' ''The model deployment is not ready.'')"

definition lift_py :: "py_error + 'a \<Rightarrow> exc + 'a" where
  "lift_py r = (case r of Inl e \<Rightarrow> Inl (PyExc e) | Inr x \<Rightarrow> Inr x)"

definition ready_endpoint :: "dict \<Rightarrow> exc + string" where
  "ready_endpoint deployment =
     bind_result (lift_py (dict_get (JDict deployment) ''status'' (JDict []))) (\<lambda>status.
     bind_result (lift_py (dict_get status ''endpoint'' JNull)) (\<lambda>endpoint.
     bind_result (lift_py (bind_result (dict_get status ''conditions'' (JList [])) py_iter)) (\<lambda>cs.
     bind_result (lift_py (any_available cs)) (\<lambda>available.
     if \<not> available then Inl deployment_not_ready
     else (case endpoint of
             JStr e \<Rightarrow> if e = [] then Inl deployment_not_ready else Inr e
           | _ \<Rightarrow> Inl deployment_not_ready)))))"

section \<open>Routes\<close>

text \<open>The state of a request: the registry database and the cluster.\<close>

definition on_db :: "(exc + 'a) \<times> 's \<Rightarrow> 'k \<Rightarrow> (exc + 'a) \<times> 's \<times> 'k" where
  "on_db r k = (fst r, snd r, k)"

definition on_cluster :: "'s \<Rightarrow> (exc + 'a) \<times> 'k \<Rightarrow> (exc + 'a) \<times> 's \<times> 'k" where
  "on_cluster s r = (fst r, s, snd r)"

definition identity_args :: "string \<Rightarrow> string \<Rightarrow> (string \<times> string) checked" where
  "identity_args namespace name =
     both (path_arg ''namespace'' ResourceName namespace) (path_arg ''name'' ResourceName name)"

text \<open>The last step of both writing routes: apply the resource and read the observed object.\<close>

definition apply_and_read ::
  "pydantic \<Rightarrow> 'k k8s \<Rightarrow> (nat \<Rightarrow> 'k step) \<Rightarrow> string \<Rightarrow> string \<Rightarrow> json \<Rightarrow> 's \<times> 'k
     \<Rightarrow> (exc + deployment_read) \<times> 's \<times> 'k" where
  "apply_and_read P K aw namespace name resource w =
     and_then (on_cluster (fst w)
         (via_gateway namespace name (gw_apply K aw namespace name resource (snd w))))
       (\<lambda>observed w. (resource_to_read P observed, w))"

definition put_deployment ::
  "pydantic \<Rightarrow> 's sql \<Rightarrow> 'k k8s option \<Rightarrow> 's step \<Rightarrow> (nat \<Rightarrow> 'k step) \<Rightarrow> string \<Rightarrow> string \<Rightarrow> json
     \<Rightarrow> 's \<times> 'k \<Rightarrow> (exc + deployment_read) \<times> 's \<times> 'k" where
  "put_deployment P D gateway db_step aw namespace name body w =
     and_then (get_deployment_gateway gateway, w) (\<lambda>K w.
     and_then (checked (both (identity_args namespace name) (under ''body'' (DeploymentUpsert P body))), w)
       (\<lambda>((ns, n), desired) (s, k).
     and_then (on_db (get_version D db_step (du_model desired) (du_version desired) s) k) (\<lambda>version (s, k).
     case version of
       None \<Rightarrow> (Inl (version_not_found (du_model desired) (du_version desired)), s, k)
     | Some row \<Rightarrow>
         apply_and_read P K aw ns n
           (desired_resource ns n desired (v_runtime_image row) (v_artifact_digest row) JNull) (s, k))))"

definition get_deployment ::
  "pydantic \<Rightarrow> 'k k8s option \<Rightarrow> 'k step \<Rightarrow> string \<Rightarrow> string \<Rightarrow> 'k \<Rightarrow> (exc + deployment_read) \<times> 'k" where
  "get_deployment P gateway a namespace name k =
     and_then (get_deployment_gateway gateway, k) (\<lambda>K k.
     and_then (checked (identity_args namespace name), k) (\<lambda>(ns, n) k.
     and_then (via_gateway ns n (gw_get K a ns n k)) (\<lambda>observed k.
     (resource_to_read P observed, k))))"

text \<open>The answer is an empty response with status 204.\<close>

definition delete_deployment ::
  "'k k8s option \<Rightarrow> 'k step \<Rightarrow> string \<Rightarrow> string \<Rightarrow> 'k \<Rightarrow> (exc + int) \<times> 'k" where
  "delete_deployment gateway a namespace name k =
     and_then (get_deployment_gateway gateway, k) (\<lambda>K k.
     and_then (checked (identity_args namespace name), k) (\<lambda>(ns, n) k.
     and_then (via_gateway ns n (gw_delete K a ns n k)) (\<lambda>_ k. (Inr 204, k))))"

definition rollback_desired :: "pydantic \<Rightarrow> json \<Rightarrow> string \<Rightarrow> string \<Rightarrow> exc + deployment_upsert" where
  "rollback_desired P current_spec current_model version =
     bind_result (lift_py (dict_get current_spec ''replicas'' (JInt 1))) (\<lambda>replicas.
     bind_result (lift_py (bind_result (dict_get current_spec ''runtime'' (JDict []))
       (\<lambda>rt. dict_get rt ''port'' (JInt 8080)))) (\<lambda>port.
     bind_result (lift_py (dict_get current_spec ''resources'' (JDict []))) (\<lambda>resources.
     case DeploymentUpsert P (JDict [(''model'', JStr current_model), (''version'', JStr version),
            (''replicas'', replicas), (''port'', port), (''resources'', resources)]) of
       Inr d \<Rightarrow> Inr d
     | Inl _ \<Rightarrow> Inl (invalid_deployment ''The stored ModelDeployment spec cannot be rolled back safely.''))))"

definition current_model_name :: "json \<Rightarrow> exc + string" where
  "current_model_name current_spec =
     bind_result (lift_py (bind_result (dict_get current_spec ''model'' (JDict []))
       (\<lambda>m. dict_get m ''name'' JNull))) (\<lambda>name.
     case name of
       JStr m \<Rightarrow> Inr m
     | _ \<Rightarrow> Inl (invalid_deployment ''The stored ModelDeployment does not contain a valid model identity.''))"

definition rollback_deployment ::
  "pydantic \<Rightarrow> 's sql \<Rightarrow> 'k k8s option \<Rightarrow> 's step \<Rightarrow> 'k step \<Rightarrow> (nat \<Rightarrow> 'k step) \<Rightarrow> string \<Rightarrow> string
     \<Rightarrow> json \<Rightarrow> 's \<times> 'k \<Rightarrow> (exc + deployment_read) \<times> 's \<times> 'k" where
  "rollback_deployment P D gateway db_step read_step aw namespace name body w =
     and_then (get_deployment_gateway gateway, w) (\<lambda>K w.
     and_then (checked (both (identity_args namespace name) (under ''body'' (RollbackRequest body))), w)
       (\<lambda>((ns, n), version) (s, k).
     and_then (on_cluster s (via_gateway ns n (gw_get K read_step ns n k))) (\<lambda>current w.
     and_then (lift_py (dict_get (JDict current) ''spec'' (JDict [])), w) (\<lambda>current_spec w.
     and_then (current_model_name current_spec, w) (\<lambda>current_model (s, k).
     and_then (on_db (get_version D db_step current_model version s) k) (\<lambda>found w.
     case found of
       None \<Rightarrow> (Inl (version_not_found current_model version), w)
     | Some row \<Rightarrow>
     and_then (rollback_desired P current_spec current_model version, w) (\<lambda>desired w.
     and_then (lift_py (bind_result (dict_get (JDict current) ''metadata'' (JDict []))
       (\<lambda>m. dict_get m ''resourceVersion'' JNull)), w) (\<lambda>resource_version w.
     apply_and_read P K aw ns n
       (desired_resource ns n desired (v_runtime_image row) (v_artifact_digest row) resource_version)
       w))))))))"

text \<open>
  The call of the runtime: any status but 200 is a 502; a client error, which a body of another content
  type is too, or a time-out is a 503; any other exception, or a body that is not an object, is an
  error the route does not handle.
\<close>

definition proxy_failure :: "py_error \<Rightarrow> exc" where
  "proxy_failure e =
     (if e \<in> {ClientError, TimeoutError}
      then ApiExc (ApiError 503 ''runtime_unavailable'' ''The model runtime is unavailable.'')
      else PyExc e)"

definition proxy_result :: "http_outcome \<Rightarrow> exc + dict" where
  "proxy_result r =
     (case r of
        HttpRaises e \<Rightarrow> Inl (proxy_failure e)
      | HttpResponse status body \<Rightarrow>
          if status \<noteq> 200
          then Inl (ApiExc (ApiError 502 ''runtime_error'' ''The model runtime failed the request.''))
          else (case body of
                  Inl e \<Rightarrow> Inl (proxy_failure e)
                | Inr (JDict kvs) \<Rightarrow> Inr kvs
                | Inr _ \<Rightarrow> Inl (PyExc ValueError)))"

definition infer ::
  "'k k8s option \<Rightarrow> 'k step \<Rightarrow> (string \<Rightarrow> json \<Rightarrow> http_outcome) \<Rightarrow> string \<Rightarrow> string \<Rightarrow> json \<Rightarrow> 'k
     \<Rightarrow> (exc + dict) \<times> 'k" where
  "infer gateway a post namespace name body k =
     and_then (get_deployment_gateway gateway, k) (\<lambda>K k.
     and_then (checked (both (identity_args namespace name) (under ''body'' (AsyncInferenceRequest body))), k)
       (\<lambda>((ns, n), txt) k.
     and_then (via_gateway ns n (gw_get K a ns n k)) (\<lambda>deployment k.
     and_then (ready_endpoint deployment, k) (\<lambda>endpoint k.
     (proxy_result (post (endpoint @ ''/v1/infer'') (JDict [(''text'', JStr txt)])), k)))))"

end
