(* ===== verification/Async_Routes.thy ===== *)
theory Async_Routes
  imports Deployments Delivery
begin

text \<open>
  The asynchronous inference routes of \<open>app/async_routes.py\<close> over the queue, the gateway and two
  parameters: the fresh UUID of the request and SHA-256 (as the hexadecimal digest of a text).
\<close>

record 'r queue_handle =
  qh_redis :: "'r redis"
  qh_queue :: inference_queue

definition async_disabled :: exc where
  "async_disabled =
     ApiExc (ApiError 503 ''async_inference_disabled'' ''Asynchronous inference is not enabled.'')"

definition queue_of :: "'r queue_handle option \<Rightarrow> exc + 'r queue_handle" where
  "queue_of q = (case q of None \<Rightarrow> Inl async_disabled | Some h \<Rightarrow> Inr h)"

definition redis_unavailable :: exc where
  "redis_unavailable =
     ApiExc (ApiError 503 ''redis_unavailable'' ''The asynchronous queue is unavailable.'')"

definition job_identity :: "string \<Rightarrow> string \<Rightarrow> string \<Rightarrow> string" where
  "job_identity namespace name idempotency_key = namespace @ ''/'' @ name @ ''/'' @ idempotency_key"

definition job_id_for ::
  "(string \<Rightarrow> string) \<Rightarrow> string \<Rightarrow> string \<Rightarrow> string \<Rightarrow> string option \<Rightarrow> string" where
  "job_id_for sha256 uuid namespace name idempotency_key =
     (case idempotency_key of
        Some key \<Rightarrow> if key = [] then uuid else sha256 (job_identity namespace name key)
      | None \<Rightarrow> uuid)"

definition job_payload :: "string \<Rightarrow> string \<Rightarrow> string \<Rightarrow> string \<Rightarrow> json" where
  "job_payload namespace name endpoint txt =
     JDict [(''deployment'', JStr (namespace @ ''/'' @ name)), (''endpoint'', JStr endpoint),
            (''text'', JStr txt)]"

definition header_key :: "string option \<Rightarrow> string option checked" where
  "header_key value =
     (case value of
        None \<Rightarrow> Inr None
      | Some key \<Rightarrow> under ''header'' (under ''idempotency-key''
          (map_checked Some (at_root (len_between 0 128 key)))))"

definition enqueue_answer :: "string \<Rightarrow> enqueue_result \<Rightarrow> exc + int \<times> async_inference_job" where
  "enqueue_answer job_id result =
     (if er_full result then
        Inl (ApiExc (ApiError 429 ''queue_full'' ''The asynchronous inference queue is full.''))
      else if er_conflict result then
        Inl (ApiExc (ApiError 409 ''idempotency_conflict''
          ''The idempotency key was already used for a different inference request.''))
      else Inr (if er_created result then 202 else 200,
                \<lparr> aj_job_id = job_id, aj_status = ''queued'', aj_result = None, aj_error = None \<rparr>))"

text \<open>
  The parameters of a request: how the gateway's await and the round trip to Redis end, the UUID
  and the digest function.
\<close>

definition enqueue_job ::
  "(string \<Rightarrow> string) \<Rightarrow> (string \<Rightarrow> string) \<Rightarrow> 'k k8s option \<Rightarrow> 'r queue_handle option \<Rightarrow> 'k step
     \<Rightarrow> link \<Rightarrow> string \<Rightarrow> string \<Rightarrow> string \<Rightarrow> json \<Rightarrow> string option \<Rightarrow> 'k \<times> 'r
     \<Rightarrow> (exc + int \<times> async_inference_job) \<times> 'k \<times> 'r" where
  "enqueue_job fr sha256 gateway q a l uuid namespace name body idempotency_key w =
     and_then (get_deployment_gateway gateway, w) (\<lambda>K w.
     and_then (checked (both (identity_args namespace name)
                       (both (header_key idempotency_key)
                             (under ''body'' (AsyncInferenceRequest body)))), w)
       (\<lambda>((ns, n), key, txt) (k, r).
     and_then (on_db (via_gateway ns n (gw_get K a ns n k)) r) (\<lambda>deployment w.
     and_then (ready_endpoint deployment, w) (\<lambda>endpoint w.
     and_then (queue_of q, w) (\<lambda>h (k, r).
     let job_id = job_id_for sha256 uuid ns n key in
     (case enqueue (qh_redis h) fr (qh_queue h) l job_id (job_payload ns n endpoint txt) r of
        (Inl _, r) \<Rightarrow> (Inl redis_unavailable, k, r)
      | (Inr result, r) \<Rightarrow> (enqueue_answer job_id result, k, r)))))))"

definition job_not_found :: exc where
  "job_not_found = ApiExc (ApiError 404 ''job_not_found'' ''The inference job was not found.'')"

text \<open>\<open>len(job_id) > 64 or not job_id.replace("-", "").isalnum()\<close>.\<close>

definition job_id_ok :: "string \<Rightarrow> bool" where
  "job_id_ok job_id \<longleftrightarrow> length job_id \<le> 64 \<and>
     (let t = filter (\<lambda>c. c \<noteq> CHR ''-'') job_id in t \<noteq> [] \<and> list_all py_isalnum t)"

definition job_view :: "string \<Rightarrow> (string \<times> string) list \<Rightarrow> exc + async_inference_job" where
  "job_view job_id value =
     bind_result
       (case map_of value ''result'' of
          None \<Rightarrow> Inr None
        | Some text \<Rightarrow> (case json_loads text of None \<Rightarrow> Inl (PyExc ValueError) | Some v \<Rightarrow> Inr (Some v)))
       (\<lambda>result.
     case map_of value ''status'' of
       None \<Rightarrow> Inl (PyExc KeyError)
     | Some status \<Rightarrow>
         bind_result
           (case result of
              None \<Rightarrow> Inr None
            | Some JNull \<Rightarrow> Inr None
            | Some (JDict kvs) \<Rightarrow> Inr (Some kvs)
            | Some _ \<Rightarrow> Inl (PyExc ValueError))
           (\<lambda>result. Inr \<lparr> aj_job_id = job_id, aj_status = status, aj_result = result,
                           aj_error = map_of value ''error'' \<rparr>))"

definition get_job ::
  "'r queue_handle option \<Rightarrow> link \<Rightarrow> string \<Rightarrow> 'r \<Rightarrow> (exc + async_inference_job) \<times> 'r" where
  "get_job q l job_id r =
     (if \<not> job_id_ok job_id then (Inl job_not_found, r)
      else and_then (queue_of q, r) (\<lambda>h r.
      case get_record (qh_redis h) l job_id r of
        (Inl _, r) \<Rightarrow> (Inl redis_unavailable, r)
      | (Inr None, r) \<Rightarrow> (Inl job_not_found, r)
      | (Inr (Some value), r) \<Rightarrow> (job_view job_id value, r)))"

end
