(* ===== verification/Registry_Properties.thy ===== *)
theory Registry_Properties
  imports Registry "HOL-Library.Multiset"
begin

text \<open>
  What the registry guarantees while other requests run between its awaits. The rely condition is
  that the rest of the world only adds to the tables (\<open>grows\<close>), and it is also what every route
  guarantees, so the theorems hold for any number of concurrent API processes.
\<close>

section \<open>Growth of the tables\<close>

definition grows :: "('s \<Rightarrow> models) \<Rightarrow> ('s \<Rightarrow> versions) \<Rightarrow> 's \<Rightarrow> 's \<Rightarrow> bool" where
  "grows mview vview s s' \<longleftrightarrow> vview s \<subseteq>\<^sub>m vview s' \<and> dom (mview s) \<subseteq> dom (mview s')"

definition friendly :: "('s \<Rightarrow> models) \<Rightarrow> ('s \<Rightarrow> versions) \<Rightarrow> 's awaits \<Rightarrow> bool" where
  "friendly mview vview aw \<longleftrightarrow> (\<forall>k s. grows mview vview s (fst (aw k) s))"

definition undisturbed :: "'s awaits" where
  "undisturbed k = (id, Delivered)"

lemma grows_refl [simp]: "grows mv vv s s"
  by (simp add: grows_def)

lemma grows_trans: "grows mv vv s t \<Longrightarrow> grows mv vv t u \<Longrightarrow> grows mv vv s u"
  by (auto simp: grows_def intro: map_le_trans)

lemma grows_version: "grows mv vv s t \<Longrightarrow> vv s k = Some r \<Longrightarrow> vv t k = Some r"
  unfolding grows_def map_le_def by (metis domI)

lemma grows_model: "grows mv vv s t \<Longrightarrow> mv s n \<noteq> None \<Longrightarrow> mv t n \<noteq> None"
  by (auto simp: grows_def)

lemma friendly_undisturbed [simp]: "friendly mv vv undisturbed"
  by (simp add: friendly_def undisturbed_def)

lemma await_reading:
  "await a (reading f) s = (r, s') \<Longrightarrow> s' = fst a s \<and> (\<forall>x. r = Some x \<longrightarrow> x = f s')"
  by (cases "snd a") (auto simp: await_def reading_def)

lemma find_version_result:
  "find_version D a n v s = (r, s') \<Longrightarrow>
     s' = fst a s \<and> (r = Inl DatabaseExc \<or> r = Inr (sel_version D n v s'))"
  by (cases "snd a") (auto simp: find_version_def await_def reading_def)

lemma get_model_result:
  "get_model D a n s = (r, s') \<Longrightarrow>
     s' = fst a s \<and> (r = Inl DatabaseExc \<or> r = Inr (sel_model D n s'))"
  by (cases "snd a") (auto simp: get_model_def await_def reading_def)

text \<open>The models by name, in the collation of the database: what every page is cut from.\<close>

definition models_by_name :: "'s sql \<Rightarrow> 's \<Rightarrow> model_row list" where
  "models_by_name D s = sort_key (collate D \<circ> m_name) (scan_models D s)"

context sql_server
begin

lemma ins_model_grows: "grows mview vview s (snd (ins_model D n d s))"
proof -
  obtain c s' where e: "ins_model D n d s = (c, s')" by fastforce
  show ?thesis
  proof (cases "c = Committed")
    case True
    then show ?thesis using ins_model_row [of n d s s'] e by (auto simp: grows_def)
  next
    case False
    then show ?thesis using refused(1) [OF e] e by simp
  qed
qed

text \<open>A version is inserted only where there was none, for a model that is there.\<close>

lemma ins_version_absent:
  assumes "ins_version D n v i a m s = (Committed, s')"
  shows "vview s (n, v) = None" "mview s n \<noteq> None"
  using ins_version_taken [of s n v i a m] assms by force+

lemma ins_version_grows: "grows mview vview s (snd (ins_version D n v i a m s))"
proof -
  obtain c s' where e: "ins_version D n v i a m s = (c, s')" by fastforce
  show ?thesis
  proof (cases "c = Committed")
    case True
    have "vview s \<subseteq>\<^sub>m (vview s)((n, v) \<mapsto> x)" for x
      using ins_version_absent(1) e True by (auto simp: map_le_def)
    then show ?thesis using ins_version_row [of n v i a m s s'] e True by (auto simp: grows_def)
  next
    case False
    then show ?thesis using refused(2) [OF e] e by simp
  qed
qed

lemma upd_model_grows: "grows mview vview s (snd (upd_model D n d s))"
proof -
  obtain c s' where e: "upd_model D n d s = (c, s')" by fastforce
  show ?thesis
  proof (cases "c = Committed")
    case True
    then obtain r where "mview s n = Some r" using upd_model_missing [of s n d] e by auto
    then show ?thesis using upd_model_row [of s n r d s'] e True by (auto simp: grows_def)
  next
    case False
    then show ?thesis using refused(3) [OF e] e by simp
  qed
qed

text \<open>Values that can be stored are stored, or refused by a constraint.\<close>

lemma ins_model_stored:
  assumes "storable_model n d"
  shows "mview s n \<noteq> None \<Longrightarrow> ins_model D n d s = (IntegrityError, s)"
    and "mview s n = None \<Longrightarrow> \<exists>s'. ins_model D n d s = (Committed, s') \<and> vview s' = vview s \<and>
      mview s' = (mview s)(n \<mapsto> \<lparr> m_name = n, m_description = d, m_created_at = clock s, m_updated_at = clock s \<rparr>)"
proof -
  obtain c s' where e: "ins_model D n d s = (c, s')" by fastforce
  have c: "c \<noteq> OtherSqlError" using stored(1) [OF assms, of s] e by simp
  show "mview s n \<noteq> None \<Longrightarrow> ins_model D n d s = (IntegrityError, s)"
    using e c ins_model_taken [of s n d] refused(1) [OF e] by (cases c) auto
  show "mview s n = None \<Longrightarrow> \<exists>s'. ins_model D n d s = (Committed, s') \<and> vview s' = vview s \<and>
      mview s' = (mview s)(n \<mapsto> \<lparr> m_name = n, m_description = d, m_created_at = clock s, m_updated_at = clock s \<rparr>)"
    using e c ins_model_fresh [of s n d] ins_model_row [of n d s s'] by (cases c) auto
qed

lemma ins_version_stored:
  assumes "storable_version storable_json n v i a m"
  shows "vview s (n, v) \<noteq> None \<Longrightarrow> ins_version D n v i a m s = (IntegrityError, s)"
    and "vview s (n, v) = None \<Longrightarrow> mview s n \<noteq> None \<Longrightarrow>
      \<exists>s'. ins_version D n v i a m s = (Committed, s') \<and> vview s' (n, v) \<noteq> None"
proof -
  obtain c s' where e: "ins_version D n v i a m s = (c, s')" by fastforce
  have c: "c \<noteq> OtherSqlError" using stored(2) [OF assms, of s] e by simp
  show "vview s (n, v) \<noteq> None \<Longrightarrow> ins_version D n v i a m s = (IntegrityError, s)"
    using e c ins_version_taken [of s n v i a m] refused(2) [OF e] by (cases c) auto
  show "vview s (n, v) = None \<Longrightarrow> mview s n \<noteq> None \<Longrightarrow>
      \<exists>s'. ins_version D n v i a m s = (Committed, s') \<and> vview s' (n, v) \<noteq> None"
    using e c ins_version_fresh [of s n v i a m] ins_version_row [of n v i a m s s'] by (cases c) auto
qed

lemma upd_model_stored:
  assumes "storable_model n d" "mview s n = Some r"
  shows "\<exists>s'. upd_model D n d s = (Committed, s') \<and> vview s' = vview s \<and>
    mview s' = (mview s)(n \<mapsto> r\<lparr> m_description := d, m_updated_at := clock s \<rparr>)"
proof -
  obtain c s' where e: "upd_model D n d s = (c, s')" by fastforce
  then have "c = Committed" using stored(3) [OF assms(1), of s] assms(2) by simp
  then show ?thesis using upd_model_row [OF assms(2)] e by blast
qed

lemma await_grows:
  assumes "friendly mview vview aw" and "\<And>s. grows mview vview s (snd (f s))"
    and "await (aw k) f s = (r, s')"
  shows "grows mview vview s s'"
proof -
  have "grows mview vview s (fst (aw k) s)" using assms(1) by (simp add: friendly_def)
  moreover have "grows mview vview (fst (aw k) s) s'"
    using call_state_cases [of "snd (aw k)" f "fst (aw k) s"] assms(2) [of "fst (aw k) s"] assms(3)
    by (auto simp: await_def)
  ultimately show ?thesis by (rule grows_trans)
qed

lemma reading_grows [simp]: "grows mview vview s (snd (reading f s))"
  by (simp add: reading_def)

lemmas op_grows = ins_model_grows ins_version_grows upd_model_grows reading_grows

lemma friendly_await_grows:
  assumes "friendly mview vview aw"
  shows "await (aw k) (upd_model D n d) s = (r, s') \<Longrightarrow> grows mview vview s s'"
    and "await (aw k) (ins_model D n d) s = (r', s') \<Longrightarrow> grows mview vview s s'"
    and "await (aw k) (ins_version D n v i a m) s = (r'', s') \<Longrightarrow> grows mview vview s s'"
    and "await (aw k) (reading f) s = (x, s') \<Longrightarrow> grows mview vview s s'"
    and "find_version D (aw k) n v s = (y, s') \<Longrightarrow> grows mview vview s s'"
    and "get_model D (aw k) n s = (z, s') \<Longrightarrow> grows mview vview s s'"
  using assms op_grows
  by (auto dest: await_grows [OF assms, rotated] find_version_result get_model_result
      simp: friendly_def)

lemma put_model_update_grows:
  assumes fr: "friendly mview vview aw"
  shows "put_model_update D aw n m d s = (r, s') \<Longrightarrow> grows mview vview s s'"
  by (auto simp: put_model_update_def refreshed_def
      split: prod.splits option.splits commit.splits if_splits
      dest!: friendly_await_grows [OF fr] intro: grows_trans)

lemma put_model_grows:
  assumes fr: "friendly mview vview aw"
  shows "put_model D aw n d s = (r, s') \<Longrightarrow> grows mview vview s s'"
  by (auto simp: put_model_def refreshed_def
      split: prod.splits option.splits commit.splits
      dest!: friendly_await_grows [OF fr] put_model_update_grows [OF fr] intro: grows_trans)

lemma put_version_grows:
  assumes fr: "friendly mview vview aw"
  shows "put_version D aw n v i a m s = (r, s') \<Longrightarrow> grows mview vview s s'"
  by (auto simp: put_version_def refreshed_def
      split: prod.splits option.splits commit.splits sum.splits
      dest!: friendly_await_grows [OF fr] intro: grows_trans)

text \<open>A version that was written or found stands in the table afterwards.\<close>

lemma insert_version_row:
  assumes "await b (ins_version D n v i a m) s = (Some Committed, s')"
  shows "\<exists>row. vview s' (n, v) = Some row \<and> v_runtime_image row = i \<and>
     v_artifact_digest row = a \<and> v_metadata row = m"
proof -
  let ?s = "fst b s"
  have e: "ins_version D n v i a m ?s = (Committed, s')"
    using assms by (cases "snd b") (auto simp: await_def prod_eq_iff)
  then show ?thesis using ins_version_row [OF e] by force
qed

lemma find_version_Some:
  "find_version D a n v s = (Inr (Some row), s') \<Longrightarrow> vview s' (n, v) = Some row"
  by (drule find_version_result) (simp add: sel_version)

lemma refresh_created:
  assumes fr: "friendly mview vview aw"
    and ins: "await (aw k) (ins_version D n v i a m) s = (Some Committed, t)"
    and rd: "await (aw l) (reading (sel_version D n v)) t = (Some (Some row), s')"
  shows "vview s' (n, v) = Some row \<and> v_runtime_image row = i \<and> v_artifact_digest row = a \<and>
    v_metadata row = m"
proof -
  have "vview s' (n, v) = Some row" using await_reading [OF rd] by (simp add: sel_version)
  moreover have "grows mview vview t s'" using friendly_await_grows(4) [OF fr rd] .
  ultimately show ?thesis
    using insert_version_row [OF ins] grows_version [of mview vview t s'] by force
qed

lemma put_version_row:
  assumes fr: "friendly mview vview aw"
    and "put_version D aw n v i a m s = (Inr w, s')"
  shows "vview s' (n, v) = Some (wr_value w) \<and>
    (wr_created w \<longrightarrow> v_runtime_image (wr_value w) = i \<and> v_artifact_digest (wr_value w) = a \<and>
       v_metadata (wr_value w) = m)"
  using assms(2) unfolding put_version_def refreshed_def
  by (auto split: prod.splits option.splits commit.splits sum.splits
      dest: find_version_Some refresh_created [OF fr])

lemma put_version_route_row:
  assumes fr: "friendly mview vview aw"
    and "put_version_route feq D aw nm ver body s = (Inr (st, r), s')"
    and "ResourceName nm = Inr n" and "VersionName ver = Inr v"
  shows "\<exists>b row. VersionCreate body = Inr b \<and> vview s' (n, v) = Some row \<and> r = VersionRead row \<and>
    (st = 201 \<and> v_runtime_image row = vc_runtime_image b \<and>
       v_artifact_digest row = vc_artifact_digest b \<and> v_metadata row = vc_metadata b \<or>
     st = 200 \<and> version_matches feq row (vc_runtime_image b) (vc_artifact_digest b) (vc_metadata b))"
  using assms(2-4) unfolding put_version_route_def and_then_def path_arg_def
  by (auto simp: checked_Inr_iff checked_iffs dest!: put_version_row [OF fr]
      split: prod.splits sum.splits if_splits)

lemma put_version_route_model:
  assumes fr: "friendly mview vview aw"
    and "put_version_route feq D aw nm ver body s = (Inr x, s')"
    and "ResourceName nm = Inr n"
  shows "mview s' n \<noteq> None"
proof -
  obtain m t where gm: "get_model D (aw 0) n s = (Inr (Some m), t)" and g: "grows mview vview t s'"
    using assms(2,3) unfolding put_version_route_def and_then_def path_arg_def
    by (fastforce simp: checked_Inr_iff checked_iffs dest!: put_version_grows [OF fr]
        split: prod.splits sum.splits if_splits)
  have "mview t n \<noteq> None" using get_model_result [OF gm] by (metis Inr_not_Inl option.distinct(1) sel_model sum.inject(2))
  then show ?thesis by (rule grows_model [OF g])
qed

lemma get_version_route_row:
  assumes "get_version_route D aw nm ver s = (Inr r, s')"
    and "ResourceName nm = Inr n" and "VersionName ver = Inr v"
  shows "\<exists>row. vview s' (n, v) = Some row \<and> r = VersionRead row"
  using assms unfolding get_version_route_def and_then_def path_arg_def get_version_def
  by (auto simp: checked_Inr_iff checked_iffs dest!: find_version_Some
      split: prod.splits sum.splits if_splits option.splits)

lemma route_growths:
  assumes fr: "friendly mview vview aw"
  shows "grows mview vview s (snd (put_model_route D aw nm body s))"
    and "grows mview vview s (snd (put_version_route feq D aw nm ver body s))"
    and "grows mview vview s (snd (get_model_route D aw nm s))"
    and "grows mview vview s (snd (get_version_route D aw nm ver s))"
    and "grows mview vview s (snd (list_models_route P D aw lm off s))"
    and "grows mview vview s (snd (list_versions_route P D aw nm lm off s))"
  by (auto simp: put_model_route_def put_version_route_def get_model_route_def get_version_route_def
      list_models_route_def list_versions_route_def and_then_def get_version_def
      list_models_def list_versions_def
      split: prod.splits sum.splits if_splits option.splits
      dest!: friendly_await_grows [OF fr] put_version_grows [OF fr] put_model_grows [OF fr]
      intro: grows_trans)

lemma put_version_route_again:
  assumes row: "vview (fst (aw 1) (fst (aw 0) s)) (n, v) = Some row"
    and model: "mview (fst (aw 0) s) n \<noteq> None"
    and up: "snd (aw 0) = Delivered" "snd (aw 1) = Delivered"
    and args: "ResourceName nm = Inr n" "VersionName ver = Inr v" "VersionCreate body = Inr b"
  shows "put_version_route feq D aw nm ver body s =
    (if version_matches feq row (vc_runtime_image b) (vc_artifact_digest b) (vc_metadata b)
     then Inr (200, VersionRead row) else Inl (version_conflict n v),
     fst (aw 1) (fst (aw 0) s))"
  using assms
  by (auto simp: put_version_route_def and_then_def path_arg_def both_def under_def at_root_def
      get_model_def put_version_def find_version_def await_def reading_def sel_model sel_version)

lemma immutable:
  assumes fr: "friendly mview vview aw" "friendly mview vview aw'"
    and first: "put_version_route feq D aw nm ver body s = (Inr (st, r), s')"
    and g: "grows mview vview s' t"
    and same: "ResourceName nm = ResourceName nm'" "VersionName ver = VersionName ver'"
  shows "(case put_version_route feq D aw' nm' ver' body' t of
            (Inl e, _) \<Rightarrow> True | (Inr (st', r'), _) \<Rightarrow> r' = r) \<and>
         (case get_version_route D aw' nm' ver' t of
            (Inl e, _) \<Rightarrow> True | (Inr r', _) \<Rightarrow> r' = r)"
proof -
  obtain n v where nv: "ResourceName nm = Inr n" "VersionName ver = Inr v"
    using first
    by (auto simp: put_version_route_def and_then_def path_arg_def checked_Inr_iff checked_iffs
        split: sum.splits)
  then have nv': "ResourceName nm' = Inr n" "VersionName ver' = Inr v" using same by simp_all
  obtain row where row: "vview t (n, v) = Some row" "r = VersionRead row"
    using put_version_route_row [OF fr(1) first nv] grows_version [OF g] by blast
  have kept: "vview u (n, v) = Some row" if "grows mview vview t u" for u
    using grows_version [OF that row(1)] .
  have p: "r' = r" if e: "put_version_route feq D aw' nm' ver' body' t = (Inr (st', r'), u)" for st' r' u
    using put_version_route_row [OF fr(2) e nv'] kept [of u] row(2)
      route_growths(2) [OF fr(2), of t feq nm' ver' body'] by (auto simp: e)
  have q: "r' = r" if e: "get_version_route D aw' nm' ver' t = (Inr r', u)" for r' u
    using get_version_route_row [OF e nv'] kept [of u] row(2)
      route_growths(4) [OF fr(2), of t nm' ver'] by (auto simp: e)
  show ?thesis using p q by (auto split: prod.splits sum.splits)
qed

lemma put_again:
  assumes fr: "friendly mview vview aw" "friendly mview vview aw'"
    and first: "put_version_route feq D aw nm ver body s = (Inr (st, r), s')"
    and g: "grows mview vview s' t"
    and up: "snd (aw' 0) = Delivered" "snd (aw' 1) = Delivered"
    and eq: "self_equal feq (JDict (vr_metadata r))"
  shows "put_version_route feq D aw' nm ver body t =
    (Inr (200, r), fst (aw' 1) (fst (aw' 0) t)) \<and> (st = 201 \<or> st = 200)"
proof -
  let ?t0 = "fst (aw' 0) t" and ?t1 = "fst (aw' 1) (fst (aw' 0) t)"
  obtain n v b where args: "ResourceName nm = Inr n" "VersionName ver = Inr v"
      "VersionCreate body = Inr b"
    using first
    by (auto simp: put_version_route_def and_then_def path_arg_def checked_Inr_iff checked_iffs
        split: sum.splits)
  obtain row where row: "vview s' (n, v) = Some row" "r = VersionRead row"
    and st: "st = 201 \<and> v_runtime_image row = vc_runtime_image b \<and>
       v_artifact_digest row = vc_artifact_digest b \<and> v_metadata row = vc_metadata b \<or>
     st = 200 \<and> version_matches feq row (vc_runtime_image b) (vc_artifact_digest b) (vc_metadata b)"
    using put_version_route_row [OF fr(1) first args(1,2)] args(3) by auto
  have m: "version_matches feq row (vc_runtime_image b) (vc_artifact_digest b) (vc_metadata b)"
    using st py_eq_refl [OF eq] row(2) by (auto simp: version_matches_def VersionRead_def)
  have g01: "grows mview vview s' ?t0" "grows mview vview s' ?t1"
    using fr(2) g grows_trans unfolding friendly_def by metis+
  have "vview ?t1 (n, v) = Some row" by (rule grows_version [OF g01(2) row(1)])
  moreover have "mview ?t0 n \<noteq> None"
    by (rule grows_model [OF g01(1) put_version_route_model [OF fr(1) first args(1)]])
  ultimately show ?thesis using put_version_route_again [OF _ _ up args] m row(2) st by auto
qed

lemma put_model_undisturbed:
  assumes args: "ResourceName nm = Inr n" "ModelUpsert body = Inr b"
    and ok: "absent_or no_nul (mu_description b)"
    and run: "put_model_route D undisturbed nm body s = (res, s')"
  shows "case mview s n of
      None \<Rightarrow>
        (let m = \<lparr> m_name = n, m_description = mu_description b, m_created_at = clock s,
                   m_updated_at = clock s \<rparr> in
         res = Inr (201, ModelRead m) \<and> mview s' = (mview s)(n \<mapsto> m) \<and> vview s' = vview s)
    | Some m \<Rightarrow>
        if m_description m = mu_description b then res = Inr (200, ModelRead m) \<and> s' = s
        else (let m' = m\<lparr> m_description := mu_description b, m_updated_at := clock s \<rparr> in
              res = Inr (200, ModelRead m') \<and> mview s' = (mview s)(n \<mapsto> m') \<and> vview s' = vview s)"
proof (cases "mview s n")
  case None
  have st: "storable_model n (mu_description b)" using ResourceName_text [OF args(1)] ok by (simp add: storable_model_def)
  show ?thesis using run args ins_model_stored(2) [OF st None] None
    by (auto simp: put_model_route_def and_then_def path_arg_def both_def under_def at_root_def
        put_model_def await_def reading_def undisturbed_def sel_model refreshed_def)
next
  case (Some m)
  have st: "storable_model n (mu_description b)" using ResourceName_text [OF args(1)] ok by (simp add: storable_model_def)
  show ?thesis using run args upd_model_stored [OF st Some] Some
    by (auto simp: put_model_route_def and_then_def path_arg_def both_def under_def at_root_def
        put_model_def await_def reading_def undisturbed_def sel_model refreshed_def
        put_model_update_def)
qed

text \<open>With the database reachable no interleaving makes a write fail.\<close>

lemma await_up: "snd a = Delivered \<Longrightarrow> await a f s = (Some (fst (f (fst a s))), snd (f (fst a s)))"
  by (simp add: await_def)

lemma model_stays:
  assumes "friendly mview vview aw" and "mview s n \<noteq> None"
  shows "mview (fst (aw k) s) n \<noteq> None"
  using assms grows_model unfolding friendly_def by metis

lemma put_model_update_up:
  assumes fr: "friendly mview vview aw" and up: "\<forall>k. snd (aw k) = Delivered"
    and m: "mview s n \<noteq> None" and st: "storable_model n d"
  shows "fst (put_model_update D aw n r d s) \<noteq> Inl e"
proof (cases "m_description r = d")
  case False
  let ?t = "fst (aw 4) s"
  obtain x where x: "mview ?t n = Some x" using model_stays [OF fr m] by blast
  obtain t where e: "upd_model D n d ?t = (Committed, t)" "mview t n \<noteq> None"
    using upd_model_stored [OF st x] by auto
  from model_stays [OF fr e(2), of 5] show ?thesis using False up
    by (auto simp: put_model_update_def await_up e(1) reading_def refreshed_def sel_model)
qed (simp add: put_model_update_def)

lemma put_model_up:
  assumes fr: "friendly mview vview aw" and up: "\<forall>k. snd (aw k) = Delivered" and st: "storable_model n d"
  shows "fst (put_model D aw n d s) \<noteq> Inl e"
proof -
  let ?s0 = "fst (aw 0) s" and ?s1 = "fst (aw 1) (fst (aw 0) s)"
  show ?thesis
  proof (cases "mview ?s0 n")
    case (Some m)
    then show ?thesis using put_model_update_up [OF fr up _ st, of ?s0 m e]
      by (simp add: put_model_def await_up up reading_def sel_model)
  next
    case None
    show ?thesis
    proof (cases "mview ?s1 n")
      case (Some m)
      let ?s3 = "fst (aw 3) ?s1"
      obtain x where "mview ?s3 n = Some x" using model_stays [OF fr, of ?s1 n 3] Some by auto
      then show ?thesis
        using put_model_update_up [OF fr up _ st, of ?s3 x e] ins_model_stored(1) [OF st, of ?s1] Some None
        by (simp add: put_model_def await_up up reading_def sel_model)
    next
      case n1: None
      obtain t where e: "ins_model D n d ?s1 = (Committed, t)" "mview t n \<noteq> None"
        using ins_model_stored(2) [OF st n1] by auto
      from model_stays [OF fr e(2), of 2] show ?thesis using None n1
        by (auto simp: put_model_def await_up up reading_def sel_model e(1) refreshed_def
            simp del: One_nat_def)
    qed
  qed
qed

lemma put_version_up:
  assumes fr: "friendly mview vview aw" and up: "\<forall>k. snd (aw k) = Delivered"
    and m: "mview s n \<noteq> None" and st: "storable_version storable_json n v i a md"
  shows "fst (put_version D aw n v i a md s) \<noteq> Inl e"
proof -
  let ?s1 = "fst (aw 1) s" and ?s2 = "fst (aw 2) (fst (aw 1) s)"
  have m2: "mview ?s2 n \<noteq> None" using model_stays [OF fr] m by blast
  note sims = put_version_def find_version_def await_up up reading_def sel_version refreshed_def
  show ?thesis
  proof (cases "vview ?s1 (n, v)")
    case None
    show ?thesis
    proof (cases "vview ?s2 (n, v)")
      case (Some r)
      have "grows mview vview ?s2 (fst (aw 4) ?s2)" using fr by (simp add: friendly_def)
      from grows_version [OF this Some] show ?thesis using None Some ins_version_stored(1) [OF st, of ?s2]
        by (simp add: sims del: One_nat_def)
    next
      case n2: None
      obtain t r where e: "ins_version D n v i a md ?s2 = (Committed, t)" and r: "vview t (n, v) = Some r"
        using ins_version_stored(2) [OF st n2 m2] by auto
      have "grows mview vview t (fst (aw 3) t)" using fr by (simp add: friendly_def)
      from grows_version [OF this r] show ?thesis using None
        by (simp add: sims e del: One_nat_def)
    qed
  qed (simp add: sims)
qed

text \<open>What the request schemas accept can be stored, but for a NUL and for numbers JSON does not have.\<close>

lemma accepted_model:
  "ResourceName nm = Inr n \<Longrightarrow> absent_or no_nul d \<Longrightarrow> storable_model n d"
  by (simp add: storable_model_def ResourceName_text)

lemma accepted_version:
  assumes "ResourceName nm = Inr n" "VersionName ver = Inr v" "VersionCreate body = Inr b"
    and "no_nul (vc_runtime_image b)" "storable_json (vc_metadata b)"
  shows "storable_version storable_json n v (vc_runtime_image b) (vc_artifact_digest b) (vc_metadata b)"
  using ResourceName_text [OF assms(1)] VersionName_text [OF assms(2)] VersionCreate_ok [OF assms(3)]
    digest_text assms(4,5)
  by (cases "vc_artifact_digest b") (auto simp: storable_version_def image_ok_def)

lemma model_route_up:
  assumes fr: "friendly mview vview aw" and up: "\<forall>k. snd (aw k) = Delivered"
    and ok: "\<And>b. ModelUpsert body = Inr b \<Longrightarrow> absent_or no_nul (mu_description b)"
  shows "fst (put_model_route D aw nm body s) \<noteq> Inl DatabaseExc"
proof (cases "checked (both (path_arg ''model_name'' ResourceName nm) (under ''body'' (ModelUpsert body)))")
  case (Inl e)
  then show ?thesis by (auto simp: put_model_route_def and_then_def checked_def split: sum.splits)
next
  case (Inr p)
  obtain n b where p: "p = (n, b)" by (cases p)
  have nb: "ResourceName nm = Inr n" "ModelUpsert body = Inr b"
    using Inr p by (auto simp: checked_Inr_iff checked_iffs path_arg_def)
  have "fst (put_model D aw n (mu_description b) s) \<noteq> Inl DatabaseExc"
    by (rule put_model_up [OF fr up accepted_model [OF nb(1) ok [OF nb(2)]]])
  then show ?thesis using Inr p
    by (auto simp: put_model_route_def and_then_def split: prod.splits sum.splits)
qed

lemma version_route_up:
  assumes fr: "friendly mview vview aw" and up: "\<forall>k. snd (aw k) = Delivered"
    and ok: "\<And>b. VersionCreate body = Inr b \<Longrightarrow> no_nul (vc_runtime_image b) \<and> storable_json (vc_metadata b)"
  shows "fst (put_version_route feq D aw nm ver body s) \<noteq> Inl DatabaseExc"
proof (cases "checked (both (path_arg ''model_name'' ResourceName nm)
    (both (path_arg ''version'' VersionName ver) (under ''body'' (VersionCreate body))))")
  case (Inl e)
  then show ?thesis by (auto simp: put_version_route_def and_then_def checked_def split: sum.splits)
next
  case (Inr p)
  obtain n v b where p: "p = (n, v, b)" by (cases p) auto
  have nb: "ResourceName nm = Inr n" "VersionName ver = Inr v" "VersionCreate body = Inr b"
    using Inr p by (auto simp: checked_Inr_iff checked_iffs path_arg_def)
  have "storable_version storable_json n v (vc_runtime_image b) (vc_artifact_digest b) (vc_metadata b)"
    using accepted_version [OF nb] ok [OF nb(3)] by blast
  note w = put_version_up [OF fr up _ this]
  show ?thesis using Inr p w [of "fst (aw 0) s" DatabaseExc]
    by (auto simp: put_version_route_def and_then_def get_model_def await_up up reading_def sel_model
        model_not_found_def version_conflict_def split: prod.splits sum.splits)
qed

lemma pages_source:
  shows "distinct (models_by_name D s)" "set (models_by_name D s) = ran (mview s)"
    and "mview t = mview s \<Longrightarrow> models_by_name D t = models_by_name D s"
proof -
  have inj: "inj_on (collate D \<circ> m_name) (ran (mview u))" for u
    using collate_inj keys(1) by (fastforce simp: inj_on_def ran_def dest: injD)
  show "distinct (models_by_name D s)" "set (models_by_name D s) = ran (mview s)"
    by (simp_all add: models_by_name_def scans)
  assume e: "mview t = mview s"
  have "mset (scan_models D t) = mset (scan_models D s)"
    using e scans(1,2) [of s] scans(1,2) [of t] set_eq_iff_mset_eq_distinct by metis
  then show "models_by_name D t = models_by_name D s"
    unfolding models_by_name_def using inj scans(2) by (intro sort_key_inj_key_eq) simp_all
qed

lemma models_page:
  assumes "pydantic_lax P" and "1 \<le> l" "l \<le> 100" and "0 \<le> k" "k < 10 ^ 18"
  shows "list_models_route P D undisturbed (Some (show_int l)) (Some (show_int k)) s =
    (Inr \<lparr> pg_items = map ModelRead (take (nat l) (drop (nat k) (models_by_name D s))), pg_limit = l,
           pg_offset = k \<rparr>, s)"
  using pydantic_lax.lax_int_text [OF assms(1), of l] pydantic_lax.lax_int_text [OF assms(1), of k]
    assms
  by (simp add: list_models_route_def and_then_def query_int_def page_offset_def any_int_def
      int_range_def both_def under_def list_models_def await_def reading_def undisturbed_def
      page_models_def order_limit_def models_by_name_def)

end

lemma concat_pages: "concat (map (\<lambda>i. take l (drop (i * l) xs)) [0..<k]) = take (k * l) xs"
proof (induction k)
  case (Suc k)
  then show ?case using take_add [of "k * l" l xs] by (simp add: add.commute)
qed simp

section \<open>Demonstration data\<close>

definition demo_db :: mem_db where
  "demo_db = \<lparr> tab_models = [\<lparr> m_name = ''sentiment'', m_description = None,
     m_created_at = 1, m_updated_at = 1 \<rparr>], tab_versions = [], db_clock = 5 \<rparr>"

definition demo_read :: version_read where
  "demo_read = \<lparr> vr_model_name = ''sentiment'', vr_version = ''v1'',
     vr_runtime_image = ''registry/sentiment:1'', vr_artifact_digest = None, vr_metadata = [],
     vr_created_at = 5 \<rparr>"

definition demo_db_v1 :: mem_db where
  "demo_db_v1 = snd (put_version_route (=) mem_sql undisturbed ''sentiment'' ''v1''
     sample_version_body demo_db)"

lemma demo_put:
  "put_version_route (=) mem_sql undisturbed ''sentiment'' ''v1'' sample_version_body demo_db =
     (Inr (201, demo_read), demo_db_v1)"
  by code_simp

lemma demo_names: "ResourceName ''sentiment'' = Inr ''sentiment''" "VersionName ''v1'' = Inr ''v1''"
  by code_simp+

section \<open>Properties\<close>

text \<open>
  The registry is append-only under concurrency: if everything that runs between the awaits of
  a request only adds models and versions, then so does the request itself, whichever route it
  takes and wherever a round trip to the database is lost. No stored version is ever changed or
  removed and no model ever disappears.
\<close>

theorem registry_append_only:
  assumes "sql_server D mview vview clock storable_json" and "friendly mview vview aw"
  shows "grows mview vview s (snd (put_model_route D aw nm body s)) \<and>
    grows mview vview s (snd (put_version_route feq D aw nm ver body s)) \<and>
    grows mview vview s (snd (get_model_route D aw nm s)) \<and>
    grows mview vview s (snd (get_version_route D aw nm ver s)) \<and>
    grows mview vview s (snd (list_models_route P D aw lm off s)) \<and>
    grows mview vview s (snd (list_versions_route P D aw nm lm off s))"
  by (intro conjI sql_server.route_growths [OF assms])

theorem registry_append_only_witness:
  "grows mem_models mem_versions demo_db demo_db_v1"
  using registry_append_only [OF mem_db.sql_server_axioms friendly_undisturbed, of demo_db]
  unfolding demo_db_v1_def by blast

text \<open>
  (C15) Versions are immutable: a request that answers with a version answers with the row the
  database keeps, and every later successful request for the same version (a repeated or competing
  registration by any process, or a read) answers with exactly the same version, whatever body it
  carries.
\<close>

theorem versions_immutable:
  assumes "sql_server D mview vview clock storable_json"
    and "friendly mview vview aw" and "friendly mview vview aw'"
    and "put_version_route feq D aw nm ver body s = (Inr (st, r), s')"
    and "grows mview vview s' t"
    and "ResourceName nm = ResourceName nm'" and "VersionName ver = VersionName ver'"
  shows "(case put_version_route feq D aw' nm' ver' body' t of
            (Inl e, _) \<Rightarrow> True | (Inr (st', r'), _) \<Rightarrow> r' = r) \<and>
         (case get_version_route D aw' nm' ver' t of
            (Inl e, _) \<Rightarrow> True | (Inr r', _) \<Rightarrow> r' = r)"
  using sql_server.immutable [OF assms] .

theorem versions_immutable_witness:
  "(case put_version_route (=) mem_sql undisturbed ''sentiment '' ''v1'' sample_version_body demo_db_v1 of
      (Inl e, _) \<Rightarrow> False | (Inr (st', r'), _) \<Rightarrow> r' = demo_read)"
proof -
  have r: "ResourceName ''sentiment'' = ResourceName ''sentiment ''" by code_simp
  have "fst (put_version_route (=) mem_sql undisturbed ''sentiment '' ''v1'' sample_version_body
      demo_db_v1) = Inr (200, demo_read)" by code_simp
  then show ?thesis
    using versions_immutable [OF mem_db.sql_server_axioms friendly_undisturbed friendly_undisturbed
        demo_put grows_refl r refl, of sample_version_body]
    by (auto split: prod.splits)
qed

text \<open>
  Registering a version: a success answers with the stored row, 201 when the row holds exactly
  the submitted content and was created by this request, 200 when it was there already and equals
  the submitted content; repeating the request later, when the database answers, gives 200 with the
  same version and writes nothing.
\<close>

theorem put_version_idempotent:
  assumes "sql_server D mview vview clock storable_json"
    and "friendly mview vview aw" and "friendly mview vview aw'"
    and "put_version_route feq D aw nm ver body s = (Inr (st, r), s')"
    and "grows mview vview s' t"
    and "snd (aw' 0) = Delivered" and "snd (aw' 1) = Delivered"
    and "self_equal feq (JDict (vr_metadata r))"
  shows "put_version_route feq D aw' nm ver body t =
           (Inr (200, r), fst (aw' 1) (fst (aw' 0) t)) \<and> (st = 201 \<or> st = 200)"
  using sql_server.put_again [OF assms] .

theorem put_version_idempotent_witness:
  "fst (put_version_route (=) mem_sql undisturbed ''sentiment'' ''v1'' sample_version_body demo_db_v1)
     = Inr (200, demo_read)"
  using put_version_idempotent [OF mem_db.sql_server_axioms friendly_undisturbed friendly_undisturbed
      demo_put grows_refl]
  by (simp add: undisturbed_def demo_read_def)

text \<open>
  Registering a model with nothing in between: a new name is inserted with its description and
  the server's time and answered 201; a known name keeps its creation time, its description is
  replaced and its update time moved only when the description differs, and it is answered 200.
  Versions are never touched.
\<close>

theorem put_model_effect:
  assumes "sql_server D mview vview clock storable_json"
    and "ResourceName nm = Inr n" and "ModelUpsert body = Inr b" and "absent_or no_nul (mu_description b)"
    and "put_model_route D undisturbed nm body s = (res, s')"
  shows "case mview s n of
      None \<Rightarrow>
        (let m = \<lparr> m_name = n, m_description = mu_description b, m_created_at = clock s,
                   m_updated_at = clock s \<rparr> in
         res = Inr (201, ModelRead m) \<and> mview s' = (mview s)(n \<mapsto> m) \<and> vview s' = vview s)
    | Some m \<Rightarrow>
        if m_description m = mu_description b then res = Inr (200, ModelRead m) \<and> s' = s
        else (let m' = m\<lparr> m_description := mu_description b, m_updated_at := clock s \<rparr> in
              res = Inr (200, ModelRead m') \<and> mview s' = (mview s)(n \<mapsto> m') \<and> vview s' = vview s)"
  using sql_server.put_model_undisturbed [OF assms] .

theorem put_model_effect_witness:
  "fst (put_model_route mem_sql undisturbed ''sentiment'' (JDict [(''description'', JStr ''x'')]) demo_db)
     = Inr (200, \<lparr> mr_name = ''sentiment'', mr_description = Some ''x'', mr_created_at = 1,
                   mr_updated_at = 5 \<rparr>)"
proof -
  have b: "ModelUpsert (JDict [(''description'', JStr ''x'')]) = Inr \<lparr> mu_description = Some ''x'' \<rparr>"
    by code_simp
  show ?thesis
    using put_model_effect [OF mem_db.sql_server_axioms demo_names(1) b _ prod.collapse [symmetric],
        of demo_db]
    by (simp add: demo_db_def Let_def ModelRead_def mem_models_def keyed_def no_nul_def)
qed

text \<open>
  (C18) No race fails a registration. While the database answers and can store the values of the request
  (a description and a runtime image without NUL, and metadata that PostgreSQL's JSON type holds, which
  excludes NaN and infinities), neither write route ends in a database error, however the concurrent
  inserts and updates of other processes fall between its awaits: a lost insert race becomes an update
  or a comparison with the winner's row.
\<close>

theorem writes_survive_races:
  assumes "sql_server D mview vview clock storable_json" and "friendly mview vview aw"
    and "\<forall>k. snd (aw k) = Delivered"
    and "\<And>b. ModelUpsert body = Inr b \<Longrightarrow> absent_or no_nul (mu_description b)"
    and "\<And>b. VersionCreate vbody = Inr b \<Longrightarrow> no_nul (vc_runtime_image b) \<and> storable_json (vc_metadata b)"
  shows "fst (put_model_route D aw nm body s) \<noteq> Inl DatabaseExc \<and>
    fst (put_version_route feq D aw nm ver vbody s) \<noteq> Inl DatabaseExc"
  using sql_server.model_route_up [OF assms(1-4)] sql_server.version_route_up [OF assms(1-3,5)] by blast

definition racing :: "mem_db awaits" where
  "racing k = (if k = 2
     then (\<lambda>s. snd (mem_ins_version ''sentiment'' ''v1'' ''other:1'' None [] s), Delivered)
     else (id, Delivered))"

lemma racing_friendly:
  "friendly mem_models mem_versions racing"
proof -
  have i: "mem_ins_version = ins_version mem_sql" by (simp add: mem_sql_def)
  show ?thesis
    unfolding friendly_def racing_def i using mem_db.ins_version_grows by simp
qed

theorem writes_survive_races_witness:
  "fst (put_version_route (=) mem_sql racing ''sentiment'' ''v1'' sample_version_body demo_db)
     \<noteq> Inl DatabaseExc \<and>
   fst (put_version_route (=) mem_sql racing ''sentiment'' ''v1'' sample_version_body demo_db)
     = Inl (version_conflict ''sentiment'' ''v1'')"
proof
  show "fst (put_version_route (=) mem_sql racing ''sentiment'' ''v1'' sample_version_body demo_db)
     \<noteq> Inl DatabaseExc"
  proof (rule conjunct2 [OF writes_survive_races [OF mem_db.sql_server_axioms racing_friendly,
          where body = "JDict []"]])
    have "ModelUpsert (JDict []) = Inr \<lparr> mu_description = None \<rparr>" by code_simp
    then show "absent_or no_nul (mu_description b)" if "ModelUpsert (JDict []) = Inr b" for b using that by simp
    have "case VersionCreate sample_version_body of Inl _ \<Rightarrow> False
        | Inr b \<Rightarrow> no_nul (vc_runtime_image b) \<and> mem_json (vc_metadata b)" by code_simp
    then show "no_nul (vc_runtime_image b) \<and> mem_json (vc_metadata b)" if "VersionCreate sample_version_body = Inr b" for b
      using that by simp
  qed (simp add: racing_def)
  show "fst (put_version_route (=) mem_sql racing ''sentiment'' ''v1'' sample_version_body demo_db)
     = Inl (version_conflict ''sentiment'' ''v1'')" by code_simp
qed

text \<open>
  (C29) Listing models page by page. A client reads the pages at consecutive multiples of a limit between
  1 and 100, each in a request of its own, while the set of models stays the same; the server may find
  the rows in another order each time. The pages together list every registered model exactly once, in
  the order of the names in the database's collation, because the query orders by the primary key.
\<close>

theorem model_pages_complete:
  assumes "sql_server D mview vview clock storable_json" and "pydantic_lax P"
    and "1 \<le> l" and "l \<le> 100" and "int k * l < 10 ^ 18" and "card (ran (mview s)) \<le> k * nat l"
    and "\<And>i. mview (t i) = mview s"
  shows "\<exists>rs. distinct rs \<and> set rs = ran (mview s) \<and> sorted (map (collate D \<circ> m_name) rs) \<and>
    concat (map (\<lambda>i. case fst (list_models_route P D undisturbed (Some (show_int l))
                              (Some (show_int (int i * l))) (t i))
                      of Inr p \<Rightarrow> pg_items p | Inl _ \<Rightarrow> []) [0..<k]) = map ModelRead rs"
proof -
  let ?page = "\<lambda>i. case fst (list_models_route P D undisturbed (Some (show_int l))
                 (Some (show_int (int i * l))) (t i)) of Inr p \<Rightarrow> pg_items p | Inl _ \<Rightarrow> []"
  let ?rs = "models_by_name D s"
  note rs = sql_server.pages_source [OF assms(1)]
  let ?rows = "\<lambda>i. take (nat l) (drop (i * nat l) ?rs)"
  have "?page i = map ModelRead (?rows i)" if "i < k" for i
  proof -
    have "int i * l \<le> int k * l" using that assms(3) by (intro mult_right_mono) simp_all
    then have "int i * l < 10 ^ 18" using assms(5) by linarith
    then show ?thesis
      using sql_server.models_page [OF assms(1-4), of "int i * l" "t i"] rs(3) [OF assms(7), of i] assms(3)
      by (simp add: nat_mult_distrib)
  qed
  then have eq: "map ?page [0..<k] = map (map ModelRead \<circ> ?rows) [0..<k]"
    by (intro map_cong) simp_all
  have "length ?rs \<le> k * nat l" using assms(6) rs(1,2) [of s] by (metis distinct_card)
  then have "concat (map ?page [0..<k]) = map ModelRead ?rs"
    unfolding eq map_map [symmetric] map_concat [symmetric] by (simp add: concat_pages)
  moreover have "sorted (map (collate D \<circ> m_name) ?rs)"
    by (simp add: models_by_name_def)
  ultimately show ?thesis using rs(1,2) by blast
qed

text \<open>The two orders in which a server may find the rows of a table.\<close>

definition two_models :: "bool \<Rightarrow> mem_db" where
  "two_models b = (let x = \<lparr> m_name = ''b'', m_description = None, m_created_at = 1, m_updated_at = 1 \<rparr>;
       y = \<lparr> m_name = ''a'', m_description = None, m_created_at = 2, m_updated_at = 2 \<rparr> in
     \<lparr> tab_models = (if b then [x, y] else [y, x]), tab_versions = [], db_clock = 5 \<rparr>)"

theorem model_pages_complete_witness:
  "\<exists>rs. distinct rs \<and> set rs = ran (mem_models (two_models True)) \<and> length rs = 2 \<and>
     concat (map (\<lambda>i. case fst (list_models_route plain_pydantic mem_sql undisturbed (Some (show_int 1))
                                   (Some (show_int (int i * 1))) (two_models (i = 0)))
                          of Inr p \<Rightarrow> pg_items p | Inl _ \<Rightarrow> []) [0..<2]) = map ModelRead rs"
proof -
  have m: "mem_models (two_models b) = mem_models (two_models True)" for b
    by (auto simp: two_models_def mem_models_def keyed_def fun_eq_iff Let_def)
  have c: "card (ran (mem_models (two_models True))) = 2"
    using mem_db.scans(1,2) [of "two_models True"] distinct_card [of "scan_models mem_sql (two_models True)"]
    by (simp add: mem_sql_def two_models_def rows_def keyed_def)
  obtain rs where "distinct rs" "set rs = ran (mem_models (two_models True))"
     "concat (map (\<lambda>i. case fst (list_models_route plain_pydantic mem_sql undisturbed (Some (show_int 1))
                                   (Some (show_int (int i * 1))) (two_models (i = 0)))
                          of Inr p \<Rightarrow> pg_items p | Inl _ \<Rightarrow> []) [0..<2]) = map ModelRead rs"
    using model_pages_complete [OF mem_db.sql_server_axioms plain.pydantic_lax_axioms, of 1 2 "two_models True"
        "\<lambda>i. two_models (i = 0)"] m c by auto
  then show ?thesis using c distinct_card [of rs] by metis
qed

end
