(* ===== verification/Deployment_Properties.thy ===== *)
theory Deployment_Properties
  imports Deployments Registry_Properties
begin

text \<open>
  What the deployment routes guarantee: which resource they apply and what they answer, that a
  rollback keeps everything but the version and never overwrites a concurrent change, which errors
  a client can see, and when an endpoint counts as ready.
\<close>

section \<open>Reading resources\<close>

lemma getitem_Inr_iff: "getitem v k = Inr x \<longleftrightarrow> (\<exists>kvs. v = JDict kvs \<and> map_of kvs k = Some x)"
  by (cases v) (auto split: option.splits)

lemma getitem_Inl: "getitem v k = Inl e \<Longrightarrow> e = KeyError \<or> e = TypeError"
  by (cases v) (auto split: option.splits)

lemma validated_Inr_iff: "validated c = Inr x \<longleftrightarrow> c = Inr x"
  by (cases c) (auto simp: validated_def)

lemma validated_Inl: "validated c = Inl e \<Longrightarrow> e = ValueError"
  by (cases c) (auto simp: validated_def)

lemma any_int_Inr_iff: "any_int P v = Inr n \<longleftrightarrow> lax_int P v = Some n"
  by (auto simp: any_int_def split: option.splits)

lemma dict_get_Inr_iff:
  "dict_get v k d = Inr x \<longleftrightarrow>
     (\<exists>kvs. v = JDict kvs \<and> x = (case map_of kvs k of None \<Rightarrow> d | Some y \<Rightarrow> y))"
  by (cases v) auto

lemma resource_fields_errors:
  "resource_fields P resource = Inl e \<Longrightarrow> e \<in> {KeyError, TypeError, ValueError}"
  unfolding resource_fields_def
  by (auto simp: bind_result_Inl_iff getitem_Inr_iff split: prod.splits
      dest!: getitem_Inl validated_Inl)

lemma resource_to_read_Inl:
  "resource_to_read P resource = Inl e \<Longrightarrow> error_key e = (502, ''invalid_deployment_state'') \<and>
     (\<exists>a. e = ApiExc a)"
  using resource_fields_errors [of P "JDict resource"]
  by (auto simp: resource_to_read_def invalid_deployment_def split: sum.splits if_splits)

lemma resource_to_read_parts:
  assumes "resource_to_read P obj = Inr r"
  shows "\<exists>spec model runtime.
    map_of obj ''spec'' = Some (JDict spec) \<and> map_of spec ''model'' = Some (JDict model) \<and>
    map_of spec ''runtime'' = Some (JDict runtime) \<and>
    map_of model ''name'' = Some (JStr (sr_model (rd_spec r))) \<and>
    map_of model ''version'' = Some (JStr (sr_version (rd_spec r))) \<and>
    map_of runtime ''image'' = Some (JStr (sr_runtime_image (rd_spec r))) \<and>
    lax_int P (case map_of spec ''replicas'' of None \<Rightarrow> JInt 1 | Some y \<Rightarrow> y) =
       Some (sr_replicas (rd_spec r)) \<and>
    lax_int P (case map_of runtime ''port'' of None \<Rightarrow> JInt 8080 | Some y \<Rightarrow> y) =
       Some (sr_port (rd_spec r))"
proof -
  have "resource_fields P (JDict obj) = Inr r"
    using assms by (auto simp: resource_to_read_def split: sum.splits if_splits)
  then show ?thesis unfolding resource_fields_def
    by (elim bind_InrE)
      (auto simp: getitem_Inr_iff validated_Inr_iff dict_get_Inr_iff any_int_Inr_iff both_Inr_iff
        map_checked_Inr_iff as_str_Inr_iff simp del: getitem.simps dict_get.simps
        split: prod.splits)
qed

lemma resource_to_read_spec:
  assumes "resource_to_read P obj = Inr r"
  shows "lookup (JDict obj) [''spec'', ''model'', ''name''] = Some (JStr (sr_model (rd_spec r)))"
    and "lookup (JDict obj) [''spec'', ''model'', ''version''] = Some (JStr (sr_version (rd_spec r)))"
    and "lookup (JDict obj) [''spec'', ''runtime'', ''image''] =
           Some (JStr (sr_runtime_image (rd_spec r)))"
    and "lookup (JDict obj) [''spec'', ''replicas''] = Some v \<Longrightarrow> lax_int P v = Some (sr_replicas (rd_spec r))"
    and "lookup (JDict obj) [''spec'', ''runtime'', ''port''] = Some v \<Longrightarrow>
           lax_int P v = Some (sr_port (rd_spec r))"
  using resource_to_read_parts [OF assms] by (auto split: option.splits)

lemma desired_spec:
  "lookup (desired_resource ns n d i a rv) (''spec'' # p) =
     lookup (JDict
           [(''model'', JDict [(''name'', JStr (du_model d)), (''version'', JStr (du_version d))]),
            (''runtime'', JDict [(''image'', JStr i), (''port'', JInt (du_port d))]),
            (''replicas'', JInt (du_replicas d)),
            (''resources'', dump_resources (du_resources d))]) p"
  by (simp add: desired_resource_def Let_def)

lemma carries_read:
  assumes c: "carries obj (desired_resource ns n d i a rv)"
    and r: "resource_to_read P obj = Inr r" and P: "pydantic_lax P"
  shows "sr_model (rd_spec r) = du_model d \<and> sr_version (rd_spec r) = du_version d \<and>
    sr_runtime_image (rd_spec r) = i \<and> sr_replicas (rd_spec r) = du_replicas d \<and>
    sr_port (rd_spec r) = du_port d"
proof -
  have l: "lookup (JDict obj) (''spec'' # p) = Some v"
    if "lookup (desired_resource ns n d i a rv) (''spec'' # p) = Some v" "scalar v" for p v
    using c that by (simp add: carries_def)
  show ?thesis
    using l [of "[''model'', ''name'']"] l [of "[''model'', ''version'']"]
      l [of "[''runtime'', ''image'']"] l [of "[''replicas'']"] l [of "[''runtime'', ''port'']"]
      resource_to_read_spec [OF r] pydantic_lax.lax_int_int [OF P]
    by (simp add: desired_spec del: lookup.simps(2)) (simp add: desired_spec)
qed

section \<open>The gateway on the API server\<close>

text \<open>The cluster right after the patch request of \<open>apply\<close>, before a read that may follow it.\<close>

definition after_patch :: "'k k8s \<Rightarrow> (nat \<Rightarrow> 'k step) \<Rightarrow> string \<Rightarrow> string \<Rightarrow> json \<Rightarrow> 'k \<Rightarrow> 'k" where
  "after_patch K aw ns n body k = snd (k_patch K ns n body (fst (aw 0) k))"

lemma execute_cases:
  "execute reply = Inr (Some obj) \<longleftrightarrow> reply = Some (KObject obj)"
  "execute reply = Inr None \<longleftrightarrow> reply = Some KNothing"
  "execute reply = Inl e \<Longrightarrow> \<exists>g. e = GatewayError g"
  by (auto simp: execute_def split: option.splits k8s_reply.splits)

lemma await_Some: "await a f s = (Some x, s') \<longleftrightarrow> snd a = Delivered \<and> f (fst a s) = (x, s')"
  by (cases "snd a") (auto simp: await_def prod_eq_iff)

context k8s_server
begin

lemma get_state: "snd (k_get K ns n k) = k"
  using get_present [of k ns n] get_absent [of k ns n] by (cases "objs k (ns, n)") force+

lemma gw_get_state: "gw_get K a ns n k = (r, k') \<Longrightarrow> k' = fst a k"
  using get_state [of ns n "fst a k"]
  by (cases "snd a") (auto simp: gw_get_def Let_def await_def split: prod.splits)

lemma gw_get_Inr:
  assumes "gw_get K a ns n k = (Inr obj, k')"
  shows "k' = fst a k \<and> snd a = Delivered \<and> objs k' (ns, n) = Some obj"
proof -
  let ?k = "fst a k"
  have e: "await a (k_get K ns n) k = (Some (KObject obj), k')"
    using assms
    by (auto simp: gw_get_def Let_def bind_result_Inr_iff execute_cases split: prod.splits)
      (metis as_object.elims execute_cases(1) sum.distinct(1) sum.inject(2))
  then have k: "snd a = Delivered" "k_get K ns n ?k = (KObject obj, k')" by (simp_all add: await_Some)
  then show ?thesis using get_present [of ?k ns n] get_absent [of ?k ns n]
    by (cases "objs ?k (ns, n)") auto
qed

lemma gw_get_not_py: "fst (gw_get K a ns n k) \<noteq> Inl (GatewayPy p)"
proof (cases "snd a")
  case Delivered
  then show ?thesis
    using get_present [of "fst a k" ns n] get_absent [of "fst a k" ns n]
    by (cases "objs (fst a k) (ns, n)") (auto simp: gw_get_def await_def execute_def)
qed (auto simp: gw_get_def await_def execute_def Let_def split: prod.splits)

lemma gw_get_absent:
  assumes "snd a = Delivered" and "objs (fst a k) (ns, n) = None"
  shows "\<exists>g. gw_get K a ns n k = (Inl (GatewayError g), fst a k) \<and> ge_status g = 404"
  using get_absent [OF assms(2)] assms(1) by (auto simp: gw_get_def await_def execute_def)

lemma gw_apply_Inr:
  assumes "gw_apply K aw ns n body k = (Inr obj, k')"
  defines "t \<equiv> after_patch K aw ns n body k"
  shows "\<exists>written. objs t (ns, n) = Some written \<and> carries written body"
    and "objs k' (ns, n) = Some obj" and "k' = t \<or> k' = fst (aw 1) t"
    and "objs (fst (aw 1) t) (ns, n) = objs t (ns, n) \<Longrightarrow> carries obj body"
proof -
  obtain reply u where a: "await (aw 0) (k_patch K ns n body) k = (reply, u)" by fastforce
  consider "reply = Some (KObject obj)" "u = k'"
    | "reply = Some KNothing" "gw_get K (aw 1) ns n u = (Inr obj, k')"
    using assms(1) a
    by (auto simp: gw_apply_def Let_def execute_cases(1,2) split: sum.splits option.splits)
  then have "(\<exists>written. objs t (ns, n) = Some written \<and> carries written body) \<and> objs k' (ns, n) = Some obj \<and>
      (k' = t \<and> carries obj body \<or> k' = fst (aw 1) t)"
  proof cases
    case 1
    then have p: "k_patch K ns n body (fst (aw 0) k) = (KObject obj, k')" using a by (simp add: await_Some)
    then have "t = k'" by (simp add: t_def after_patch_def)
    then show ?thesis using patch_object [OF p] by simp
  next
    case 2
    then have p: "k_patch K ns n body (fst (aw 0) k) = (KNothing, u)" using a by (simp add: await_Some)
    then have "t = u" by (simp add: t_def after_patch_def)
    then show ?thesis using patch_created [OF p] gw_get_Inr [OF 2(2)] by auto
  qed
  then show "\<exists>written. objs t (ns, n) = Some written \<and> carries written body"
    "objs k' (ns, n) = Some obj" "k' = t \<or> k' = fst (aw 1) t"
    "objs (fst (aw 1) t) (ns, n) = objs t (ns, n) \<Longrightarrow> carries obj body"
    by auto
qed

lemma gw_apply_stale:
  assumes "rv_of body = Some v" and "snd (aw 0) = Delivered"
    and "case objs (fst (aw 0) k) (ns, n) of None \<Rightarrow> True
         | Some obj \<Rightarrow> rv_of (JDict obj) \<noteq> Some v"
  shows "\<exists>g. gw_apply K aw ns n body k = (Inl (GatewayError g), fst (aw 0) k) \<and> ge_status g = 409"
  using patch_stale [OF assms(1,3)] assms(2) by (auto simp: gw_apply_def await_def execute_def)

lemma gw_delete_up:
  assumes "snd a = Delivered"
  shows "\<exists>b. fst (gw_delete K a ns n k) = Inr b"
    and "k' \<noteq> (ns, n) \<Longrightarrow> objs (snd (gw_delete K a ns n k)) k' = objs (fst a k) k'"
proof -
  let ?k = "fst a k"
  obtain rep t where d: "k_delete K ns n ?k = (rep, t)" by fastforce
  have c: "(\<exists>r. rep = KApiException (Some 404) r) \<and> t = ?k \<or>
      (\<forall>st r. rep \<noteq> KApiException st r) \<and> (\<forall>x. x \<noteq> (ns, n) \<longrightarrow> objs t x = objs ?k x)"
    using delete_absent [of ?k ns n] delete_present [OF _ d] d
    by (cases "objs ?k (ns, n)") auto
  then show "\<exists>b. fst (gw_delete K a ns n k) = Inr b"
    using assms d
    by (cases rep) (auto simp: gw_delete_def await_def execute_def)
  show "k' \<noteq> (ns, n) \<Longrightarrow> objs (snd (gw_delete K a ns n k)) k' = objs (fst a k) k'"
    using c assms d
    by (cases k'; cases rep) (auto simp: gw_delete_def await_def execute_def)
qed

end

section \<open>Routes\<close>

lemma identity_args_Inr_iff:
  "identity_args ns0 n0 = Inr (ns, n) \<longleftrightarrow> ResourceName ns0 = Inr ns \<and> ResourceName n0 = Inr n"
  by (auto simp: identity_args_def path_arg_def checked_iffs)

lemma and_then_Inr_iff:
  "and_then m f = (Inr y, w') \<longleftrightarrow> (\<exists>x w. m = (Inr x, w) \<and> f x w = (Inr y, w'))"
  by (auto simp: and_then_def split: prod.splits sum.splits)

lemma and_then_Inl_iff:
  "and_then m f = (Inl e, w') \<longleftrightarrow>
     m = (Inl e, w') \<or> (\<exists>x w. m = (Inr x, w) \<and> f x w = (Inl e, w'))"
  by (auto simp: and_then_def split: prod.splits sum.splits)

lemma checked_Inl_iff: "checked c = Inl e \<longleftrightarrow> (\<exists>vs. c = Inl vs \<and> e = ValidationExc vs)"
  by (cases c) auto

lemma via_gateway_Inl_iff:
  "via_gateway ns n r = (Inl e, k) \<longleftrightarrow> (\<exists>g. r = (Inl g, k) \<and> e = gateway_failure ns n g)"
  by (cases r) (auto simp: via_gateway_def split: sum.splits)

lemma gateway_Inl_iff: "get_deployment_gateway gw = Inl e \<longleftrightarrow> gw = None \<and> e = kubernetes_disabled"
  by (auto simp: get_deployment_gateway_def split: option.splits)

lemma via_gateway_Inr_iff: "via_gateway ns n r = (Inr x, k) \<longleftrightarrow> r = (Inr x, k)"
  by (cases r) (auto simp: via_gateway_def split: sum.splits)

lemma gateway_Inr_iff: "get_deployment_gateway gw = Inr K \<longleftrightarrow> gw = Some K"
  by (auto simp: get_deployment_gateway_def split: option.splits)

lemma on_Inr_iff:
  "on_cluster s r = (Inr x, s', k') \<longleftrightarrow> s' = s \<and> r = (Inr x, k')"
  "on_db q k = (Inr y, s', k') \<longleftrightarrow> k' = k \<and> q = (Inr y, s')"
  by (cases r; auto simp: on_cluster_def) (cases q; auto simp: on_db_def)

lemma put_deployment_success:
  assumes "put_deployment P D (Some K) dbs aw ns0 n0 body (s, k) = (Inr r, s', k')"
    and "ResourceName ns0 = Inr ns" and "ResourceName n0 = Inr n"
  shows "\<exists>d row obj. DeploymentUpsert P body = Inr d \<and>
    get_version D dbs (du_model d) (du_version d) s = (Inr (Some row), s') \<and>
    gw_apply K aw ns n
      (desired_resource ns n d (v_runtime_image row) (v_artifact_digest row) JNull) k = (Inr obj, k') \<and>
    resource_to_read P obj = Inr r"
  using assms
  by (auto simp: put_deployment_def and_then_Inr_iff gateway_Inr_iff checked_Inr_iff both_Inr_iff
      identity_args_Inr_iff under_Inr_iff on_Inr_iff via_gateway_Inr_iff apply_and_read_def
      split: option.splits prod.splits)

lemma get_version_Some:
  "get_version D a m v s = (Inr (Some row), s') \<Longrightarrow> s' = fst a s \<and> sel_version D m v s' = Some row"
  unfolding get_version_def by (auto dest: find_version_result)

subsection \<open>Rolling back\<close>

text \<open>What \<open>desired_resource\<close> writes as the spec is what a rollback reads from it.\<close>

definition written_spec :: "deployment_upsert \<Rightarrow> string \<Rightarrow> json" where
  "written_spec d i = JDict
     [(''model'', JDict [(''name'', JStr (du_model d)), (''version'', JStr (du_version d))]),
      (''runtime'', JDict [(''image'', JStr i), (''port'', JInt (du_port d))]),
      (''replicas'', JInt (du_replicas d)),
      (''resources'', dump_resources (du_resources d))]"

lemma written_spec_lookup: "lookup (desired_resource ns n d i a rv) [''spec''] = Some (written_spec d i)"
  by (simp add: desired_resource_def written_spec_def Let_def)

lemma DeploymentUpsert_build:
  assumes "pydantic_lax P" and "upsert_ok d" and "version_label v"
  shows "DeploymentUpsert P (JDict [(''model'', JStr (du_model d)), (''version'', JStr v),
     (''replicas'', JInt (du_replicas d)), (''port'', JInt (du_port d)),
     (''resources'', dump_resources (du_resources d))]) = Inr (d\<lparr> du_version := v \<rparr>)"
  using assms dns_label_trim [of "du_model d"] version_label_trim [of v]
    pydantic_lax.lax_int_int [OF assms(1)]
  by (cases d) (auto simp: DeploymentUpsert_def checked_iffs field_str_def ResourceName_iff
      VersionName_iff upsert_ok_def DeploymentResources_dump)

lemma written_spec_rollback:
  assumes "pydantic_lax P" and "upsert_ok d" and "version_label v"
  shows "current_model_name (written_spec d i) = Inr (du_model d)"
    and "rollback_desired P (written_spec d i) (du_model d) v = Inr (d\<lparr> du_version := v \<rparr>)"
  using DeploymentUpsert_build [OF assms]
  by (auto simp: current_model_name_def rollback_desired_def written_spec_def lift_py_def)

lemma desired_resource_version:
  "py_truth rv \<Longrightarrow> rv_of (desired_resource ns n d i a rv) = Some rv"
  by (cases a) (auto simp: rv_of_def desired_resource_def Let_def)

lemma rollback_found:
  assumes args: "ResourceName ns0 = Inr ns" "ResourceName n0 = Inr n" "RollbackRequest body = Inr v"
    and get: "gw_get K rd ns n k = (Inr cur, k1)"
    and spec: "map_of cur ''spec'' = Some sp" "current_model_name sp = Inr m"
      "rollback_desired P sp m v = Inr d"
    and row: "get_version D dbs m v s = (Inr (Some row), s1)"
    and meta: "map_of cur ''metadata'' = Some (JDict md)"
  shows "rollback_deployment P D (Some K) dbs rd aw ns0 n0 body (s, k) =
    apply_and_read P K aw ns n
       (desired_resource ns n d (v_runtime_image row) (v_artifact_digest row)
         (case map_of md ''resourceVersion'' of None \<Rightarrow> JNull | Some x \<Rightarrow> x)) (s1, k1)"
  using assms
  by (simp add: rollback_deployment_def and_then_def get_deployment_gateway_def identity_args_def
      path_arg_def both_def under_def at_root_def on_cluster_def on_db_def via_gateway_def lift_py_def)

lemma rollback_split:
  assumes "rollback_deployment P D (Some K) dbs rd aw ns0 n0 body (s, k) = (res, s', k')"
    and args: "ResourceName ns0 = Inr ns" "ResourceName n0 = Inr n"
    and get: "gw_get K rd ns n k = (Inr cur, k1)"
    and meta: "map_of cur ''metadata'' = Some (JDict md)" "map_of md ''resourceVersion'' = Some x"
  shows "((k' = k \<or> k' = k1) \<and> (\<exists>e. res = Inl e)) \<or>
    (\<exists>d i a s''. apply_and_read P K aw ns n (desired_resource ns n d i a x) (s'', k1) = (res, s', k'))"
  using assms
  by (auto simp: rollback_deployment_def and_then_def get_deployment_gateway_def identity_args_def
      path_arg_def both_def under_def at_root_def on_cluster_def on_db_def via_gateway_def lift_py_def
      checked_def split: sum.splits prod.splits option.splits)


lemma apply_and_read_stale:
  assumes "k8s_server K objs" and "py_truth x" and "snd (aw 0) = Delivered"
    and "case objs (fst (aw 0) k) (ns, n) of None \<Rightarrow> True
         | Some obj \<Rightarrow> rv_of (JDict obj) \<noteq> Some x"
  shows "\<exists>e. apply_and_read P K aw ns n (desired_resource ns n d i a x) (s, k) =
           (Inl e, s, fst (aw 0) k) \<and> error_key e = (409, ''deployment_conflict'')"
  using k8s_server.gw_apply_stale [where aw = aw and k = k and ns = ns and n = n,
      OF assms(1) desired_resource_version [OF assms(2)] assms(3,4), of ns n d i a]
  by (force simp: apply_and_read_def and_then_def on_cluster_def via_gateway_def gateway_failure_def
      deployment_error_def)

subsection \<open>Readiness\<close>

fun is_dict :: "json \<Rightarrow> bool" where
  "is_dict (JDict kvs) = True"
| "is_dict _ = False"

definition available :: "json \<Rightarrow> bool" where
  "available c \<longleftrightarrow> lookup c [''type''] = Some (JStr ''Available'') \<and>
     lookup c [''status''] = Some (JStr ''True'')"

lemma condition_available_dict: "is_dict c \<Longrightarrow> condition_available c = Inr (available c)"
  by (cases c) (auto simp: condition_available_def available_def split: option.splits)

lemma any_available_dicts:
  "list_all is_dict cs \<Longrightarrow> any_available cs = Inr (list_ex available cs)"
  by (induction cs) (auto simp: condition_available_dict)

section \<open>Properties\<close>

text \<open>
  (C19) A successful deployment applies exactly what the registry holds. The version named in the
  request is registered; right after the patch request the object in the cluster carries its image
  together with everything that was asked for; and the answer reports the object the cluster has at
  the end. When the patch itself returned the object, or nobody changed it between the patch that
  created it and the read that follows, the object the answer reports carries the request too: its
  model, version, image, replicas and port are the requested ones. Another process may act on the
  cluster at every await; of the API server it is assumed that server-side apply sets the applied fields.
\<close>

theorem deployment_runs_registered_image:
  assumes "k8s_server K objs" and "pydantic_lax P"
    and "put_deployment P D (Some K) dbs aw ns0 n0 body (s, k) = (Inr r, s', k')"
    and "ResourceName ns0 = Inr ns" and "ResourceName n0 = Inr n"
  shows "\<exists>d row t written obj. DeploymentUpsert P body = Inr d \<and> upsert_ok d \<and>
    sel_version D (du_model d) (du_version d) s' = Some row \<and>
    t = after_patch K aw ns n
      (desired_resource ns n d (v_runtime_image row) (v_artifact_digest row) JNull) k \<and>
    objs t (ns, n) = Some written \<and>
    carries written (desired_resource ns n d (v_runtime_image row) (v_artifact_digest row) JNull) \<and>
    (k' = t \<or> k' = fst (aw 1) t) \<and> objs k' (ns, n) = Some obj \<and> resource_to_read P obj = Inr r \<and>
    (objs (fst (aw 1) t) (ns, n) = objs t (ns, n) \<longrightarrow>
       carries obj (desired_resource ns n d (v_runtime_image row) (v_artifact_digest row) JNull) \<and>
       sr_model (rd_spec r) = du_model d \<and> sr_version (rd_spec r) = du_version d \<and>
       sr_runtime_image (rd_spec r) = v_runtime_image row \<and>
       sr_replicas (rd_spec r) = du_replicas d \<and> sr_port (rd_spec r) = du_port d)"
proof -
  obtain d row obj where d: "DeploymentUpsert P body = Inr d"
    and v: "get_version D dbs (du_model d) (du_version d) s = (Inr (Some row), s')"
    and a: "gw_apply K aw ns n
      (desired_resource ns n d (v_runtime_image row) (v_artifact_digest row) JNull) k = (Inr obj, k')"
    and r: "resource_to_read P obj = Inr r"
    using put_deployment_success [OF assms(3-5)] by blast
  note g = k8s_server.gw_apply_Inr [OF assms(1) a]
  obtain written where w: "objs (after_patch K aw ns n
      (desired_resource ns n d (v_runtime_image row) (v_artifact_digest row) JNull) k) (ns, n) = Some written"
    "carries written (desired_resource ns n d (v_runtime_image row) (v_artifact_digest row) JNull)"
    using g(1) by blast
  have "carries obj (desired_resource ns n d (v_runtime_image row) (v_artifact_digest row) JNull) \<longrightarrow>
      sr_model (rd_spec r) = du_model d \<and> sr_version (rd_spec r) = du_version d \<and>
      sr_runtime_image (rd_spec r) = v_runtime_image row \<and>
      sr_replicas (rd_spec r) = du_replicas d \<and> sr_port (rd_spec r) = du_port d"
    using carries_read [OF _ r assms(2)] by blast
  then show ?thesis
    using d DeploymentUpsert_ok [OF d] get_version_Some [OF v] w g(2-4) r by blast
qed

definition demo_upsert_body :: json where
  "demo_upsert_body = JDict [(''model'', JStr ''sentiment''), (''version'', JStr ''v1''),
     (''replicas'', JInt 2),
     (''resources'', JDict [(''requests'', JDict [(''cpu'', JStr '' 500m '')])])]"

definition empty_cluster :: mem_cluster where
  "empty_cluster = \<lparr> cl_objects = [], cl_counter = 0 \<rparr>"

definition calm :: "nat \<Rightarrow> 'k step" where
  "calm k = (id, Delivered)"

definition demo_put_deployment :: "(exc + deployment_read) \<times> mem_db \<times> mem_cluster" where
  "demo_put_deployment =
     put_deployment plain_pydantic mem_sql (Some mem_k8s) (id, Delivered) calm ''default'' ''demo''
       demo_upsert_body (demo_db_v1, empty_cluster)"

lemma demo_put_deployment_ok:
  "case fst demo_put_deployment of Inl _ \<Rightarrow> False
   | Inr r \<Rightarrow> sr_runtime_image (rd_spec r) = ''registry/sentiment:1'' \<and> sr_replicas (rd_spec r) = 2"
  by code_simp

lemma demo_identity: "ResourceName ''default'' = Inr ''default''" "ResourceName ''demo'' = Inr ''demo''"
  by code_simp+

theorem deployment_runs_registered_image_witness:
  "\<exists>r s' k' (d :: deployment_upsert) row. demo_put_deployment = (Inr r, s', k') \<and>
     sel_version mem_sql (du_model d) (du_version d) s' = Some row \<and>
     sr_runtime_image (rd_spec r) = v_runtime_image row"
proof -
  obtain r s' k' where e: "demo_put_deployment = (Inr r, s', k')"
    using demo_put_deployment_ok
    by (metis (no_types, lifting) Inr_inject old.sum.exhaust prod.collapse sum.case(1))
  have c: "fst (calm 1 :: mem_cluster step) = id" by (simp add: calm_def)
  obtain d :: deployment_upsert and row where "sel_version mem_sql (du_model d) (du_version d) s' = Some row"
      "sr_runtime_image (rd_spec r) = v_runtime_image row"
    using deployment_runs_registered_image [OF mem_k8s.k8s_server_axioms plain.pydantic_lax_axioms
        e [unfolded demo_put_deployment_def] demo_identity] c by auto
  then show ?thesis using e by blast
qed

text \<open>
  (C21) A rollback reads back what a deployment wrote: from the spec that \<open>desired_resource\<close> produced
  for an accepted request, with any image, the rollback recovers the model name and a desired state
  that differs from the original only in the version; replicas, port and resources are kept
  exactly, and the new state is again one the API accepts.
\<close>

theorem rollback_keeps_deployment:
  assumes "pydantic_lax P" and "DeploymentUpsert P body = Inr d" and "VersionName v0 = Inr v"
    and "lookup (desired_resource ns n d i a rv) [''spec''] = Some spec"
  shows "current_model_name spec = Inr (du_model d) \<and>
    rollback_desired P spec (du_model d) v = Inr (d\<lparr> du_version := v \<rparr>) \<and>
    upsert_ok (d\<lparr> du_version := v \<rparr>)"
proof -
  have ok: "upsert_ok d" by (rule DeploymentUpsert_ok [OF assms(2)])
  have v: "version_label v" using assms(3) VersionName_iff by blast
  have spec: "spec = written_spec d i" using assms(4) by (simp add: written_spec_lookup)
  show ?thesis
    using written_spec_rollback [OF assms(1) ok v] ok v by (simp add: spec upsert_ok_def)
qed

definition demo_desired :: deployment_upsert where
  "demo_desired = \<lparr> du_model = ''sentiment'', du_version = ''v1'', du_replicas = 2, du_port = 8080,
     du_resources = \<lparr> dr_requests = [(''cpu'', ''500m'')], dr_limits = [] \<rparr> \<rparr>"

lemma demo_upsert: "DeploymentUpsert plain_pydantic demo_upsert_body = Inr demo_desired"
  by code_simp

theorem rollback_keeps_deployment_witness:
  "rollback_desired plain_pydantic (written_spec demo_desired ''img:1'') ''sentiment'' ''v2'' =
     Inr (demo_desired\<lparr> du_version := ''v2'' \<rparr>)"
proof -
  have v: "VersionName ''v2'' = Inr ''v2''" by code_simp
  show ?thesis
    using rollback_keeps_deployment [OF plain.pydantic_lax_axioms demo_upsert v
        written_spec_lookup [of "''default''" "''demo''" demo_desired "''img:1''" None JNull]]
    by (simp add: demo_desired_def)
qed

text \<open>
  (C20) A rollback never overwrites a change it has not seen: when the object it read carries a
  resource version, and by the time its write arrives the object in the cluster has another version
  or is gone, the rollback answers with an error and leaves the cluster as the rest of the world
  made it.
\<close>

theorem rollback_is_optimistic:
  assumes "k8s_server K objs"
    and "rollback_deployment P D (Some K) dbs rd aw ns0 n0 body (s, k) = (res, s', k')"
    and "ResourceName ns0 = Inr ns" and "ResourceName n0 = Inr n"
    and "snd rd = Delivered" and "snd (aw 0) = Delivered"
    and "objs (fst rd k) (ns, n) = Some cur"
    and "map_of cur ''metadata'' = Some (JDict md)" and "map_of md ''resourceVersion'' = Some (JStr x)"
    and "x \<noteq> []"
    and "case objs (fst (aw 0) (fst rd k)) (ns, n) of None \<Rightarrow> True
         | Some obj \<Rightarrow> rv_of (JDict obj) \<noteq> Some (JStr x)"
  shows "(\<exists>e. res = Inl e) \<and> k' \<in> {k, fst rd k, fst (aw 0) (fst rd k)}"
proof -
  have get: "gw_get K rd ns n k = (Inr cur, fst rd k)"
    using k8s_server.get_present [OF assms(1,7)] assms(5)
    by (simp add: gw_get_def await_def execute_def)
  have t: "py_truth (JStr x)" using assms(10) by simp
  from rollback_split [OF assms(2-4) get assms(8,9)]
  consider "k' = k \<or> k' = fst rd k" "\<exists>e. res = Inl e"
    | d i a s'' where "apply_and_read P K aw ns n (desired_resource ns n d i a (JStr x)) (s'', fst rd k)
        = (res, s', k')"
    by blast
  then show ?thesis
  proof cases
    case 2
    then show ?thesis
      using apply_and_read_stale [where x = "JStr x" and aw = aw and k = "fst rd k" and ns = ns
          and n = n and P = P and d = d and i = i and a = a and s = s'',
          OF assms(1) t assms(6) assms(11)]
      by auto
  qed auto
qed

definition demo_cluster :: mem_cluster where
  "demo_cluster = snd (snd demo_put_deployment)"

definition meddling :: "nat \<Rightarrow> mem_cluster step" where
  "meddling k = (\<lambda>c. snd (mem_patch ''default'' ''demo'' (JDict []) c), Delivered)"

definition demo_rollback :: "(exc + deployment_read) \<times> mem_db \<times> mem_cluster" where
  "demo_rollback = rollback_deployment plain_pydantic mem_sql (Some mem_k8s) (id, Delivered)
     (id, Delivered) meddling ''default'' ''demo'' (JDict [(''version'', JStr ''v1'')])
     (demo_db_v1, demo_cluster)"

definition demo_metadata :: dict where
  "demo_metadata = [(''name'', JStr ''demo''), (''namespace'', JStr ''default''),
     (''resourceVersion'', JStr ''1'')]"

definition demo_object :: dict where
  "demo_object = [(''metadata'', JDict demo_metadata),
     (''spec'', written_spec demo_desired ''registry/sentiment:1'')]"

lemma demo_cluster_object: "map_of (cl_objects demo_cluster) (''default'', ''demo'') = Some demo_object"
  by code_simp

lemma demo_meddled: "case map_of (cl_objects (fst (meddling 0) demo_cluster)) (''default'', ''demo'') of
    None \<Rightarrow> True | Some obj \<Rightarrow> rv_of (JDict obj) \<noteq> Some (JStr ''1'')"
  by code_simp

theorem rollback_is_optimistic_witness:
  "\<exists>e. fst demo_rollback = Inl e"
proof -
  obtain res s' k' where e: "demo_rollback = (res, s', k')" by (cases demo_rollback)
  have o: "map_of (cl_objects (fst (id, Delivered) demo_cluster)) (''default'', ''demo'') = Some demo_object"
    using demo_cluster_object by simp
  have m: "case map_of (cl_objects (fst (meddling 0) (fst (id, Delivered) demo_cluster)))
      (''default'', ''demo'') of None \<Rightarrow> True | Some obj \<Rightarrow> rv_of (JDict obj) \<noteq> Some (JStr ''1'')"
    using demo_meddled by simp
  have "map_of demo_object ''metadata'' = Some (JDict demo_metadata)"
    "map_of demo_metadata ''resourceVersion'' = Some (JStr ''1'')"
    by (simp_all add: demo_object_def demo_metadata_def)
  then have "\<exists>x. res = Inl x"
    using rollback_is_optimistic [OF mem_k8s.k8s_server_axioms e [unfolded demo_rollback_def]
        demo_identity _ _ o _ _ _ m] by (simp add: meddling_def)
  moreover have "fst demo_rollback = res" unfolding e by simp
  ultimately show ?thesis by blast
qed

text \<open>
  When a deployment is ready: for a status that is an object whose conditions are objects, the
  endpoint is returned exactly when some condition is \<open>Available\<close> with status \<open>True\<close> and the
  endpoint is a non-empty text; otherwise the caller gets the 409 \<open>deployment_not_ready\<close>.
\<close>

theorem ready_endpoint_correct:
  assumes "map_of obj ''status'' = Some (JDict status)"
    and "map_of status ''conditions'' = Some (JList cs)" and "list_all is_dict cs"
  shows "ready_endpoint obj =
    (case map_of status ''endpoint'' of
       Some (JStr e) \<Rightarrow> if list_ex available cs \<and> e \<noteq> [] then Inr e else Inl deployment_not_ready
     | _ \<Rightarrow> Inl deployment_not_ready)"
  using assms any_available_dicts [OF assms(3)]
  by (auto simp: ready_endpoint_def lift_py_def split: option.splits json.splits)

definition ready_object :: dict where
  "ready_object = [(''status'', JDict [(''endpoint'', JStr ''http://demo.default:8080''),
     (''conditions'', JList [JDict [(''type'', JStr ''Available''), (''status'', JStr ''True'')]])])]"

theorem ready_endpoint_correct_witness:
  "ready_endpoint ready_object = Inr ''http://demo.default:8080''"
  using ready_endpoint_correct [of ready_object
      "[(''endpoint'', JStr ''http://demo.default:8080''), (''conditions'', JList [JDict [(''type'', JStr ''Available''), (''status'', JStr ''True'')]])]"
      "[JDict [(''type'', JStr ''Available''), (''status'', JStr ''True'')]]"]
  by (simp add: ready_object_def available_def)

text \<open>
  Deleting is idempotent: with valid names and a reachable API server, a delete answers 204
  whether or not the deployment exists, and changes no other deployment.
\<close>

theorem delete_deployment_idempotent:
  assumes "k8s_server K objs" and "ResourceName ns0 = Inr ns" and "ResourceName n0 = Inr n"
    and "snd a = Delivered"
  shows "fst (delete_deployment (Some K) a ns0 n0 k) = Inr 204 \<and>
    (objs (snd (delete_deployment (Some K) a ns0 n0 k))) |` (- {(ns, n)}) =
      (objs (fst a k)) |` (- {(ns, n)})"
proof -
  obtain b where b: "fst (gw_delete K a ns n k) = Inr b"
    using k8s_server.gw_delete_up(1) [OF assms(1,4)] by blast
  have "delete_deployment (Some K) a ns0 n0 k = (Inr 204, snd (gw_delete K a ns n k))"
    using assms(2,3) b
    by (simp add: delete_deployment_def and_then_def get_deployment_gateway_def identity_args_def
        path_arg_def both_def under_def at_root_def via_gateway_def)
  then show ?thesis
    using k8s_server.gw_delete_up(2) [OF assms(1,4), of _ ns n k]
    by (auto simp: restrict_map_def fun_eq_iff)
qed

theorem delete_deployment_idempotent_witness:
  "fst (delete_deployment (Some mem_k8s) (id, Delivered) ''default'' ''demo'' demo_cluster) = Inr 204 \<and>
   fst (delete_deployment (Some mem_k8s) (id, Delivered) ''default'' ''demo'' empty_cluster) = Inr 204"
  using delete_deployment_idempotent [OF mem_k8s.k8s_server_axioms demo_identity, of "(id, Delivered)"]
  by simp

definition read_errors :: "(int \<times> string) list" where
  "read_errors =
     [(503, ''kubernetes_disabled''), (422, ''validation_error''), (404, ''deployment_not_found''),
      (409, ''deployment_conflict''), (422, ''deployment_rejected''), (503, ''kubernetes_forbidden''),
      (503, ''kubernetes_unavailable''), (502, ''invalid_deployment_state'')]"

text \<open>
  Reading a deployment fails only with the documented errors: whatever object the cluster
  returns, malformed ones included, and however the request fails, the exception is one of the
  listed status and code pairs, all of which the handlers turn into an error envelope.
\<close>

theorem get_deployment_errors:
  assumes "k8s_server K objs" and "get_deployment P gateway a ns0 n0 k = (Inl e, k')"
    and "gateway = Some K \<or> gateway = None" and "\<And>v. encodable (JDict (render v))"
  shows "error_key e \<in> set read_errors \<and>
    (\<exists>r. handle_exception str render rid e = Inr r \<and> envelope_key r = error_key e)"
proof -
  have g: "error_key (ApiExc (deployment_error g ns n)) \<in> set read_errors" for g ns n
    by (simp add: deployment_error_def read_errors_def)
  consider "e = kubernetes_disabled" | vs where "e = ValidationExc vs"
    | h ns n where "gateway = Some K" "gw_get K a ns n k = (Inl h, k')" "e = gateway_failure ns n h"
    | obj where "resource_to_read P obj = Inl e"
    using assms(2,3) unfolding get_deployment_def
    by (auto simp: and_then_Inl_iff gateway_Inl_iff gateway_Inr_iff checked_Inl_iff via_gateway_Inl_iff
        split: prod.splits)
  then have nopy: "\<not> (\<exists>p. e = PyExc p) \<and> error_key e \<in> set read_errors"
  proof cases
    case 3
    have "h \<noteq> GatewayPy p" for p using k8s_server.gw_get_not_py [OF assms(1), of a ns n k p] 3 by auto
    then obtain g' where "h = GatewayError g'" by (cases h) auto
    then show ?thesis using g 3 by (simp add: gateway_failure_def)
  next
    case 4
    then show ?thesis using resource_to_read_Inl [OF 4] by (auto simp: read_errors_def)
  qed (auto simp: kubernetes_disabled_def read_errors_def)
  then obtain r where "handle_exception str render rid e = Inr r"
    using handle_exception_Inl [of str render rid e] normalize_encodable [OF assms(4)]
    by (cases "handle_exception str render rid e") (auto simp del: encodable.simps(3))
  then show ?thesis using nopy handle_exception_key by blast
qed

theorem get_deployment_errors_witness:
  "\<exists>e. fst (get_deployment plain_pydantic (Some mem_k8s) (id, Delivered) ''default'' ''demo'' empty_cluster)
      = Inl e \<and> error_key e \<in> set read_errors"
proof -
  have "\<exists>e k'. get_deployment plain_pydantic (Some mem_k8s) (id, Delivered) ''default'' ''demo'' empty_cluster
      = (Inl e, k')"
    by (simp add: get_deployment_def and_then_def get_deployment_gateway_def identity_args_def
        path_arg_def both_def under_def at_root_def demo_identity via_gateway_def gw_get_def await_def
        mem_k8s_def mem_get_def empty_cluster_def execute_def)
  then obtain e k' where d: "get_deployment plain_pydantic (Some mem_k8s) (id, Delivered) ''default'' ''demo''
      empty_cluster = (Inl e, k')" by blast
  have "error_key e \<in> set read_errors"
    using get_deployment_errors [OF mem_k8s.k8s_server_axioms d, where render = "\<lambda>_. []"] by simp
  then show ?thesis using d by simp
qed

end
