(* ===== verification/Async_Properties.thy ===== *)
theory Async_Properties
  imports Async_Routes Deployment_Properties
begin

text \<open>
  The asynchronous path from end to end: what a client submits, the worker processes and the client
  polls; the identity of idempotent submissions; and the ids the job route accepts.
\<close>

section \<open>Polling\<close>

context redis_server
begin

lemma claim_typed:
  assumes "well_typed (view s)"
  shows "well_typed (view (snd (claim R F l1 l2 l3 t s)))"
proof (rule claim_step_cases [OF assms, of F l1 l2 l3 t], goal_cases)
  case 1
  then show ?case using assms by simp
next
  case 2
  then show ?case using claim_pop_refines(1) [OF assms] by simp
next
  case (3 i)
  then show ?case using discard_refines(1) [OF claim_pop_refines(1) [OF assms]] by simp
next
  case (4 i)
  then show ?case using stamp_refines(1) [OF claim_pop_refines(1) [OF assms]] by simp
qed

end

lemma get_job_recorded:
  assumes "redis_server R view" "well_typed (view s)" "job_id_ok i"
    and rec: "q_jobs (qabs (view s)) i = Some (h, ttl)"
  shows "\<exists>xs. map_of xs = h \<and>
    get_job (Some \<lparr> qh_redis = R, qh_queue = Q \<rparr>) Delivered i s = (job_view i xs, s)"
proof -
  let ?xs = "r_hgetall R (job_key i) s"
  have m: "map_of ?xs = h" using redis_server.hgetall_job [OF assms(1,2), of i] rec by simp
  have "h \<noteq> Map.empty"
    using job_at_nonempty [OF assms(2), of i h ttl] rec by simp
  then have "?xs \<noteq> []" using m by (metis map_of.simps(1))
  then show ?thesis using m assms(3)
    by (intro exI [of _ ?xs]) (simp add: get_job_def and_then_def queue_of_def get_record_def)
qed

lemma job_view_finished:
  assumes "map_of xs ''status'' = Some status" "map_of xs ''result'' = Some (json_dumps fr (JDict kvs))"
    and "jwf fr (JDict kvs)"
  shows "job_view i xs = Inr \<lparr> aj_job_id = i, aj_status = status,
    aj_result = Some (sort_key fst (map (\<lambda>(k, v). (k, jsort v)) kvs)), aj_error = map_of xs ''error'' \<rparr>"
  using assms json_loads_dumps [OF assms(3)] by (simp add: job_view_def del: json_dumps.simps)

text \<open>A job that is finished with an object can be polled, and the poll returns that object.\<close>

lemma succeeded_then_polled:
  assumes R: "redis_server R view" and wt: "well_typed (view s)" and ttl: "0 < iq_job_ttl_seconds Q"
    and ok: "job_id_ok i" and wf: "jwf fr (JDict kvs)"
    and rec: "q_jobs (qabs (view s)) i = Some (h, t)" and e: "h ''error'' = None"
  shows "fst (finish R fr Q Delivered i ''succeeded'' (Some (JDict kvs)) None s) = Inr ()"
    and "fst (get_job (Some \<lparr> qh_redis = R, qh_queue = Q \<rparr>) Delivered i
        (snd (finish R fr Q Delivered i ''succeeded'' (Some (JDict kvs)) None s))) =
      Inr \<lparr> aj_job_id = i, aj_status = ''succeeded'',
            aj_result = Some (sort_key fst (map (\<lambda>(k, v). (k, jsort v)) kvs)), aj_error = None \<rparr>"
proof -
  let ?s' = "snd (finish R fr Q Delivered i ''succeeded'' (Some (JDict kvs)) None s)"
  note f = redis_server.finish_refines [OF R wt ttl, where fr = fr and i = i and l = Delivered
      and status = "''succeeded''" and result = "Some (JDict kvs)" and error = None]
  show "fst (finish R fr Q Delivered i ''succeeded'' (Some (JDict kvs)) None s) = Inr ()"
    using f(2) by simp
  obtain h3 where h3: "q_jobs (qabs (view ?s')) i = Some (h3, Some (of_int (iq_job_ttl_seconds Q)))"
      "h3 ''status'' = Some ''succeeded''" "h3 ''result'' = Some (json_dumps fr (JDict kvs))"
      "h3 ''error'' = None"
    using f(3) rec e by (simp add: spec_finish_def finish_fields_def del: qabs_sel json_dumps.simps)
  obtain xs where xs: "map_of xs = h3"
      "get_job (Some \<lparr> qh_redis = R, qh_queue = Q \<rparr>) Delivered i ?s' = (job_view i xs, ?s')"
    using get_job_recorded [where view = view and s = ?s', OF R f(1) ok h3(1)] by blast
  show "fst (get_job (Some \<lparr> qh_redis = R, qh_queue = Q \<rparr>) Delivered i ?s') =
      Inr \<lparr> aj_job_id = i, aj_status = ''succeeded'',
            aj_result = Some (sort_key fst (map (\<lambda>(k, v). (k, jsort v)) kvs)), aj_error = None \<rparr>"
    using xs(2) job_view_finished [where xs = xs and fr = fr and kvs = kvs, OF _ _ wf] h3(2-4)
    by (simp add: xs(1))
qed

section \<open>Submission\<close>

lemma first_separator:
  assumes "x @ c # y = x' @ c # y'" and "c \<notin> set x" and "c \<notin> set x'"
  shows "x = x' \<and> y = y'"
proof -
  have "takeWhile (\<lambda>z. z \<noteq> c) (u @ c # v) = u" if "c \<notin> set u" for u v
    using that by (subst takeWhile_append2) auto
  then have "x = x'" using assms by metis
  then show ?thesis using assms(1) by simp
qed

lemma job_payload_simps [simp]:
  "jwf fr (job_payload ns n e t)" "jsort (job_payload ns n e t) = job_payload ns n e t"
  by (simp_all add: job_payload_def)

lemma enqueue_job_accepted:
  assumes args: "ResourceName ns0 = Inr ns" "ResourceName n0 = Inr n" "header_key key0 = Inr key"
      "AsyncInferenceRequest body = Inr txt"
    and get: "gw_get K a ns n k = (Inr dep, k')" and rdy: "ready_endpoint dep = Inr endpoint"
  shows "enqueue_job fr sha (Some K) (Some h) a l uuid ns0 n0 body key0 (k, r) =
    (let job_id = job_id_for sha uuid ns n key in
     case enqueue (qh_redis h) fr (qh_queue h) l job_id (job_payload ns n endpoint txt) r of
        (Inl _, r) \<Rightarrow> (Inl redis_unavailable, k', r)
      | (Inr result, r) \<Rightarrow> (enqueue_answer job_id result, k', r))"
  using assms
  by (simp add: enqueue_job_def and_then_def get_deployment_gateway_def identity_args_def path_arg_def
      both_def under_def at_root_def on_db_def via_gateway_def queue_of_def)

section \<open>Properties\<close>

text \<open>
  (C32) The queue never meets a key of the wrong kind. Every operation, whichever of its round trips
  are lost, keeps the two lists lists without an expiry and every job key a non-empty hash, so no
  later command of the queue can be refused for the type of its key.
\<close>

theorem keys_stay_typed:
  assumes "redis_server R view" and "well_typed (view s)" and "0 < iq_job_ttl_seconds Q"
    and "0 < iq_recovery_lock_seconds Q" and "float_codec F"
  shows "well_typed (view (snd (enqueue R fr Q l i payload s))) \<and>
    well_typed (view (snd (claim R F l1 l2 l3 t s))) \<and>
    well_typed (view (snd (finish R fr Q l i status result error s))) \<and>
    well_typed (view (snd (recover_processing R F Q l1 l2 t s)))"
  using redis_server.enqueue_refines(1) [OF assms(1-3)] redis_server.claim_typed [OF assms(1,2)]
    redis_server.finish_refines(1) [OF assms(1-3)]
    redis_server.recover_processing_refines(1) [OF assms(1,2,4,5)]
  by blast

theorem keys_stay_typed_witness:
  "well_typed (mem_view (snd (claim mem_redis frac_text Delivered ReplyLost Delivered 5 one_job)))"
  using keys_stay_typed [OF mem.redis_server_axioms, OF one_job_state(1), where Q = demo_queue
      and F = frac_text, OF _ _ frac.float_codec_axioms]
  by simp

text \<open>
  (C14) The life of an asynchronous job, from the client's request to the client's answer: a
  submission for a ready deployment on an empty queue is answered 202 with status queued; the next
  claim hands the worker exactly the submitted deployment, endpoint and text; when the runtime
  answers 200 with a JSON object, the job is finished; and polling it then returns status succeeded
  with the runtime's object, its keys in order, and no error.
\<close>

theorem async_job_lifecycle:
  assumes "redis_server R view" and "well_typed (view r)"
    and "0 < iq_job_ttl_seconds Q" and "0 < iq_capacity Q"
    and "ResourceName ns0 = Inr ns" and "ResourceName n0 = Inr n" and "header_key key0 = Inr key"
    and "AsyncInferenceRequest body = Inr txt"
    and "gw_get K a ns n k = (Inr dep, k')" and "ready_endpoint dep = Inr endpoint"
    and "i = job_id_for sha uuid ns n key" and "job_id_ok i"
    and "q_jobs (qabs (view r)) i = None" and "q_queued (qabs (view r)) = []"
    and "post (rstrip_slash endpoint @ ''/v1/infer'') (JDict [(''text'', JStr txt)]) =
           HttpResponse 200 (Inr (JDict kvs))"
    and "jwf fr (JDict kvs)"
    and "submitted = enqueue_job fr sha (Some K) (Some \<lparr> qh_redis = R, qh_queue = Q \<rparr>) a Delivered
           uuid ns0 n0 body key0 (k, r)"
    and "claimed = claim R F Delivered Delivered Delivered t (snd (snd submitted))"
    and "job = \<lparr> cj_job_id = i, cj_payload = job_payload ns n endpoint txt \<rparr>"
    and "done = process_job R fr Q Delivered post job (snd claimed)"
  shows "fst submitted = Inr (202, \<lparr> aj_job_id = i, aj_status = ''queued'', aj_result = None,
            aj_error = None \<rparr>) \<and>
    fst claimed = Inr (Some job) \<and> fst done = Inr () \<and>
    fst (get_job (Some \<lparr> qh_redis = R, qh_queue = Q \<rparr>) Delivered i (snd done)) =
      Inr \<lparr> aj_job_id = i, aj_status = ''succeeded'',
            aj_result = Some (sort_key fst (map (\<lambda>(k, v). (k, jsort v)) kvs)), aj_error = None \<rparr>"
proof -
  let ?p = "job_payload ns n endpoint txt"
  let ?h = "[''status'' \<mapsto> ''queued'', ''payload'' \<mapsto> json_dumps fr ?p]"
  note e = redis_server.enqueue_refines [OF assms(1-3), where fr = fr and i = i and payload = ?p
      and l = Delivered]
  let ?r1 = "snd (enqueue R fr Q Delivered i ?p r)"
  have q1: "qabs (view ?r1) = (qabs (view r))\<lparr>q_queued := [i],
      q_jobs := (q_jobs (qabs (view r)))(i \<mapsto> (?h, Some (of_int (iq_job_ttl_seconds Q))))\<rparr>"
    using e(4) assms(4,13,14) by (simp add: spec_enqueue_def del: qabs_sel)
  have er: "fst (enqueue R fr Q Delivered i ?p r) =
      Inr \<lparr>er_created = True, er_full = False, er_conflict = False\<rparr>"
    using e(2) assms(4,13,14) by (simp add: spec_enqueue_def del: qabs_sel)
  have sub: "submitted = (Inr (202, \<lparr> aj_job_id = i, aj_status = ''queued'', aj_result = None,
      aj_error = None \<rparr>), k', ?r1)"
    using enqueue_job_accepted [OF assms(5-10), of fr sha "\<lparr> qh_redis = R, qh_queue = Q \<rparr>" Delivered
        uuid r] er
    by (auto simp: assms(11,17) Let_def enqueue_answer_def split: prod.splits)
  have c: "fst claimed = Inr (Some job)"
      "qabs (view (snd claimed)) = \<lparr>q_queued = [], q_processing = q_processing (qabs (view r)) @ [i],
        q_jobs = (q_jobs (qabs (view r)))(i \<mapsto>
         (?h(''status'' \<mapsto> ''running'', ''claimed_at'' \<mapsto> py_repr F t), Some (of_int (iq_job_ttl_seconds Q))))\<rparr>"
    using claim_delivery [OF assms(1) e(1), where i = i and rest = "[]" and h = ?h and fr = fr and v = ?p
        and F = F and t = t and ttl = "Some (of_int (iq_job_ttl_seconds Q))"]
    by (auto simp: assms(18,19) sub q1 terminal_status_def simp del: qabs_sel json_dumps.simps)
  have wt2: "well_typed (view (snd claimed))"
    using redis_server.claim_typed [OF assms(1) e(1)] by (simp add: assms(18) sub)
  have d: "done = lift_finish (finish R fr Q Delivered i ''succeeded'' (Some (JDict kvs)) None (snd claimed))"
    using assms(15)
    by (simp add: assms(19,20) job_payload_def process_job_def runtime_call_payload http_result_def
        not_null_def)
  have "fst done = Inr ()"
    "fst (get_job (Some \<lparr> qh_redis = R, qh_queue = Q \<rparr>) Delivered i (snd done)) =
      Inr \<lparr> aj_job_id = i, aj_status = ''succeeded'',
            aj_result = Some (sort_key fst (map (\<lambda>(k, v). (k, jsort v)) kvs)), aj_error = None \<rparr>"
    using succeeded_then_polled [OF assms(1) wt2 assms(3,12,16), of "?h(''status'' \<mapsto> ''running'',
        ''claimed_at'' \<mapsto> py_repr F t)" "Some (of_int (iq_job_ttl_seconds Q))"]
    by (simp_all add: c(2) d lift_finish_def del: qabs_sel json_dumps.simps)
  then show ?thesis using sub c(1) by simp
qed

definition ready_cluster :: mem_cluster where
  "ready_cluster = \<lparr> cl_objects = [((''default'', ''demo''), ready_object)], cl_counter = 1 \<rparr>"

definition demo_job_id :: string where
  "demo_job_id = replicate 36 (CHR ''7'')"

definition demo_answer :: dict where
  "demo_answer = [(''label'', JStr ''positive''), (''confidence'', JInt 1)]"

definition demo_post :: "string \<Rightarrow> json \<Rightarrow> http_outcome" where
  "demo_post url body = HttpResponse 200 (Inr (JDict demo_answer))"

definition demo_handle :: "mem queue_handle" where
  "demo_handle = \<lparr> qh_redis = mem_redis, qh_queue = demo_queue \<rparr>"

definition demo_submitted :: "(exc + int \<times> async_inference_job) \<times> mem_cluster \<times> mem" where
  "demo_submitted = enqueue_job id id (Some mem_k8s) (Some \<lparr> qh_redis = mem_redis, qh_queue = demo_queue \<rparr>)
     (id, Delivered) Delivered demo_job_id ''default'' ''demo'' (JDict [(''text'', JStr ''good'')]) None
     (ready_cluster, Map.empty)"

definition demo_job :: claimed_job where
  "demo_job = \<lparr> cj_job_id = demo_job_id,
     cj_payload = job_payload ''default'' ''demo'' ''http://demo.default:8080'' ''good'' \<rparr>"

definition demo_done :: "(worker_error + unit) \<times> mem" where
  "demo_done = process_job mem_redis id demo_queue Delivered demo_post demo_job
     (snd (claim mem_redis frac_text Delivered Delivered Delivered 5 (snd (snd demo_submitted))))"

lemma demo_async_args:
  "header_key None = Inr None" "AsyncInferenceRequest (JDict [(''text'', JStr ''good'')]) = Inr ''good''"
  "ready_endpoint ready_object = Inr ''http://demo.default:8080''"
  "gw_get mem_k8s (id, Delivered) ''default'' ''demo'' ready_cluster = (Inr ready_object, ready_cluster)"
  "job_id_ok demo_job_id"
  by code_simp+

theorem async_job_lifecycle_witness:
  "fst (get_job (Some \<lparr> qh_redis = mem_redis, qh_queue = demo_queue \<rparr>) Delivered demo_job_id
     (snd demo_done)) =
   Inr \<lparr> aj_job_id = demo_job_id, aj_status = ''succeeded'',
         aj_result = Some [(''confidence'', JInt 1), (''label'', JStr ''positive'')], aj_error = None \<rparr>"
proof -
  have i: "demo_job_id = job_id_for id demo_job_id ''default'' ''demo'' None"
    by (simp add: job_id_for_def)
  have j: "demo_job = \<lparr> cj_job_id = demo_job_id,
      cj_payload = job_payload ''default'' ''demo'' ''http://demo.default:8080'' ''good'' \<rparr>"
    by (rule demo_job_def)
  have s: "sort_key fst (map (\<lambda>(k, v). (k, jsort v)) demo_answer) =
      [(''confidence'', JInt 1), (''label'', JStr ''positive'')]" by code_simp
  show ?thesis
    using async_job_lifecycle [OF mem.redis_server_axioms, OF _ _ _ demo_identity demo_async_args(1,2,4,3)
        i demo_async_args(5) _ _ _ _ demo_submitted_def refl j demo_done_def, where kvs = demo_answer]
    by (simp add: demo_post_def demo_answer_def s [unfolded demo_answer_def] del: qabs_sel)
qed

text \<open>
  Idempotency keys are per deployment: the identity text that is hashed into a job id determines
  the namespace, the deployment and the key, whatever characters the key contains, because neither
  name can contain a slash. Two submissions share an identity only when all three agree.
\<close>

theorem job_identity_injective:
  assumes "ResourceName ns0 = Inr ns" and "ResourceName n0 = Inr n"
    and "ResourceName ns0' = Inr ns'" and "ResourceName n0' = Inr n'"
    and "job_identity ns n key = job_identity ns' n' key'"
  shows "ns = ns' \<and> n = n' \<and> key = key'"
proof -
  have sl: "CHR ''/'' \<notin> set x" if "ResourceName y = Inr x" for x y
    using that dns_label_no_slash ResourceName_iff by blast
  note split = first_separator [where c = "CHR ''/''"]
  have "ns = ns' \<and> n @ CHR ''/'' # key = n' @ CHR ''/'' # key'"
    using assms(5) sl [OF assms(1)] sl [OF assms(3)] by (intro split) (simp_all add: job_identity_def)
  then show ?thesis using split sl [OF assms(2)] sl [OF assms(4)] by blast
qed

theorem job_identity_injective_witness:
  "job_identity ''default'' ''demo'' ''a/b'' \<noteq> job_identity ''default'' ''demo'' ''b''"
  using job_identity_injective [OF demo_identity demo_identity, of "''a/b''" "''b''"] by auto

text \<open>
  Every id the API hands out can be polled: a random UUID (36 characters, hexadecimal digits and
  hyphens) and a SHA-256 digest (64 hexadecimal digits) both pass the check of the job route, while
  ids longer than 64 characters, and texts with characters other than letters, digits and hyphens
  (as in a path or a Redis pattern), are answered 404 without a query.
\<close>

theorem job_ids_pollable:
  assumes "length uuid = 36" and "\<forall>c \<in> set uuid. hex_digit c \<or> c = CHR ''-''"
    and "\<exists>c \<in> set uuid. hex_digit c"
    and "\<forall>x. length (sha x) = 64 \<and> (\<forall>c \<in> set (sha x). hex_digit c)"
  shows "job_id_ok (job_id_for sha uuid ns n key) \<and>
    (64 < length i \<or> (\<exists>c \<in> set i. \<not> py_isalnum c \<and> c \<noteq> CHR ''-'') \<longrightarrow>
       get_job q l i r = (Inl job_not_found, r))"
proof
  have h: "py_isalnum c \<and> c \<noteq> CHR ''-''" if "hex_digit c" for c
    using that by (auto simp: hex_digit_def py_isalnum_def is_alnum_ascii_def is_lower_def is_digit_def)
  have u: "job_id_ok uuid"
    using assms(1-3) h by (auto simp: job_id_ok_def Let_def list_all_iff filter_empty_conv)
  have s: "job_id_ok (sha x)" for x
  proof -
    have "sha x \<noteq> []" using assms(4) by (metis length_0_conv zero_neq_numeral)
    then show ?thesis using assms(4) h
      by (auto simp: job_id_ok_def Let_def list_all_iff filter_empty_conv)
  qed
  show "job_id_ok (job_id_for sha uuid ns n key)"
    using u s by (simp add: job_id_for_def split: option.split)
  show "64 < length i \<or> (\<exists>c \<in> set i. \<not> py_isalnum c \<and> c \<noteq> CHR ''-'') \<longrightarrow>
       get_job q l i r = (Inl job_not_found, r)"
    by (auto simp: get_job_def job_id_ok_def Let_def list_all_iff)
qed

theorem job_ids_pollable_witness:
  "job_id_ok (job_id_for (\<lambda>_. replicate 64 (CHR ''a'')) demo_job_id ''default'' ''demo'' (Some ''k''))"
  using job_ids_pollable [where uuid = demo_job_id and sha = "\<lambda>_. replicate 64 (CHR ''a'')"
      and ns = "''default''" and n = "''demo''" and key = "Some ''k''" and i = "[]" and q = "None :: mem queue_handle option"
      and l = Delivered and r = Map.empty]
  by (simp add: demo_job_id_def hex_digit_def is_digit_def)

section \<open>Answers that are not objects\<close>

lemma job_view_other:
  assumes "map_of xs ''status'' = Some status" "map_of xs ''result'' = Some (json_dumps fr v)"
    and "jwf fr v" "v \<noteq> JNull" "\<And>kvs. v \<noteq> JDict kvs"
  shows "job_view i xs = Inl (PyExc ValueError)"
proof -
  have "json_loads (json_dumps fr v) = Some (jsort v)" by (rule json_loads_dumps [OF assms(3)])
  then show ?thesis using assms(1,2,4,5)
    by (cases v) (simp_all add: job_view_def del: json_dumps.simps, blast)
qed

text \<open>
  (C30) A runtime that answers 200 with JSON that is not an object spoils polling. For every Redis, every
  job with a record and every such answer (a list, a text, a number or a truth value) the worker records
  the job as succeeded, and a poll of it ends in an exception that no handler serialises. A JSON null,
  or an empty body, is the exception: it is recorded as no result, and the poll answers succeeded
  without one.
\<close>

theorem non_object_result_unpollable:
  assumes "redis_server R view" and "well_typed (view s)" and "0 < iq_job_ttl_seconds Q" and "job_id_ok i"
    and "q_jobs (qabs (view s)) i = Some (h, t)" and "h ''result'' = None" and "h ''error'' = None"
    and "post (rstrip_slash e @ ''/v1/infer'') (JDict [(''text'', JStr x)]) = HttpResponse 200 (Inr v)"
    and "jwf fr v" and "\<And>kvs. v \<noteq> JDict kvs"
    and "done = process_job R fr Q Delivered post \<lparr> cj_job_id = i, cj_payload = job_payload ns n e x \<rparr> s"
  shows "fst done = Inr () \<and>
    (\<exists>h' t'. q_jobs (qabs (view (snd done))) i = Some (h', t') \<and> h' ''status'' = Some ''succeeded'') \<and>
    fst (get_job (Some \<lparr> qh_redis = R, qh_queue = Q \<rparr>) Delivered i (snd done)) =
      (if v = JNull then Inr \<lparr> aj_job_id = i, aj_status = ''succeeded'', aj_result = None, aj_error = None \<rparr>
       else Inl (PyExc ValueError))"
proof -
  have d: "done = lift_finish (finish R fr Q Delivered i ''succeeded'' (not_null v) None s)"
    using assms(8) by (simp add: assms(11) job_payload_def process_job_def runtime_call_payload http_result_def)
  note f = redis_server.finish_refines [OF assms(1-3), where fr = fr and i = i and l = Delivered
      and status = "''succeeded''" and result = "not_null v" and error = None]
  obtain h3 where h3: "q_jobs (qabs (view (snd done))) i = Some (h3, Some (of_int (iq_job_ttl_seconds Q)))"
      "h3 ''status'' = Some ''succeeded''" "h3 ''error'' = None"
      "h3 ''result'' = map_option (json_dumps fr) (not_null v)"
    using f(3) assms(5-7)
    by (simp add: d lift_finish_def spec_finish_def finish_fields_def not_null_def del: qabs_sel json_dumps.simps)
  have wt: "well_typed (view (snd done))" using f(1) by (simp add: d lift_finish_def)
  obtain xs where xs: "map_of xs = h3"
      "get_job (Some \<lparr> qh_redis = R, qh_queue = Q \<rparr>) Delivered i (snd done) = (job_view i xs, snd done)"
    using get_job_recorded [where view = view, OF assms(1) wt assms(4) h3(1)] by blast
  have "job_view i xs = (if v = JNull
      then Inr \<lparr> aj_job_id = i, aj_status = ''succeeded'', aj_result = None, aj_error = None \<rparr>
      else Inl (PyExc ValueError))"
    using job_view_other [of xs "''succeeded''" fr v i] h3(2-4) assms(9,10)
    by (simp add: xs(1) not_null_def job_view_def del: json_dumps.simps)
  then show ?thesis using f(2) h3(1,2) xs(2) by (simp add: d lift_finish_def del: qabs_sel)
qed

definition listing_post :: "string \<Rightarrow> json \<Rightarrow> http_outcome" where
  "listing_post url body = HttpResponse 200 (Inr (JList []))"

theorem non_object_result_unpollable_witness:
  "fst (get_job (Some \<lparr> qh_redis = mem_redis, qh_queue = demo_queue \<rparr>) Delivered ''a''
     (snd (process_job mem_redis id demo_queue Delivered listing_post
       \<lparr> cj_job_id = ''a'', cj_payload = job_payload ''n'' ''d'' ''http://h'' ''t'' \<rparr> one_job))) =
   Inl (PyExc ValueError)"
proof -
  have "job_id_ok ''a''" by code_simp
  then show ?thesis
    using non_object_result_unpollable [OF mem.redis_server_axioms, OF one_job_state(1) _ _ _ _ _ _ _ _ refl,
        where Q = demo_queue and i = "''a''" and post = listing_post and e = "''http://h''" and x = "''t''"
        and v = "JList []" and fr = id and ns = "''n''" and n = "''d''"]
    by (simp add: one_job_state(2) listing_post_def del: qabs_sel)
qed

end
