(* ===== verification/Drain.thy ===== *)
theory Drain
  imports Async_Properties
begin

text \<open>
  The worker's loop against a queue of waiting jobs: over working connections every pass settles one
  job whose outcome \<open>process_job\<close> handles, so as many passes as there are jobs empty the queue.
\<close>

definition waiting_job :: "(string \<Rightarrow> string) \<Rightarrow> qstate \<Rightarrow> string \<Rightarrow> bool" where
  "waiting_job fr q i \<longleftrightarrow>
     (\<exists>h t ns n e txt. q_jobs q i = Some (h, t) \<and> \<not> terminal_status (h ''status'') \<and>
        h ''payload'' = Some (json_dumps fr (job_payload ns n e txt)))"

lemma waiting_jobI:
  "q_jobs q i = Some (h, t) \<Longrightarrow> \<not> terminal_status (h ''status'') \<Longrightarrow>
     h ''payload'' = Some (json_dumps fr (job_payload ns n e x)) \<Longrightarrow> waiting_job fr q i"
  unfolding waiting_job_def by blast

definition settled :: "int \<Rightarrow> qstate \<Rightarrow> string \<Rightarrow> bool" where
  "settled ttl q i \<longleftrightarrow> (\<exists>h. q_jobs q i = Some (h, Some (of_int ttl)) \<and> terminal_status (h ''status''))"

definition reliable :: "pass_input \<Rightarrow> bool" where
  "reliable p \<longleftrightarrow> p_pop p = Delivered \<and> p_read p = Delivered \<and> p_write p = Delivered \<and> p_finish p = Delivered"

text \<open>
  The runtime is there or it is not: the request raises a client error or times out, or there is an
  answer with some status and some body that can be decoded.
\<close>

definition tolerable :: "pass_input \<Rightarrow> bool" where
  "tolerable p \<longleftrightarrow> (\<forall>url body. handled (p_post p url body))"

lemma process_job_finishes:
  assumes "\<And>url body. handled (post url body)"
  shows "\<exists>status result error. terminal_status (Some status) \<and>
     process_job R fr Q l post \<lparr>cj_job_id = i, cj_payload = job_payload ns n e txt\<rparr> s =
       lift_finish (finish R fr Q l i status result error s)"
proof (cases "http_result (post (rstrip_slash e @ ''/v1/infer'') (JDict [(''text'', JStr txt)]))")
  case (Inl x)
  moreover have "caught x"
    using Inl assms [of "rstrip_slash e @ ''/v1/infer''" "JDict [(''text'', JStr txt)]"] by (simp add: handled_def)
  ultimately show ?thesis
    by (intro exI [of _ "''failed''"])
      (auto simp: process_job_def runtime_call_payload job_payload_def terminal_status_def)
next
  case (Inr v)
  then show ?thesis
    by (intro exI [of _ "''succeeded''"])
      (auto simp: process_job_def runtime_call_payload job_payload_def terminal_status_def)
qed

lemma consume_pass_settles:
  fixes F :: float_text
  assumes R: "redis_server R view" and wt: "well_typed (view s)" and ttl: "0 < iq_job_ttl_seconds Q"
    and p: "reliable p" "tolerable p" and q: "q_queued (qabs (view s)) = i # rest"
    and w: "waiting_job fr (qabs (view s)) i" and n: "i \<notin> set (q_processing (qabs (view s)))"
  defines "s' \<equiv> snd (consume_pass R F fr Q p s)"
  shows "fst (consume_pass R F fr Q p s) = None" and "well_typed (view s')"
    and "q_queued (qabs (view s')) = rest"
    and "q_processing (qabs (view s')) = q_processing (qabs (view s))"
    and "settled (iq_job_ttl_seconds Q) (qabs (view s')) i"
    and "j \<noteq> i \<Longrightarrow> q_jobs (qabs (view s')) j = q_jobs (qabs (view s)) j"
proof -
  obtain h t ns nm e x where j: "q_jobs (qabs (view s)) i = Some (h, t)"
      "\<not> terminal_status (h ''status'')" "h ''payload'' = Some (json_dumps fr (job_payload ns nm e x))"
    using w by (auto simp: waiting_job_def simp del: json_dumps.simps)
  let ?c = "claim R F Delivered Delivered Delivered (p_time p) s"
  note c = claim_delivery [OF R wt q j job_payload_simps(1), where F = F and t = "p_time p"]
  have wt1: "well_typed (view (snd ?c))" by (rule redis_server.claim_typed [OF R wt])
  obtain status result error where f: "terminal_status (Some status)"
    "process_job R fr Q Delivered (p_post p) \<lparr>cj_job_id = i, cj_payload = job_payload ns nm e x\<rparr> (snd ?c) =
       lift_finish (finish R fr Q Delivered i status result error (snd ?c))"
    using process_job_finishes [of "p_post p" R fr Q Delivered i ns nm e x "snd ?c"] p(2)
    unfolding tolerable_def by blast
  note r = redis_server.finish_refines [OF R wt1 ttl, where fr = fr and i = i and l = Delivered
      and status = status and result = result and error = error]
  have e: "consume_pass R F fr Q p s =
      (None, snd (finish R fr Q Delivered i status result error (snd ?c)))"
    using c(1) f(2) r(2) p(1)
    by (cases ?c) (simp add: consume_pass_def reliable_def lift_finish_def split: prod.splits)
  then show "fst (consume_pass R F fr Q p s) = None" by simp
  show "well_typed (view s')" using r(1) by (simp add: s'_def e)
  have q': "qabs (view s') = spec_finish (iq_job_ttl_seconds Q) i (finish_fields fr status result error)
      (qabs (view (snd ?c)))"
    using r(3) by (simp add: s'_def e)
  show "q_queued (qabs (view s')) = rest"
    unfolding q' c(2) by (simp add: spec_finish_def)
  show "q_processing (qabs (view s')) = q_processing (qabs (view s))"
    using n unfolding q' c(2) by (simp add: spec_finish_def remove1_append)
  show "settled (iq_job_ttl_seconds Q) (qabs (view s')) i"
    using f(1) unfolding q' c(2) by (simp add: spec_finish_def settled_def finish_fields_def split: option.split)
  show "q_jobs (qabs (view s')) j = q_jobs (qabs (view s)) j" if "j \<noteq> i"
    using that unfolding q' c(2) by (simp add: spec_finish_def)
qed

lemma empty_queue_pass:
  assumes R: "redis_server R view" and wt: "well_typed (view s)"
    and p: "reliable p" and q: "q_queued (qabs (view s)) = []"
  shows "fst (consume_pass R F fr Q p s) = None \<and> well_typed (view (snd (consume_pass R F fr Q p s))) \<and>
    qabs (view (snd (consume_pass R F fr Q p s))) = qabs (view s)"
proof -
  note c = redis_server.claim_pop_refines [OF R wt]
  have "fst (claim_pop R s) = None" "qabs (view (snd (claim_pop R s))) = qabs (view s)"
    using c(2) q by (simp_all add: spec_pop_def del: qabs_sel)
  then show ?thesis using c(1) p
    by (simp add: consume_pass_def claim_def reliable_def del: qabs_sel split: prod.splits)
qed

lemma consume_step:
  "fst (consume_pass R F fr Q p s) = None \<Longrightarrow>
     consume R F fr Q (p # ps) s = consume R F fr Q ps (snd (consume_pass R F fr Q p s))"
  by (cases "consume_pass R F fr Q p s") simp

text \<open>
  (C31) The worker's loop drains the queue. Over working connections and with any runtime whose outcome
  on each job \<open>process_job\<close> handles (it answers with any status and a body that can be decoded, fails or
  times out), as many passes as there are waiting jobs settle every one of them, none leaves the loop
  by an exception, and the queue is empty afterwards with no claim left over; further passes change
  nothing.
\<close>

theorem consume_drains:
  assumes "redis_server R view" and "well_typed (view s)" and "0 < iq_job_ttl_seconds Q"
    and "distinct (q_queued (qabs (view s)) @ q_processing (qabs (view s)))"
    and "\<forall>i \<in> set (q_queued (qabs (view s))). waiting_job fr (qabs (view s)) i"
    and "\<forall>p \<in> set ps. reliable p \<and> tolerable p" and "length (q_queued (qabs (view s))) \<le> length ps"
    and "r = consume R F fr Q ps s"
  shows "fst r = None \<and> q_queued (qabs (view (snd r))) = [] \<and>
    q_processing (qabs (view (snd r))) = q_processing (qabs (view s)) \<and>
    (\<forall>i. if i \<in> set (q_queued (qabs (view s))) then settled (iq_job_ttl_seconds Q) (qabs (view (snd r))) i
         else q_jobs (qabs (view (snd r))) i = q_jobs (qabs (view s)) i)"
  using assms(2,4-) unfolding assms(8)
proof (induction ps arbitrary: s)
  case Nil
  then show ?case by simp
next
  case (Cons p ps)
  have p: "reliable p" "tolerable p" using Cons.prems by simp_all
  let ?s' = "snd (consume_pass R F fr Q p s)"
  show ?case
  proof (cases "q_queued (qabs (view s))")
    case Nil
    note e = empty_queue_pass [OF assms(1) Cons.prems(1) p(1) Nil, of F fr Q]
    have c: "consume R F fr Q (p # ps) s = consume R F fr Q ps ?s'"
      by (rule consume_step) (use e in blast)
    show ?thesis
      using Cons.IH [of ?s'] e Cons.prems unfolding c by (simp add: Nil del: qabs_sel)
  next
    case q: (Cons i rest)
    have w: "waiting_job fr (qabs (view s)) i" and n: "i \<notin> set (q_processing (qabs (view s)))"
      using Cons.prems q by (simp_all del: qabs_sel)
    note e = consume_pass_settles [OF assms(1) Cons.prems(1) assms(3) p q w n, where F = F]
    have c: "consume R F fr Q (p # ps) s = consume R F fr Q ps ?s'"
      by (rule consume_step) (rule e(1))
    have k: "waiting_job fr (qabs (view ?s')) j" if "j \<in> set rest" for j
    proof -
      have "j \<noteq> i" "waiting_job fr (qabs (view s)) j"
        using that Cons.prems(2,3) q by (auto simp del: qabs_sel)
      then show ?thesis using e(6) by (simp add: waiting_job_def del: qabs_sel json_dumps.simps)
    qed
    have "settled (iq_job_ttl_seconds Q) q' i"
      if "q_jobs q' i = q_jobs (qabs (view ?s')) i" for q'
      using e(5) that by (simp add: settled_def del: qabs_sel)
    then show ?thesis
      using Cons.IH [of ?s'] e(2-4,6) k Cons.prems unfolding c by (auto simp: q simp del: qabs_sel)
  qed
qed

definition demo_pass :: pass_input where
  "demo_pass = \<lparr> p_pop = Delivered, p_read = Delivered, p_write = Delivered, p_finish = Delivered,
     p_time = 5, p_post = (\<lambda>_ _. HttpRaises TimeoutError) \<rparr>"

definition queued_state :: mem where
  "queued_state = snd (enqueue mem_redis id demo_queue Delivered ''a'' (job_payload ''n'' ''d'' ''http://h'' ''t'')
     Map.empty)"

lemma queued_state_view:
  "well_typed (mem_view queued_state)"
  "qabs (mem_view queued_state) = \<lparr>q_queued = [''a''], q_processing = [], q_jobs =
     [''a'' \<mapsto> ([''status'' \<mapsto> ''queued'',
        ''payload'' \<mapsto> json_dumps id (job_payload ''n'' ''d'' ''http://h'' ''t'')], Some 60)]\<rparr>"
  using mem.enqueue_refines [where s = Map.empty and Q = demo_queue and l = Delivered and fr = id
      and i = "''a''" and payload = "job_payload ''n'' ''d'' ''http://h'' ''t''"]
  by (simp_all add: queued_state_def spec_enqueue_def del: json_dumps.simps)

theorem consume_drains_witness:
  "q_queued (qabs (mem_view queued_state)) = [''a''] \<and>
   q_queued (qabs (mem_view
     (snd (consume mem_redis frac_text id demo_queue [demo_pass, demo_pass] queued_state)))) = []"
proof -
  have "waiting_job id (qabs (mem_view queued_state)) ''a''"
    unfolding queued_state_view(2)
    by (rule waiting_jobI [where ns = "''n''" and n = "''d''" and e = "''http://h''" and x = "''t''"
        and t = "Some 60" and h = "[''status'' \<mapsto> ''queued'',
          ''payload'' \<mapsto> json_dumps id (job_payload ''n'' ''d'' ''http://h'' ''t'')]"])
      (simp_all add: terminal_status_def del: json_dumps.simps)
  then show ?thesis
    using consume_drains [OF mem.redis_server_axioms, OF queued_state_view(1), where Q = demo_queue and fr = id
        and ps = "[demo_pass, demo_pass]" and F = frac_text, OF _ _ _ _ _ refl]
    by (simp add: queued_state_view(2) demo_pass_def reliable_def tolerable_def handled_def http_result_def caught_def del: qabs_sel consume.simps)
qed

end
