(* ===== verification/Database.thy ===== *)
theory Database
  imports Config Schemas
begin

text \<open>
  The database set-up: the tables that the migration
  \<open>migrations/versions/20260901_0001_model_registry.py\<close> creates and drops, the tables that the
  declarations of \<open>app/db_models.py\<close> stand for, and the options of the engine of \<open>app/database.py\<close>.
  A catalogue maps table names to columns, constraints and indexes.
\<close>

section \<open>Catalogues\<close>

datatype sql_type = SqlString nat | SqlText | SqlDateTimeTz | SqlInteger | SqlJson

record column =
  co_name :: string
  co_type :: sql_type
  co_nullable :: bool
  co_default_now :: bool
  co_autoincrement :: bool

datatype constraint =
    PrimaryKey "string list"
  | UniqueKey "string list"
  | ForeignKey "string list" string "string list" string

record table =
  ta_columns :: "column list"
  ta_constraints :: "constraint list"
  ta_indexes :: "(string \<times> string list \<times> bool) list"

type_synonym catalog = "(string \<times> table) list"

datatype ddl_error = DuplicateTable | NoTable | DuplicateIndex | NoIndex | Dependent

text \<open>The operations of Alembic: each is one statement that the database may refuse.\<close>

definition create_table ::
  "string \<Rightarrow> column list \<Rightarrow> constraint list \<Rightarrow> catalog \<Rightarrow> ddl_error + catalog" where
  "create_table name cols cons cat =
     (if map_of cat name \<noteq> None then Inl DuplicateTable
      else if \<exists>c \<in> set cons. (case c of ForeignKey _ target _ _ \<Rightarrow> map_of cat target = None | _ \<Rightarrow> False)
      then Inl NoTable
      else Inr (cat @ [(name, \<lparr> ta_columns = cols, ta_constraints = cons, ta_indexes = [] \<rparr>)]))"

definition create_index :: "string \<Rightarrow> string \<Rightarrow> string list \<Rightarrow> bool \<Rightarrow> catalog \<Rightarrow> ddl_error + catalog" where
  "create_index index tab cols unique cat =
     (case map_of cat tab of
        None \<Rightarrow> Inl NoTable
      | Some t \<Rightarrow>
          if map_of (ta_indexes t) index \<noteq> None then Inl DuplicateIndex
          else Inr (AList.update tab (t\<lparr> ta_indexes := ta_indexes t @ [(index, cols, unique)] \<rparr>) cat))"

definition drop_index :: "string \<Rightarrow> string \<Rightarrow> catalog \<Rightarrow> ddl_error + catalog" where
  "drop_index index tab cat =
     (case map_of cat tab of
        None \<Rightarrow> Inl NoTable
      | Some t \<Rightarrow>
          if map_of (ta_indexes t) index = None then Inl NoIndex
          else Inr (AList.update tab (t\<lparr> ta_indexes := AList.delete index (ta_indexes t) \<rparr>) cat))"

definition drop_table :: "string \<Rightarrow> catalog \<Rightarrow> ddl_error + catalog" where
  "drop_table name cat =
     (if map_of cat name = None then Inl NoTable
      else if \<exists>(other, t) \<in> set cat. other \<noteq> name \<and>
                (\<exists>c \<in> set (ta_constraints t). case c of ForeignKey _ target _ _ \<Rightarrow> target = name | _ \<Rightarrow> False)
      then Inl Dependent
      else Inr (AList.delete name cat))"

section \<open>The migration\<close>

text \<open>A column as \<open>sa.Column\<close> gives it: nothing further, a server-side time stamp, an autoincrement.\<close>

definition sa_column :: "string \<Rightarrow> sql_type \<Rightarrow> bool \<Rightarrow> column" where
  "sa_column name ty null_ok =
     \<lparr> co_name = name, co_type = ty, co_nullable = null_ok, co_default_now = False,
       co_autoincrement = False \<rparr>"

definition stamp_column :: "string \<Rightarrow> column" where
  "stamp_column name = (sa_column name SqlDateTimeTz False)\<lparr> co_default_now := True \<rparr>"

definition upgrade :: "catalog \<Rightarrow> ddl_error + catalog" where
  "upgrade cat =
     bind_result (create_table ''models''
       [sa_column ''name'' (SqlString 63) False,
        sa_column ''description'' SqlText True,
        stamp_column ''created_at'',
        stamp_column ''updated_at'']
       [PrimaryKey [''name'']] cat) (\<lambda>cat.
     bind_result (create_table ''model_versions''
       [(sa_column ''id'' SqlInteger False)\<lparr> co_autoincrement := True \<rparr>,
        sa_column ''model_name'' (SqlString 63) False,
        sa_column ''version'' (SqlString 63) False,
        sa_column ''runtime_image'' (SqlString 512) False,
        sa_column ''artifact_digest'' (SqlString 128) True,
        sa_column ''metadata'' SqlJson False,
        stamp_column ''created_at'']
       [ForeignKey [''model_name''] ''models'' [''name''] ''CASCADE'',
        PrimaryKey [''id''],
        UniqueKey [''model_name'', ''version'']] cat) (\<lambda>cat.
     create_index ''ix_model_versions_model_name'' ''model_versions'' [''model_name''] False cat))"

definition downgrade :: "catalog \<Rightarrow> ddl_error + catalog" where
  "downgrade cat =
     bind_result (drop_index ''ix_model_versions_model_name'' ''model_versions'' cat) (\<lambda>cat.
     bind_result (drop_table ''model_versions'' cat) (\<lambda>cat.
     drop_table ''models'' cat))"

section \<open>The declared models\<close>

text \<open>
  A \<open>mapped_column\<close>. Its type is given, or that of the column its foreign key refers to; a primary
  key column is not nullable.
\<close>

record mapped =
  mc_name :: string
  mc_type :: "sql_type option"
  mc_nullable :: bool
  mc_primary_key :: bool
  mc_autoincrement :: bool
  mc_default_now :: bool
  mc_foreign_key :: "(string \<times> string \<times> string) option"
  mc_index :: bool

definition mapped_column :: "string \<Rightarrow> sql_type option \<Rightarrow> bool \<Rightarrow> mapped" where
  "mapped_column name ty null_ok =
     \<lparr> mc_name = name, mc_type = ty, mc_nullable = null_ok, mc_primary_key = False,
       mc_autoincrement = False, mc_default_now = False, mc_foreign_key = None, mc_index = False \<rparr>"

definition RegisteredModel :: "mapped list" where
  "RegisteredModel =
     [(mapped_column ''name'' (Some (SqlString 63)) False)\<lparr> mc_primary_key := True \<rparr>,
      mapped_column ''description'' (Some SqlText) True,
      (mapped_column ''created_at'' (Some SqlDateTimeTz) False)\<lparr> mc_default_now := True \<rparr>,
      (mapped_column ''updated_at'' (Some SqlDateTimeTz) False)\<lparr> mc_default_now := True \<rparr>]"

definition ModelVersion :: "mapped list" where
  "ModelVersion =
     [(mapped_column ''id'' (Some SqlInteger) False)\<lparr> mc_primary_key := True, mc_autoincrement := True \<rparr>,
      (mapped_column ''model_name'' None False)
        \<lparr> mc_foreign_key := Some (''models'', ''name'', ''CASCADE''), mc_index := True \<rparr>,
      mapped_column ''version'' (Some (SqlString 63)) False,
      mapped_column ''runtime_image'' (Some (SqlString 512)) False,
      mapped_column ''artifact_digest'' (Some (SqlString 128)) True,
      mapped_column ''metadata'' (Some SqlJson) False,
      (mapped_column ''created_at'' (Some SqlDateTimeTz) False)\<lparr> mc_default_now := True \<rparr>]"

text \<open>What a declaration stands for, given the declarations it may refer to.\<close>

definition declared_type :: "(string \<times> mapped list) list \<Rightarrow> mapped \<Rightarrow> sql_type option" where
  "declared_type decls m =
     (case mc_type m of
        Some ty \<Rightarrow> Some ty
      | None \<Rightarrow> (case mc_foreign_key m of
          None \<Rightarrow> None
        | Some (target, col, _) \<Rightarrow>
            (case map_of decls target of
               None \<Rightarrow> None
             | Some ms \<Rightarrow> (case find (\<lambda>x. mc_name x = col) ms of None \<Rightarrow> None | Some x \<Rightarrow> mc_type x))))"

definition declared_column :: "(string \<times> mapped list) list \<Rightarrow> mapped \<Rightarrow> column option" where
  "declared_column decls m = map_option (\<lambda>ty.
     \<lparr> co_name = mc_name m, co_type = ty, co_nullable = mc_nullable m,
       co_default_now = mc_default_now m, co_autoincrement = mc_autoincrement m \<rparr>)
     (declared_type decls m)"

definition declared_constraints :: "constraint list \<Rightarrow> mapped list \<Rightarrow> constraint list" where
  "declared_constraints table_args ms =
     PrimaryKey (map mc_name (filter mc_primary_key ms)) #
     List.map_filter (\<lambda>m. map_option (\<lambda>(target, col, act). ForeignKey [mc_name m] target [col] act)
       (mc_foreign_key m)) ms @ table_args"

definition declared_indexes :: "string \<Rightarrow> mapped list \<Rightarrow> (string \<times> string list \<times> bool) list" where
  "declared_indexes tab ms =
     map (\<lambda>m. (''ix_'' @ tab @ ''_'' @ mc_name m, [mc_name m], False)) (filter mc_index ms)"

definition declared_models :: "(string \<times> constraint list \<times> mapped list) list" where
  "declared_models =
     [(''models'', [], RegisteredModel),
      (''model_versions'', [UniqueKey [''model_name'', ''version'']], ModelVersion)]"

text \<open>A table is as declared: the same columns in order, the same constraints and indexes.\<close>

definition as_declared :: "catalog \<Rightarrow> string \<times> constraint list \<times> mapped list \<Rightarrow> bool" where
  "as_declared cat d =
     (case d of (tab, table_args, ms) \<Rightarrow>
        (case map_of cat tab of
           None \<Rightarrow> False
         | Some t \<Rightarrow>
             map Some (ta_columns t) =
               map (declared_column (map (\<lambda>(n, _, ms). (n, ms)) declared_models)) ms \<and>
             set (ta_constraints t) = set (declared_constraints table_args ms) \<and>
             ta_indexes t = declared_indexes tab ms))"

section \<open>The engine\<close>

datatype engine_option = PrePing bool | NullPool | PoolSize int | MaxOverflow int | PoolTimeout int
  | CommandTimeout int

definition create_database_engine :: "settings \<Rightarrow> string \<times> engine_option list" where
  "create_database_engine st =
     (database_url st,
      PrePing True #
      (if strip_prefix ''sqlite+'' (database_url st) \<noteq> None then [NullPool]
       else [PoolSize (database_pool_size st), MaxOverflow (database_max_overflow st),
             PoolTimeout (database_command_timeout_seconds st),
             CommandTimeout (database_command_timeout_seconds st)]))"

section \<open>Properties\<close>

text \<open>The texts a column of PostgreSQL holds: within its width, and without NUL.\<close>

fun fits :: "sql_type \<Rightarrow> string \<Rightarrow> bool" where
  "fits (SqlString n) s = (length s \<le> n \<and> no_nul s)"
| "fits SqlText s = no_nul s"
| "fits _ s = False"

definition column_type :: "catalog \<Rightarrow> string \<Rightarrow> string \<Rightarrow> sql_type option" where
  "column_type cat tab col =
     (case map_of cat tab of
        None \<Rightarrow> None
      | Some t \<Rightarrow> map_option co_type (find (\<lambda>c. co_name c = col) (ta_columns t)))"

definition migrated :: catalog where
  "migrated = (case upgrade [] of Inr cat \<Rightarrow> cat | Inl _ \<Rightarrow> [])"

lemma upgrade_empty: "upgrade [] = Inr migrated"
proof -
  have "\<not> (case upgrade [] of Inl _ \<Rightarrow> True | Inr _ \<Rightarrow> False)" by code_simp
  then show ?thesis by (simp add: migrated_def split: sum.splits)
qed

text \<open>
  (C38) The migration and the declared models agree, and the accepted names fit. Upgrading an empty
  database succeeds and gives exactly the two declared tables, column by column with types,
  nullability, defaults, keys and the index; downgrading gives the empty database back and upgrading
  twice is refused. In the migrated tables every name, version and digest that the request schemas
  accept fits the column it is stored in. A runtime image and a description that they accept fit
  exactly when they hold no NUL, which the schemas do not exclude.
\<close>

theorem migration_matches_models:
  "\<exists>cat. upgrade [] = Inr cat \<and> map fst cat = map fst declared_models \<and>
     (\<forall>d \<in> set declared_models. as_declared cat d) \<and>
     downgrade cat = Inr [] \<and> upgrade cat = Inl DuplicateTable \<and>
     (\<forall>s n. ResourceName s = Inr n \<longrightarrow>
        (\<exists>ty. column_type cat ''models'' ''name'' = Some ty \<and> fits ty n) \<and>
        (\<exists>ty. column_type cat ''model_versions'' ''model_name'' = Some ty \<and> fits ty n)) \<and>
     (\<forall>s v. VersionName s = Inr v \<longrightarrow>
        (\<exists>ty. column_type cat ''model_versions'' ''version'' = Some ty \<and> fits ty v)) \<and>
     (\<forall>b c. VersionCreate b = Inr c \<longrightarrow>
        (\<exists>ty. column_type cat ''model_versions'' ''runtime_image'' = Some ty \<and>
           (fits ty (vc_runtime_image c) \<longleftrightarrow> no_nul (vc_runtime_image c))) \<and>
        (\<exists>ty. column_type cat ''model_versions'' ''artifact_digest'' = Some ty \<and>
           (\<forall>d. vc_artifact_digest c = Some d \<longrightarrow> fits ty d))) \<and>
     (\<exists>ty. column_type cat ''models'' ''description'' = Some ty \<and> (\<forall>d. fits ty d \<longleftrightarrow> no_nul d))"
proof -
  have c: "map fst migrated = map fst declared_models" "list_all (as_declared migrated) declared_models"
    "downgrade migrated = Inr []" "upgrade migrated = Inl DuplicateTable"
    "column_type migrated ''models'' ''name'' = Some (SqlString 63)"
    "column_type migrated ''models'' ''description'' = Some SqlText"
    "column_type migrated ''model_versions'' ''model_name'' = Some (SqlString 63)"
    "column_type migrated ''model_versions'' ''version'' = Some (SqlString 63)"
    "column_type migrated ''model_versions'' ''runtime_image'' = Some (SqlString 512)"
    "column_type migrated ''model_versions'' ''artifact_digest'' = Some (SqlString 128)"
    by code_simp+
  have "length (vc_runtime_image b) \<le> 512" "vc_artifact_digest b = Some d \<Longrightarrow> length d \<le> 128 \<and> no_nul d"
    if "VersionCreate v = Inr b" for v b d
    using VersionCreate_ok [OF that] digest_text [of d] by (simp_all add: image_ok_def)
  then show ?thesis
    using c upgrade_empty ResourceName_text VersionName_text
    by (intro exI [of _ migrated]) (auto simp: list_all_iff)
qed

theorem migration_matches_models_witness:
  "\<exists>cat ty. upgrade [] = Inr cat \<and> downgrade cat = Inr [] \<and>
     column_type cat ''models'' ''name'' = Some ty \<and> fits ty ''sentiment''"
proof -
  have "ResourceName '' sentiment '' = Inr ''sentiment''" by code_simp
  then show ?thesis using migration_matches_models by blast
qed

end
