(* ===== verification/Sessions.thy ===== *)
theory Sessions
  imports Registry Database
begin

text \<open>
  The database sessions of \<open>app/database.py\<close> and the repository and its routes written over them, call
  by call: \<open>get\<close>, \<open>scalar\<close>, \<open>add\<close>, assignment to an attribute, \<open>commit\<close>, \<open>refresh\<close>, \<open>rollback\<close>. A session
  keeps the changes that are not written yet, the rows it has loaded, and whether its transaction has
  failed; SQLAlchemy itself is a parameter with the laws of the locale \<open>orm_library\<close>. The property says
  that the routes over a session do what \<open>Registry\<close> says over the database.
\<close>

section \<open>Sessions\<close>

text \<open>An exception inside a session: an integrity error, which the repository catches, or another one.\<close>

datatype session_exc = Integrity | Raised exc

type_synonym ('u, 's, 'a) in_session = "'u \<times> 's \<Rightarrow> (session_exc + 'a) \<times> 'u \<times> 's"

type_synonym 's one_await = "('s \<Rightarrow> 's) \<times> link"

record session_factory =
  sf_engine :: "string \<times> engine_option list"
  sf_expire_on_commit :: bool

definition create_session_factory :: "string \<times> engine_option list \<Rightarrow> session_factory" where
  "create_session_factory engine = \<lparr> sf_engine = engine, sf_expire_on_commit = False \<rparr>"

text \<open>The calls the program makes on a session.\<close>

record ('u, 's) orm =
  or_session :: "session_factory \<Rightarrow> 'u"
  or_get :: "string \<Rightarrow> 's one_await \<Rightarrow> ('u, 's, model_row option) in_session"
  or_scalar :: "string \<Rightarrow> string \<Rightarrow> 's one_await \<Rightarrow> ('u, 's, version_row option) in_session"
  or_models :: "int \<Rightarrow> int \<Rightarrow> 's one_await \<Rightarrow> ('u, 's, model_row list) in_session"
  or_versions :: "string \<Rightarrow> int \<Rightarrow> int \<Rightarrow> 's one_await \<Rightarrow> ('u, 's, version_row list) in_session"
  or_add_model :: "string \<Rightarrow> string option \<Rightarrow> 'u \<Rightarrow> 'u"
  or_add_version :: "string \<Rightarrow> string \<Rightarrow> string \<Rightarrow> string option \<Rightarrow> metadata \<Rightarrow> 'u \<Rightarrow> 'u"
  or_set_description :: "string \<Rightarrow> string option \<Rightarrow> 'u \<Rightarrow> 'u"
  or_commit :: "'s one_await \<Rightarrow> ('u, 's, unit) in_session"
  or_refresh_model :: "string \<Rightarrow> 's one_await \<Rightarrow> ('u, 's, model_row) in_session"
  or_refresh_version :: "string \<Rightarrow> string \<Rightarrow> 's one_await \<Rightarrow> ('u, 's, version_row) in_session"
  or_rollback :: "'u \<Rightarrow> 'u"
  or_close :: "'u \<Rightarrow> 'u"

text \<open>Sequencing, and the handler of \<open>except IntegrityError\<close>.\<close>

definition sret :: "'a \<Rightarrow> ('u, 's, 'a) in_session" where
  "sret x y = (Inr x, y)"

definition sraise :: "session_exc \<Rightarrow> ('u, 's, 'a) in_session" where
  "sraise e y = (Inl e, y)"

definition sbind :: "('u, 's, 'a) in_session \<Rightarrow> ('a \<Rightarrow> ('u, 's, 'b) in_session) \<Rightarrow> ('u, 's, 'b) in_session" where
  "sbind m f y = (case m y of (Inl e, z) \<Rightarrow> (Inl e, z) | (Inr x, z) \<Rightarrow> f x z)"

definition on_integrity :: "('u, 's, 'a) in_session \<Rightarrow> ('u, 's, 'a) in_session \<Rightarrow> ('u, 's, 'a) in_session" where
  "on_integrity m h y = (case m y of (Inl Integrity, z) \<Rightarrow> h z | r \<Rightarrow> r)"

definition locally :: "('u \<Rightarrow> 'u) \<Rightarrow> ('u, 's, unit) in_session" where
  "locally g y = (Inr (), g (fst y), snd y)"

text \<open>The dependency \<open>get_session\<close>: the session of a request is closed however the request ends.\<close>

definition get_session :: "('u, 's) orm \<Rightarrow> session_factory \<Rightarrow> ('u, 's, 'a) in_session \<Rightarrow> 's \<Rightarrow> (session_exc + 'a) \<times> 'u \<times> 's" where
  "get_session M f body s = (case body (or_session M f, s) of (r, u, s) \<Rightarrow> (r, or_close M u, s))"

section \<open>The repository over a session\<close>

definition session_update ::
  "('u, 's) orm \<Rightarrow> 's awaits \<Rightarrow> string \<Rightarrow> model_row \<Rightarrow> string option \<Rightarrow> ('u, 's, model_row write_result) in_session" where
  "session_update M aw name model description =
     (if m_description model \<noteq> description then
        sbind (locally (or_set_description M name description)) (\<lambda>_.
        sbind (or_commit M (aw 4)) (\<lambda>_.
        sbind (or_refresh_model M name (aw 5)) (\<lambda>row.
        sret \<lparr> wr_value = row, wr_created = False \<rparr>)))
      else sret \<lparr> wr_value = model, wr_created = False \<rparr>)"

definition session_put_model ::
  "('u, 's) orm \<Rightarrow> 's awaits \<Rightarrow> string \<Rightarrow> string option \<Rightarrow> ('u, 's, model_row write_result) in_session" where
  "session_put_model M aw name description =
     sbind (or_get M name (aw 0)) (\<lambda>model.
     case model of
       Some row \<Rightarrow> session_update M aw name row description
     | None \<Rightarrow>
         sbind (locally (or_add_model M name description)) (\<lambda>_.
         on_integrity
           (sbind (or_commit M (aw 1)) (\<lambda>_.
            sbind (or_refresh_model M name (aw 2)) (\<lambda>row.
            sret \<lparr> wr_value = row, wr_created = True \<rparr>)))
           (sbind (locally (or_rollback M)) (\<lambda>_.
            sbind (or_get M name (aw 3)) (\<lambda>model.
            case model of
              None \<Rightarrow> sraise Integrity
            | Some row \<Rightarrow> session_update M aw name row description)))))"

definition session_put_version ::
  "('u, 's) orm \<Rightarrow> 's awaits \<Rightarrow> string \<Rightarrow> string \<Rightarrow> string \<Rightarrow> string option \<Rightarrow> metadata
     \<Rightarrow> ('u, 's, version_row write_result) in_session" where
  "session_put_version M aw model_name version runtime_image artifact_digest metadata =
     sbind (or_scalar M model_name version (aw 1)) (\<lambda>existing.
     case existing of
       Some row \<Rightarrow> sret \<lparr> wr_value = row, wr_created = False \<rparr>
     | None \<Rightarrow>
         sbind (locally (or_add_version M model_name version runtime_image artifact_digest metadata)) (\<lambda>_.
         on_integrity
           (sbind (or_commit M (aw 2)) (\<lambda>_.
            sbind (or_refresh_version M model_name version (aw 3)) (\<lambda>row.
            sret \<lparr> wr_value = row, wr_created = True \<rparr>)))
           (sbind (locally (or_rollback M)) (\<lambda>_.
            sbind (or_scalar M model_name version (aw 4)) (\<lambda>existing.
            case existing of
              None \<Rightarrow> sraise Integrity
            | Some row \<Rightarrow> sret \<lparr> wr_value = row, wr_created = False \<rparr>)))))"

section \<open>The routes over a session\<close>

definition valid :: "exc + 'a \<Rightarrow> ('u, 's, 'a) in_session" where
  "valid r = (case r of Inl e \<Rightarrow> sraise (Raised e) | Inr x \<Rightarrow> sret x)"

definition session_put_model_route ::
  "('u, 's) orm \<Rightarrow> 's awaits \<Rightarrow> string \<Rightarrow> json \<Rightarrow> ('u, 's, int \<times> model_read) in_session" where
  "session_put_model_route M aw model_name body =
     sbind (valid (checked (both (path_arg ''model_name'' ResourceName model_name)
                                 (under ''body'' (ModelUpsert body))))) (\<lambda>(name, b).
     sbind (session_put_model M aw name (mu_description b)) (\<lambda>result.
     sret (if wr_created result then 201 else 200, ModelRead (wr_value result))))"

definition session_list_models_route ::
  "pydantic \<Rightarrow> ('u, 's) orm \<Rightarrow> 's awaits \<Rightarrow> string option \<Rightarrow> string option
     \<Rightarrow> ('u, 's, model_read page) in_session" where
  "session_list_models_route P M aw limit offset =
     sbind (valid (checked (both (query_int P ''limit'' 50 1 100 limit) (page_offset P offset)))) (\<lambda>(l, k).
     sbind (or_models M l k (aw 0)) (\<lambda>rs.
     sret \<lparr> pg_items = map ModelRead rs, pg_limit = l, pg_offset = k \<rparr>))"

definition session_get_model_route ::
  "('u, 's) orm \<Rightarrow> 's awaits \<Rightarrow> string \<Rightarrow> ('u, 's, model_read) in_session" where
  "session_get_model_route M aw model_name =
     sbind (valid (checked (path_arg ''model_name'' ResourceName model_name))) (\<lambda>name.
     sbind (or_get M name (aw 0)) (\<lambda>r.
     case r of None \<Rightarrow> sraise (Raised (model_not_found name)) | Some row \<Rightarrow> sret (ModelRead row)))"

definition session_put_version_route ::
  "(json \<Rightarrow> json \<Rightarrow> bool) \<Rightarrow> ('u, 's) orm \<Rightarrow> 's awaits \<Rightarrow> string \<Rightarrow> string \<Rightarrow> json
     \<Rightarrow> ('u, 's, int \<times> version_read) in_session" where
  "session_put_version_route feq M aw model_name version body =
     sbind (valid (checked (both (path_arg ''model_name'' ResourceName model_name)
                           (both (path_arg ''version'' VersionName version)
                                 (under ''body'' (VersionCreate body)))))) (\<lambda>(name, ver, b).
     sbind (or_get M name (aw 0)) (\<lambda>m.
     if m = None then sraise (Raised (model_not_found name))
     else
       sbind (session_put_version M aw name ver (vc_runtime_image b) (vc_artifact_digest b) (vc_metadata b)) (\<lambda>result.
       if \<not> wr_created result \<and>
          \<not> version_matches feq (wr_value result)
              (vc_runtime_image b) (vc_artifact_digest b) (vc_metadata b)
       then sraise (Raised (version_conflict name ver))
       else sret (if wr_created result then 201 else 200, VersionRead (wr_value result)))))"

definition session_list_versions_route ::
  "pydantic \<Rightarrow> ('u, 's) orm \<Rightarrow> 's awaits \<Rightarrow> string \<Rightarrow> string option \<Rightarrow> string option
     \<Rightarrow> ('u, 's, version_read page) in_session" where
  "session_list_versions_route P M aw model_name limit offset =
     sbind (valid (checked (both (path_arg ''model_name'' ResourceName model_name)
                           (both (query_int P ''limit'' 50 1 100 limit) (page_offset P offset))))) (\<lambda>(name, l, k).
     sbind (or_get M name (aw 0)) (\<lambda>m.
     if m = None then sraise (Raised (model_not_found name))
     else
       sbind (or_versions M name l k (aw 1)) (\<lambda>rs.
       sret \<lparr> pg_items = map VersionRead rs, pg_limit = l, pg_offset = k \<rparr>)))"

definition session_get_version_route ::
  "('u, 's) orm \<Rightarrow> 's awaits \<Rightarrow> string \<Rightarrow> string \<Rightarrow> ('u, 's, version_read) in_session" where
  "session_get_version_route M aw model_name version =
     sbind (valid (checked (both (path_arg ''model_name'' ResourceName model_name)
                                 (path_arg ''version'' VersionName version)))) (\<lambda>(name, ver).
     sbind (or_scalar M name ver (aw 0)) (\<lambda>r.
     case r of None \<Rightarrow> sraise (Raised (version_not_found name ver)) | Some row \<Rightarrow> sret (VersionRead row)))"

section \<open>What a session is\<close>

text \<open>
  The documented unit of work: the changes not yet written, the rows loaded so far, by identity, and
  whether the transaction has failed, so that every call but a rollback raises.
\<close>

datatype change =
    NewModel string "string option"
  | NewVersion string string string "string option" metadata
  | NewDescription string "string option"

record uow =
  uw_broken :: bool
  uw_expires :: bool
  uw_changes :: "change list"
  uw_models :: models
  uw_versions :: versions

definition fresh_uow :: "bool \<Rightarrow> uow" where
  "fresh_uow expires = \<lparr> uw_broken = False, uw_expires = expires, uw_changes = [], uw_models = Map.empty,
     uw_versions = Map.empty \<rparr>"

text \<open>A rollback forgets the changes and expires what was loaded; so does closing.\<close>

definition uow_clear :: "uow \<Rightarrow> uow" where
  "uow_clear w = fresh_uow (uw_expires w)"

definition uow_add :: "change \<Rightarrow> uow \<Rightarrow> uow" where
  "uow_add c w = w\<lparr> uw_changes := uw_changes w @ [c] \<rparr>"

definition broken :: "uow \<Rightarrow> uow" where
  "broken w = w\<lparr> uw_broken := True \<rparr>"

text \<open>One statement. A lost round trip fails the transaction.\<close>

definition uow_read ::
  "'s one_await \<Rightarrow> ('s \<Rightarrow> 'x) \<Rightarrow> ('x \<Rightarrow> uow \<Rightarrow> (session_exc + 'a) \<times> uow) \<Rightarrow> (uow, 's, 'a) in_session" where
  "uow_read a q g y =
     (if uw_broken (fst y) then (Inl (Raised DatabaseExc), y)
      else
        (case await a (reading q) (snd y) of
           (None, s) \<Rightarrow> (Inl (Raised DatabaseExc), broken (fst y), s)
         | (Some x, s) \<Rightarrow> (case g x (fst y) of (r, w) \<Rightarrow> (r, w, s))))"

text \<open>
  A query writes pending changes first. What writing them inside the transaction does is the
  parameter \<open>flush\<close>: the program never queries with changes pending.
\<close>

definition uow_query ::
  "(uow, 's, unit) in_session \<Rightarrow> 's one_await \<Rightarrow> ('s \<Rightarrow> 'x) \<Rightarrow> ('x \<Rightarrow> uow \<Rightarrow> (session_exc + 'a) \<times> uow)
     \<Rightarrow> (uow, 's, 'a) in_session" where
  "uow_query flush a q g =
     sbind (\<lambda>y. if uw_changes (fst y) = [] then (Inr (), y) else flush y) (\<lambda>_. uow_read a q g)"

text \<open>A row that is loaded already is the same object, with the attributes it has.\<close>

definition keep_model :: "model_row \<Rightarrow> uow \<Rightarrow> model_row" where
  "keep_model r w = (case uw_models w (m_name r) of Some r' \<Rightarrow> r' | None \<Rightarrow> r)"

definition keep_version :: "version_row \<Rightarrow> uow \<Rightarrow> version_row" where
  "keep_version r w = (case uw_versions w (v_model_name r, v_version r) of Some r' \<Rightarrow> r' | None \<Rightarrow> r)"

definition uow_get :: "'s sql \<Rightarrow> string \<Rightarrow> 's one_await \<Rightarrow> (uow, 's, model_row option) in_session" where
  "uow_get D n a y =
     (case uw_models (fst y) n of
        Some r \<Rightarrow> if uw_broken (fst y) then (Inl (Raised DatabaseExc), y) else (Inr (Some r), y)
      | None \<Rightarrow> uow_read a (sel_model D n) (\<lambda>r w. (Inr r, w\<lparr> uw_models := (uw_models w)(n := r) \<rparr>)) y)"

definition uow_scalar ::
  "'s sql \<Rightarrow> (uow, 's, unit) in_session \<Rightarrow> string \<Rightarrow> string \<Rightarrow> 's one_await \<Rightarrow> (uow, 's, version_row option) in_session" where
  "uow_scalar D flush n v a =
     uow_query flush a (sel_version D n v) (\<lambda>r w.
       case r of
         None \<Rightarrow> (Inr None, w)
       | Some row \<Rightarrow>
           (Inr (Some (keep_version row w)), w\<lparr> uw_versions := (uw_versions w)((n, v) \<mapsto> keep_version row w) \<rparr>))"

definition uow_models ::
  "'s sql \<Rightarrow> (uow, 's, unit) in_session \<Rightarrow> int \<Rightarrow> int \<Rightarrow> 's one_await \<Rightarrow> (uow, 's, model_row list) in_session" where
  "uow_models D flush l k a =
     uow_query flush a (page_models D l k) (\<lambda>rs w.
       (Inr (map (\<lambda>r. keep_model r w) rs),
        w\<lparr> uw_models := fold (\<lambda>r m. m(m_name r \<mapsto> keep_model r w)) rs (uw_models w) \<rparr>))"

definition uow_versions ::
  "'s sql \<Rightarrow> (uow, 's, unit) in_session \<Rightarrow> string \<Rightarrow> int \<Rightarrow> int \<Rightarrow> 's one_await
     \<Rightarrow> (uow, 's, version_row list) in_session" where
  "uow_versions D flush n l k a =
     uow_query flush a (page_versions D n l k) (\<lambda>rs w.
       (Inr (map (\<lambda>r. keep_version r w) rs),
        w\<lparr> uw_versions := fold (\<lambda>r m. m((v_model_name r, v_version r) \<mapsto> keep_version r w)) rs (uw_versions w) \<rparr>))"

text \<open>A refresh reads the row again and replaces the attributes; a row that vanished is an error.\<close>

definition uow_refresh_model ::
  "'s sql \<Rightarrow> (uow, 's, unit) in_session \<Rightarrow> string \<Rightarrow> 's one_await \<Rightarrow> (uow, 's, model_row) in_session" where
  "uow_refresh_model D flush n a =
     uow_query flush a (sel_model D n) (\<lambda>r w.
       case r of
         None \<Rightarrow> (Inl (Raised DatabaseExc), w)
       | Some row \<Rightarrow> (Inr row, w\<lparr> uw_models := (uw_models w)(n \<mapsto> row) \<rparr>))"

definition uow_refresh_version ::
  "'s sql \<Rightarrow> (uow, 's, unit) in_session \<Rightarrow> string \<Rightarrow> string \<Rightarrow> 's one_await \<Rightarrow> (uow, 's, version_row) in_session" where
  "uow_refresh_version D flush n v a =
     uow_query flush a (sel_version D n v) (\<lambda>r w.
       case r of
         None \<Rightarrow> (Inl (Raised DatabaseExc), w)
       | Some row \<Rightarrow> (Inr row, w\<lparr> uw_versions := (uw_versions w)((n, v) \<mapsto> row) \<rparr>))"

text \<open>
  A commit writes the one pending change and ends the transaction; an error leaves it failed. Several
  pending changes are written by \<open>flush\<close>.
\<close>

fun write_change :: "'s sql \<Rightarrow> change \<Rightarrow> 's \<Rightarrow> commit \<times> 's" where
  "write_change D (NewModel n d) = ins_model D n d"
| "write_change D (NewVersion n v i g m) = ins_version D n v i g m"
| "write_change D (NewDescription n d) = upd_model D n d"

definition uow_committed :: "uow \<Rightarrow> uow" where
  "uow_committed w =
     (if uw_expires w then w\<lparr> uw_changes := [], uw_models := Map.empty, uw_versions := Map.empty \<rparr>
      else w\<lparr> uw_changes := [] \<rparr>)"

definition uow_commit :: "'s sql \<Rightarrow> (uow, 's, unit) in_session \<Rightarrow> 's one_await \<Rightarrow> (uow, 's, unit) in_session" where
  "uow_commit D flush a y =
     (if uw_broken (fst y) then (Inl (Raised DatabaseExc), y)
      else
        (case uw_changes (fst y) of
           [] \<Rightarrow> (Inr (), uow_committed (fst y), snd y)
         | [c] \<Rightarrow>
             (case await a (write_change D c) (snd y) of
                (Some Committed, s) \<Rightarrow> (Inr (), uow_committed (fst y), s)
              | (Some IntegrityError, s) \<Rightarrow> (Inl Integrity, broken (fst y), s)
              | (_, s) \<Rightarrow> (Inl (Raised DatabaseExc), broken (fst y), s))
         | _ \<Rightarrow> flush y))"

definition uow_orm :: "'s sql \<Rightarrow> (uow, 's, unit) in_session \<Rightarrow> (uow, 's) orm" where
  "uow_orm D flush =
     \<lparr> or_session = (\<lambda>f. fresh_uow (sf_expire_on_commit f)), or_get = uow_get D, or_scalar = uow_scalar D flush,
       or_models = uow_models D flush, or_versions = uow_versions D flush,
       or_add_model = (\<lambda>n d. uow_add (NewModel n d)),
       or_add_version = (\<lambda>n v i g m. uow_add (NewVersion n v i g m)),
       or_set_description = (\<lambda>n d. uow_add (NewDescription n d)), or_commit = uow_commit D flush,
       or_refresh_model = uow_refresh_model D flush, or_refresh_version = uow_refresh_version D flush,
       or_rollback = uow_clear, or_close = uow_clear \<rparr>"

text \<open>
  The library: every call acts on the unit of work of its session as documented. \<open>uw\<close> reads it off.
\<close>

definition simulates :: "('u \<Rightarrow> uow) \<Rightarrow> ('u, 's, 'a) in_session \<Rightarrow> (uow, 's, 'a) in_session \<Rightarrow> bool" where
  "simulates uw m m' \<longleftrightarrow> (\<forall>u s. map_prod id (map_prod uw id) (m (u, s)) = m' (uw u, s))"

locale orm_library =
  fixes M :: "('u, 's) orm" and D :: "'s sql" and flush :: "(uow, 's, unit) in_session" and uw :: "'u \<Rightarrow> uow"
  assumes session_law: "uw (or_session M f) = fresh_uow (sf_expire_on_commit f)"
    and get_law: "simulates uw (or_get M n a) (uow_get D n a)"
    and scalar_law: "simulates uw (or_scalar M n v a) (uow_scalar D flush n v a)"
    and models_law: "simulates uw (or_models M l k a) (uow_models D flush l k a)"
    and versions_law: "simulates uw (or_versions M n l k a) (uow_versions D flush n l k a)"
    and add_model_law: "uw (or_add_model M n d u) = uow_add (NewModel n d) (uw u)"
    and add_version_law: "uw (or_add_version M n v i g m u) = uow_add (NewVersion n v i g m) (uw u)"
    and set_law: "uw (or_set_description M n d u) = uow_add (NewDescription n d) (uw u)"
    and commit_law: "simulates uw (or_commit M a) (uow_commit D flush a)"
    and refresh_model_law: "simulates uw (or_refresh_model M n a) (uow_refresh_model D flush n a)"
    and refresh_version_law: "simulates uw (or_refresh_version M n v a) (uow_refresh_version D flush n v a)"
    and rollback_law: "uw (or_rollback M u) = uow_clear (uw u)"
    and close_law: "uw (or_close M u) = uow_clear (uw u)"

interpretation units: orm_library "uow_orm D flush" D flush id
  by unfold_locales (simp_all add: uow_orm_def simulates_def prod.map_id0)

lemma simulates_bind:
  assumes "simulates uw m m'" "\<And>x. simulates uw (f x) (f' x)"
  shows "simulates uw (sbind m f) (sbind m' f')"
  unfolding simulates_def
proof (intro allI)
  fix u s
  obtain r u' s' where m: "m (u, s) = (r, u', s')" by (metis prod.collapse)
  then have "m' (uw u, s) = (r, uw u', s')" using assms(1) by (metis simulates_def map_prod_simp id_apply)
  then show "map_prod id (map_prod uw id) (sbind m f (u, s)) = sbind m' f' (uw u, s)"
    using m assms(2) by (cases r) (simp_all add: sbind_def simulates_def)
qed

lemma simulates_integrity:
  assumes "simulates uw m m'" "simulates uw h h'"
  shows "simulates uw (on_integrity m h) (on_integrity m' h')"
  unfolding simulates_def
proof (intro allI)
  fix u s
  obtain r u' s' where m: "m (u, s) = (r, u', s')" by (metis prod.collapse)
  then have "m' (uw u, s) = (r, uw u', s')" using assms(1) by (metis simulates_def map_prod_simp id_apply)
  then show "map_prod id (map_prod uw id) (on_integrity m h (u, s)) = on_integrity m' h' (uw u, s)"
    using m assms(2) by (auto simp: on_integrity_def simulates_def split: sum.split session_exc.split)
qed

lemma simulates_basic:
  "simulates uw (sret x) (sret x)" "simulates uw (sraise e) (sraise e)" "simulates uw (valid r) (valid r)"
  "(\<And>u. uw (g u) = g' (uw u)) \<Longrightarrow> simulates uw (locally g) (locally g')"
  by (auto simp: simulates_def sret_def sraise_def valid_def locally_def split: sum.split)

lemma simulates_if:
  "(b \<Longrightarrow> simulates uw m m') \<Longrightarrow> (\<not> b \<Longrightarrow> simulates uw n n') \<Longrightarrow>
     simulates uw (if b then m else n) (if b then m' else n')"
  by simp

lemma simulates_option:
  "simulates uw m m' \<Longrightarrow> (\<And>x. simulates uw (f x) (f' x)) \<Longrightarrow>
     simulates uw (case r of None \<Rightarrow> m | Some x \<Rightarrow> f x) (case r of None \<Rightarrow> m' | Some x \<Rightarrow> f' x)"
  by (cases r) simp_all

lemma simulates_pair:
  "(\<And>x y. simulates uw (f x y) (f' x y)) \<Longrightarrow> simulates uw (case p of (x, y) \<Rightarrow> f x y) (case p of (x, y) \<Rightarrow> f' x y)"
  by (cases p) simp

lemmas simulates_rules = simulates_bind simulates_integrity simulates_basic simulates_if simulates_option
  simulates_pair

lemmas session_programs = session_update_def session_put_model_def session_put_version_def
  session_put_model_route_def session_list_models_route_def session_get_model_route_def
  session_put_version_route_def session_list_versions_route_def session_get_version_route_def

context orm_library
begin

lemma calls:
  "simulates uw (or_get M n a) (or_get (uow_orm D flush) n a)"
  "simulates uw (or_scalar M n v a) (or_scalar (uow_orm D flush) n v a)"
  "simulates uw (or_models M l k a) (or_models (uow_orm D flush) l k a)"
  "simulates uw (or_versions M n l k a) (or_versions (uow_orm D flush) n l k a)"
  "simulates uw (or_commit M a) (or_commit (uow_orm D flush) a)"
  "simulates uw (or_refresh_model M n a) (or_refresh_model (uow_orm D flush) n a)"
  "simulates uw (or_refresh_version M n v a) (or_refresh_version (uow_orm D flush) n v a)"
  by (simp_all add: uow_orm_def get_law scalar_law models_law versions_law commit_law refresh_model_law
      refresh_version_law)

lemma locals:
  "uw (or_add_model M n d u) = or_add_model (uow_orm D flush) n d (uw u)"
  "uw (or_add_version M n v i g m u) = or_add_version (uow_orm D flush) n v i g m (uw u)"
  "uw (or_set_description M n d u) = or_set_description (uow_orm D flush) n d (uw u)"
  "uw (or_rollback M u) = or_rollback (uow_orm D flush) (uw u)"
  by (simp_all add: uow_orm_def add_model_law add_version_law set_law rollback_law)

lemma programs:
  "simulates uw (session_put_model_route M aw n b) (session_put_model_route (uow_orm D flush) aw n b)"
  "simulates uw (session_list_models_route P M aw x y) (session_list_models_route P (uow_orm D flush) aw x y)"
  "simulates uw (session_get_model_route M aw n) (session_get_model_route (uow_orm D flush) aw n)"
  "simulates uw (session_put_version_route feq M aw n v b) (session_put_version_route feq (uow_orm D flush) aw n v b)"
  "simulates uw (session_list_versions_route P M aw n x y) (session_list_versions_route P (uow_orm D flush) aw n x y)"
  "simulates uw (session_get_version_route M aw n v) (session_get_version_route (uow_orm D flush) aw n v)"
  unfolding session_programs by (intro simulates_rules calls locals)+

end

section \<open>Sessions and the database\<close>

text \<open>What a request ends with: an integrity error that is not caught is a database error.\<close>

definition to_answer :: "(session_exc + 'a) \<times> 'u \<times> 's \<Rightarrow> (exc + 'a) \<times> 's" where
  "to_answer r = (case r of (Inr x, u, s) \<Rightarrow> (Inr x, s) | (Inl Integrity, u, s) \<Rightarrow> (Inl DatabaseExc, s)
     | (Inl (Raised e), u, s) \<Rightarrow> (Inl e, s))"

lemma to_answer_simps [simp]:
  "to_answer (Inr x, u, s) = (Inr x, s)" "to_answer (Inl Integrity, u, s) = (Inl DatabaseExc, s)"
  "to_answer (Inl (Raised e), u, s) = (Inl e, s)" "to_answer (sret x (u, s)) = (Inr x, s)"
  "to_answer (sraise (Raised e) (u, s)) = (Inl e, s)"
  by (simp_all add: to_answer_def sret_def sraise_def)

lemma to_answer_bind:
  assumes "to_answer (m (u, s)) = r"
    and "\<And>x u' s'. m (u, s) = (Inr x, u', s') \<Longrightarrow> to_answer (f x (u', s')) = g x s'"
  shows "to_answer (sbind m f (u, s)) = and_then r g"
proof -
  obtain q u' s' where m: "m (u, s) = (q, u', s')" by (metis prod.collapse)
  show ?thesis
    using assms m by (cases q rule: sum.exhaust) (auto simp: sbind_def and_then_def to_answer_def split: session_exc.split)
qed

lemma to_answer_valid:
  assumes "\<And>x. to_answer (f x (u, s)) = g x s"
  shows "to_answer (sbind (valid r) f (u, s)) = and_then (r, s) g"
  by (rule to_answer_bind) (auto simp: valid_def sret_def sraise_def assms split: sum.splits)

text \<open>A session that can be used and has nothing to write.\<close>

definition idle :: "uow \<Rightarrow> bool" where
  "idle w \<longleftrightarrow> \<not> uw_broken w \<and> uw_changes w = []"

lemma idle_fresh [simp]: "idle (fresh_uow e)" "idle (uow_clear w)"
  "uw_models (fresh_uow e) = Map.empty" "uw_versions (fresh_uow e) = Map.empty"
  "uw_models (uow_clear w) = Map.empty" "uw_versions (uow_clear w) = Map.empty"
  by (simp_all add: idle_def fresh_uow_def uow_clear_def)

lemma query_idle:
  assumes "idle w"
  shows "uow_query flush a q g (w, s) =
    (case await a (reading q) s of
       (None, s) \<Rightarrow> (Inl (Raised DatabaseExc), broken w, s)
     | (Some x, s) \<Rightarrow> (case g x w of (r, w) \<Rightarrow> (r, w, s)))"
  using assms by (simp add: uow_query_def sbind_def uow_read_def idle_def cong: prod.case_cong option.case_cong)

lemma get_idle:
  assumes "idle w" "uw_models w n = None"
  shows "to_answer (or_get (uow_orm D flush) n a (w, s)) = get_model D a n s"
    and "or_get (uow_orm D flush) n a (w, s) = (Inr r, w', s') \<Longrightarrow> idle w' \<and> uw_versions w' = uw_versions w"
  using assms by (auto simp: uow_orm_def uow_get_def uow_read_def idle_def get_model_def split: option.splits prod.splits)

lemma scalar_idle:
  assumes "idle w" "uw_versions w = Map.empty"
  shows "to_answer (or_scalar (uow_orm D flush) n v a (w, s)) = find_version D a n v s"
    and "or_scalar (uow_orm D flush) n v a (w, s) = (Inr r, w', s') \<Longrightarrow> idle w'"
  using assms
  by (auto simp: query_idle [OF assms(1)] uow_orm_def uow_scalar_def idle_def find_version_def keep_version_def
      split: option.splits prod.splits)

lemma pages_idle:
  assumes "idle w"
  shows "uw_models w = Map.empty \<Longrightarrow> to_answer (or_models (uow_orm D flush) l k a (w, s)) = list_models D a l k s"
    and "uw_versions w = Map.empty \<Longrightarrow> to_answer (or_versions (uow_orm D flush) n l k a (w, s)) = list_versions D a n l k s"
  using assms
  by (auto simp: query_idle [OF assms] uow_orm_def uow_models_def uow_versions_def list_models_def list_versions_def
      keep_model_def keep_version_def split: option.splits prod.splits)

text \<open>A change is added and committed, and its row is read again.\<close>

lemma commit_change:
  assumes "idle w"
  shows "uow_commit D flush a (uow_add c w, s) =
    (case await a (write_change D c) s of
       (Some Committed, s) \<Rightarrow> (Inr (), uow_committed (uow_add c w), s)
     | (Some IntegrityError, s) \<Rightarrow> (Inl Integrity, broken (uow_add c w), s)
     | (_, s) \<Rightarrow> (Inl (Raised DatabaseExc), broken (uow_add c w), s))"
  using assms by (cases "await a (write_change D c) s") (simp add: uow_commit_def uow_add_def idle_def split: option.split commit.split)

lemma committed_idle: "idle w \<Longrightarrow> idle (uow_committed (uow_add c w))"
  by (simp add: idle_def uow_committed_def uow_add_def)

lemma refresh_idle:
  assumes "idle w"
  shows "to_answer (sbind (uow_refresh_model D flush n a) (\<lambda>row. sret \<lparr> wr_value = row, wr_created = b \<rparr>) (w, s)) =
      refreshed b (await a (reading (sel_model D n)) s)"
    and "to_answer (sbind (uow_refresh_version D flush n v a) (\<lambda>row. sret \<lparr> wr_value = row, wr_created = b \<rparr>) (w, s)) =
      refreshed b (await a (reading (sel_version D n v)) s)"
  by (auto simp: query_idle [OF assms] uow_refresh_model_def uow_refresh_version_def sbind_def sret_def refreshed_def
      split: option.splits prod.splits)

lemma refresh_no_integrity:
  assumes "idle w"
  shows "fst (sbind (uow_refresh_model D flush n a) (\<lambda>row. sret (f row)) (w, s)) \<noteq> Inl Integrity"
    and "fst (sbind (uow_refresh_version D flush n v a) (\<lambda>row. sret (h row)) (w, s)) \<noteq> Inl Integrity"
  by (auto simp: query_idle [OF assms] uow_refresh_model_def uow_refresh_version_def sbind_def sret_def
      split: option.splits prod.splits)

lemma update_idle:
  assumes "idle w"
  shows "to_answer (session_update (uow_orm D flush) aw n model d (w, s)) = put_model_update D aw n model d s"
proof (cases "m_description model = d")
  case True
  then show ?thesis by (simp add: session_update_def put_model_update_def)
next
  case False
  obtain c s' where a: "await (aw 4) (upd_model D n d) s = (c, s')" by fastforce
  show ?thesis
    using False commit_change [OF assms, of D flush "aw 4" "NewDescription n d" s] a
      refresh_idle(1) [OF committed_idle [OF assms], of D flush n "aw 5" False]
    by (auto simp: session_update_def put_model_update_def uow_orm_def sbind_def [of "locally _"]
        sbind_def [of "uow_commit _ _ _"] locally_def split: option.split commit.split)
qed

text \<open>
  Adding a change, committing it and reading its row, with a handler for an integrity error that rolls
  back first: whatever the session holds, the handler starts from an empty one.
\<close>

lemma write_idle:
  fixes ref :: "(uow, 's, 'v) in_session"
  assumes "idle w"
    and ref: "\<And>w s. idle w \<Longrightarrow> to_answer (sbind ref (\<lambda>row. sret \<lparr> wr_value = row, wr_created = True \<rparr>) (w, s)) =
      refreshed True (await a2 (reading q) s)"
    and none: "\<And>w s. idle w \<Longrightarrow> fst (sbind ref (\<lambda>row. sret \<lparr> wr_value = row, wr_created = True \<rparr>) (w, s)) \<noteq> Inl Integrity"
    and handler: "\<And>w s. idle w \<Longrightarrow> uw_models w = Map.empty \<Longrightarrow> uw_versions w = Map.empty \<Longrightarrow> to_answer (h (w, s)) = g s"
  shows "to_answer (sbind (locally (uow_add c)) (\<lambda>_. on_integrity
      (sbind (uow_commit D flush a1) (\<lambda>_. sbind ref (\<lambda>row. sret \<lparr> wr_value = row, wr_created = True \<rparr>)))
      (sbind (locally uow_clear) (\<lambda>_. h))) (w, s)) =
    (case await a1 (write_change D c) s of
       (Some Committed, s) \<Rightarrow> refreshed True (await a2 (reading q) s)
     | (Some IntegrityError, s) \<Rightarrow> g s
     | (_, s) \<Rightarrow> (Inl DatabaseExc, s))"
proof -
  obtain r s' where a: "await a1 (write_change D c) s = (r, s')" by fastforce
  note idle' = committed_idle [OF assms(1), of c]
  show ?thesis
  proof (cases "r = Some Committed")
    case True
    let ?m = "sbind ref (\<lambda>row. sret \<lparr> wr_value = row, wr_created = True \<rparr>) (uow_committed (uow_add c w), s')"
    have "on_integrity (sbind (uow_commit D flush a1) (\<lambda>_. sbind ref (\<lambda>row. sret \<lparr> wr_value = row, wr_created = True \<rparr>)))
        (sbind (locally uow_clear) (\<lambda>_. h)) (uow_add c w, s) = ?m"
      using none [OF idle', of s'] True a
      by (simp add: on_integrity_def sbind_def [of "uow_commit _ _ _"] commit_change [OF assms(1)])
        (auto split: prod.split sum.split session_exc.split)
    then show ?thesis using ref [OF idle', of s'] True a by (simp add: sbind_def [of "locally _"] locally_def)
  next
    case False
    then show ?thesis
      using a handler [of "uow_clear (broken (uow_add c w))" s']
      by (auto simp: sbind_def [of "locally _"] locally_def on_integrity_def sbind_def [of "uow_commit _ _ _"]
          commit_change [OF assms(1)] split: option.split commit.split)
  qed
qed

lemma uow_writes:
  "or_add_model (uow_orm D flush) n d = uow_add (NewModel n d)"
  "or_add_version (uow_orm D flush) n v i g m = uow_add (NewVersion n v i g m)"
  "or_commit (uow_orm D flush) = uow_commit D flush" "or_rollback (uow_orm D flush) = uow_clear"
  "or_refresh_model (uow_orm D flush) = uow_refresh_model D flush"
  "or_refresh_version (uow_orm D flush) = uow_refresh_version D flush"
  by (simp_all add: uow_orm_def)

lemma put_model_idle:
  assumes "idle w" "uw_models w n = None"
  shows "to_answer (session_put_model (uow_orm D flush) aw n d (w, s)) = put_model D aw n d s"
proof -
  let ?M = "uow_orm D flush"
  let ?h = "sbind (or_get ?M n (aw 3)) (\<lambda>model. case model of None \<Rightarrow> sraise Integrity
    | Some row \<Rightarrow> session_update ?M aw n row d)"
  have h: "to_answer (?h (w, s)) = and_then (get_model D (aw 3) n s) (\<lambda>m s. case m of
      None \<Rightarrow> (Inl DatabaseExc, s) | Some row \<Rightarrow> put_model_update D aw n row d s)"
    if "idle w" "uw_models w = Map.empty" for w s
    using get_idle [of w n D flush "aw 3" s] that
    by (intro to_answer_bind) (auto simp: sraise_def update_idle split: option.split)
  have "to_answer (session_put_model ?M aw n d (w, s)) = and_then (get_model D (aw 0) n s) (\<lambda>m s. case m of
      Some row \<Rightarrow> put_model_update D aw n row d s
    | None \<Rightarrow> (case await (aw 1) (ins_model D n d) s of
        (Some Committed, s) \<Rightarrow> refreshed True (await (aw 2) (reading (sel_model D n)) s)
      | (Some IntegrityError, s) \<Rightarrow> and_then (get_model D (aw 3) n s) (\<lambda>m s. case m of
          None \<Rightarrow> (Inl DatabaseExc, s) | Some row \<Rightarrow> put_model_update D aw n row d s)
      | (_, s) \<Rightarrow> (Inl DatabaseExc, s)))"
    unfolding session_put_model_def
  proof (rule to_answer_bind, goal_cases)
    case 1
    show ?case by (rule get_idle(1) [OF assms])
  next
    case (2 m w' s')
    have w': "idle w'" using get_idle(2) [OF assms 2] by simp
    show ?case
    proof (cases m)
      case None
      show ?thesis unfolding None option.case uow_writes
        by (subst write_idle [OF w' refresh_idle(1) refresh_no_integrity(1)], assumption+, rule h, assumption+)
          simp
    next
      case (Some row)
      then show ?thesis using update_idle [OF w'] by simp
    qed
  qed
  also have "\<dots> = put_model D aw n d s"
    by (auto simp: put_model_def and_then_def get_model_def split: option.splits prod.splits commit.splits)
  finally show ?thesis .
qed

lemma put_version_idle:
  assumes "idle w" "uw_versions w = Map.empty"
  shows "to_answer (session_put_version (uow_orm D flush) aw n v i g md (w, s)) = put_version D aw n v i g md s"
proof -
  let ?M = "uow_orm D flush"
  let ?old = "\<lambda>row s. (Inr \<lparr> wr_value = row, wr_created = False \<rparr>, s)"
  let ?h = "sbind (or_scalar ?M n v (aw 4)) (\<lambda>existing. case existing of None \<Rightarrow> sraise Integrity
    | Some row \<Rightarrow> sret \<lparr> wr_value = row, wr_created = False \<rparr>)"
  have h: "to_answer (?h (w, s)) = and_then (find_version D (aw 4) n v s) (\<lambda>m s. case m of
      None \<Rightarrow> (Inl DatabaseExc, s) | Some row \<Rightarrow> ?old row s)"
    if "idle w" "uw_versions w = Map.empty" for w s
    using scalar_idle [of w D flush n v "aw 4" s] that
    by (intro to_answer_bind) (auto simp: sraise_def split: option.split)
  have "to_answer (session_put_version ?M aw n v i g md (w, s)) = and_then (find_version D (aw 1) n v s) (\<lambda>m s. case m of
      Some row \<Rightarrow> ?old row s
    | None \<Rightarrow> (case await (aw 2) (ins_version D n v i g md) s of
        (Some Committed, s) \<Rightarrow> refreshed True (await (aw 3) (reading (sel_version D n v)) s)
      | (Some IntegrityError, s) \<Rightarrow> and_then (find_version D (aw 4) n v s) (\<lambda>m s. case m of
          None \<Rightarrow> (Inl DatabaseExc, s) | Some row \<Rightarrow> ?old row s)
      | (_, s) \<Rightarrow> (Inl DatabaseExc, s)))"
    unfolding session_put_version_def
  proof (rule to_answer_bind, goal_cases)
    case 1
    show ?case by (rule scalar_idle(1) [OF assms])
  next
    case (2 m w' s')
    have w': "idle w'" using scalar_idle(2) [OF assms 2] .
    show ?case
    proof (cases m)
      case None
      show ?thesis unfolding None option.case uow_writes
        by (subst write_idle [OF w' refresh_idle(2) refresh_no_integrity(2)], assumption+, rule h, assumption+)
          simp
    qed simp
  qed
  also have "\<dots> = put_version D aw n v i g md s"
    by (auto simp: put_version_def and_then_def find_version_def split: option.splits prod.splits commit.splits sum.splits)
  finally show ?thesis .
qed

text \<open>The routes over the unit of work of a new session.\<close>

lemma simple_routes:
  "to_answer (session_put_model_route (uow_orm D flush) aw n b (fresh_uow e, s)) = put_model_route D aw n b s"
  "to_answer (session_list_models_route P (uow_orm D flush) aw x y (fresh_uow e, s)) = list_models_route P D aw x y s"
  "to_answer (session_get_model_route (uow_orm D flush) aw n (fresh_uow e, s)) = get_model_route D aw n s"
  "to_answer (session_get_version_route (uow_orm D flush) aw n v (fresh_uow e, s)) = get_version_route D aw n v s"
  unfolding session_put_model_route_def put_model_route_def session_list_models_route_def list_models_route_def
    session_get_model_route_def get_model_route_def session_get_version_route_def get_version_route_def get_version_def
  by (rule to_answer_valid, clarsimp?, rule to_answer_bind,
      simp add: put_model_idle get_idle(1) scalar_idle(1) pages_idle(1), simp split: option.split)+

text \<open>The routes that look for the model first go on in the same session.\<close>

lemma after_model:
  assumes "\<And>w s. idle w \<Longrightarrow> uw_versions w = Map.empty \<Longrightarrow> to_answer (m (w, s)) = g s"
  shows "to_answer (sbind (or_get (uow_orm D flush) n a) (\<lambda>r. if r = None then sraise (Raised x) else m) (fresh_uow e, s)) =
    and_then (get_model D a n s) (\<lambda>r s. if r = None then (Inl x, s) else g s)"
proof (rule to_answer_bind, goal_cases)
  case 1
  show ?case by (rule get_idle(1)) simp_all
next
  case (2 r w' s')
  from get_idle(2) [OF _ _ this] show ?case by (simp add: assms)
qed

lemma nested_routes:
  "to_answer (session_put_version_route feq (uow_orm D flush) aw n v b (fresh_uow e, s)) = put_version_route feq D aw n v b s"
  "to_answer (session_list_versions_route P (uow_orm D flush) aw n x y (fresh_uow e, s)) = list_versions_route P D aw n x y s"
  unfolding session_put_version_route_def put_version_route_def session_list_versions_route_def list_versions_route_def
  by (rule to_answer_valid, clarsimp, rule after_model, rule to_answer_bind,
      simp add: put_version_idle pages_idle(2), simp)+

lemma to_answer_seen: "to_answer (map_prod id (map_prod uw id) r) = to_answer r"
  by (cases r) (simp add: to_answer_def split: sum.split session_exc.split)

lemma to_answer_session: "to_answer (get_session M f body s) = to_answer (body (or_session M f, s))"
  by (cases "body (or_session M f, s)") (simp add: get_session_def to_answer_def split: sum.split session_exc.split)

context orm_library
begin

lemma session_answers:
  assumes "simulates uw m m'" "\<And>e. to_answer (m' (fresh_uow e, s)) = r"
  shows "to_answer (get_session M f m s) = r"
  using assms to_answer_seen [of uw "m (or_session M f, s)"]
  by (simp add: to_answer_session simulates_def session_law)

lemma session_closed: "idle (uw (fst (snd (get_session M f m s))))"
  by (simp add: get_session_def close_law split: prod.split)

end

section \<open>Properties\<close>

text \<open>
  (C17) The routes of the registry over a database session do what they do over the database: for every
  interleaving with other requests and every lost round trip, each of the six routes, run in the
  session that \<open>get_session\<close> opens for the request, answers and changes the tables exactly as the
  route over the operations of the database. In particular the repository never uses a session whose
  transaction has failed without a rollback, never sees a row it added but failed to write, and the
  session is closed with nothing left to write.
\<close>

theorem sessions_implement_registry:
  assumes "orm_library M D flush uw"
  shows "to_answer (get_session M f (session_put_model_route M aw n b) s) = put_model_route D aw n b s \<and>
    to_answer (get_session M f (session_get_model_route M aw n) s) = get_model_route D aw n s \<and>
    to_answer (get_session M f (session_list_models_route P M aw x y) s) = list_models_route P D aw x y s \<and>
    to_answer (get_session M f (session_put_version_route feq M aw n v b) s) = put_version_route feq D aw n v b s \<and>
    to_answer (get_session M f (session_get_version_route M aw n v) s) = get_version_route D aw n v s \<and>
    to_answer (get_session M f (session_list_versions_route P M aw n x y) s) = list_versions_route P D aw n x y s \<and>
    idle (uw (fst (snd (get_session M f (session_put_version_route feq M aw n v b) s))))"
proof -
  note L = orm_library.programs [OF assms] and A = orm_library.session_answers [OF assms]
  show ?thesis
    by (intro conjI A [OF L(1) simple_routes(1)] A [OF L(2) simple_routes(2)] A [OF L(3) simple_routes(3)]
        A [OF L(4) nested_routes(1)] A [OF L(5) nested_routes(2)] A [OF L(6) simple_routes(4)]
        orm_library.session_closed [OF assms])
qed

text \<open>Another request registers the model between the read and the commit of this one.\<close>

definition overtaken :: "mem_db awaits" where
  "overtaken i = (if i = 1 then (\<lambda>s. snd (mem_ins_model ''sentiment'' (Some ''other'') s), Delivered) else (id, Delivered))"

definition empty_db :: mem_db where
  "empty_db = \<lparr> tab_models = [], tab_versions = [], db_clock = 0 \<rparr>"

definition demo_body :: json where
  "demo_body = JDict [(''description'', JStr ''ours'')]"

theorem sessions_implement_registry_witness:
  "\<exists>u s. get_session (uow_orm mem_sql (sret ())) (create_session_factory (''sqlite+aiosqlite://'', []))
       (session_put_model_route (uow_orm mem_sql (sret ())) overtaken ''sentiment'' demo_body) empty_db =
     (Inr (200, \<lparr> mr_name = ''sentiment'', mr_description = Some ''ours'', mr_created_at = 0, mr_updated_at = 1 \<rparr>), u, s)"
proof -
  have r: "fst (put_model_route mem_sql overtaken ''sentiment'' demo_body empty_db) =
      Inr (200, \<lparr> mr_name = ''sentiment'', mr_description = Some ''ours'', mr_created_at = 0, mr_updated_at = 1 \<rparr>)"
    by code_simp
  have "to_answer (get_session (uow_orm mem_sql (sret ())) (create_session_factory (''sqlite+aiosqlite://'', []))
      (session_put_model_route (uow_orm mem_sql (sret ())) overtaken ''sentiment'' demo_body) empty_db) =
    put_model_route mem_sql overtaken ''sentiment'' demo_body empty_db"
    by (rule conjunct1 [OF sessions_implement_registry [OF units.orm_library_axioms]])
  with r show ?thesis
    by (auto simp: to_answer_def split: prod.splits sum.splits session_exc.splits dest: arg_cong [where f = fst])
qed

end
