(* ===== verification/Classifier.thy ===== *)
theory Classifier
  imports Py_Text Py_Values
begin

text \<open>
  The deterministic sentiment classifier of \<open>runtime_app/classifier.py\<close>. Scores are finite floats,
  carried as rational numbers; the rounding of literals and of each operation, the summation, the
  exponential and \<open>round(x, 6)\<close> are the fields of \<open>floats\<close>, with the laws of double precision the
  results rest on in the locale \<open>double\<close>.
\<close>

section \<open>Floating point\<close>

record floats =
  fl :: "rat \<Rightarrow> rat"
  fl_sum :: "rat list \<Rightarrow> rat"
  fl_exp :: "rat \<Rightarrow> rat option"
  fl_round6 :: "rat \<Rightarrow> rat"

text \<open>
  \<open>fl\<close> rounds to the nearest double: monotone, exact on 0, 1/2, 1 and 2, and within a hundred-millionth for
  arguments up to 10000. \<open>sum\<close> of at most 4096 floats of magnitude at most 2 is within 1/1000.
  \<open>math.exp\<close> raises an \<open>OverflowError\<close> (\<open>None\<close>) when the result exceeds the largest double, that is
  for arguments above 709.78.
\<close>

locale double =
  fixes F :: floats
  assumes fl_mono: "x \<le> y \<Longrightarrow> fl F x \<le> fl F y"
    and fl_exact: "fl F 0 = 0" "fl F (1 / 2) = 1 / 2" "fl F 1 = 1" "fl F 2 = 2"
    and fl_close: "\<bar>x\<bar> \<le> 10000 \<Longrightarrow> \<bar>fl F x - x\<bar> \<le> 1 / 100000000"
    and sum_close: "length xs \<le> 4096 \<Longrightarrow> \<forall>x \<in> set xs. \<bar>x\<bar> \<le> 2 \<Longrightarrow>
      \<bar>fl_sum F xs - sum_list xs\<bar> \<le> 1 / 1000"
    and exp_overflow: "710 \<le> x \<Longrightarrow> fl_exp F x = None"
    and exp_defined: "x \<le> 709 \<Longrightarrow> fl_exp F x \<noteq> None"
    and exp_low: "x \<le> 0 \<Longrightarrow> fl_exp F x = Some y \<Longrightarrow> 0 \<le> y \<and> y \<le> 1"
    and exp_high: "0 \<le> x \<Longrightarrow> fl_exp F x = Some y \<Longrightarrow> (1 + x) * (999 / 1000) \<le> y"
    and round6_mono: "x \<le> y \<Longrightarrow> fl_round6 F x \<le> fl_round6 F y"
    and round6_exact: "fl_round6 F (1 / 2) = 1 / 2" "fl_round6 F 1 = 1"

section \<open>Weights\<close>

type_synonym weights = "rat \<times> (string \<times> rat) list"

definition VERSIONED_WEIGHTS :: "(string \<times> weights) list" where
  "VERSIONED_WEIGHTS =
     [(''v1'', (- 2 / 10,
        [(''excellent'', 18 / 10), (''good'', 12 / 10), (''great'', 16 / 10), (''happy'', 11 / 10),
         (''love'', 18 / 10), (''bad'', - 13 / 10), (''hate'', - 18 / 10), (''poor'', - 12 / 10),
         (''sad'', - 10 / 10), (''terrible'', - 19 / 10)])),
      (''v2'', (- 1 / 10,
        [(''excellent'', 17 / 10), (''fast'', 8 / 10), (''good'', 11 / 10), (''great'', 15 / 10),
         (''happy'', 10 / 10), (''love'', 17 / 10), (''reliable'', 10 / 10), (''stable'', 9 / 10),
         (''bad'', - 12 / 10), (''flaky'', - 12 / 10), (''hate'', - 17 / 10), (''poor'', - 11 / 10),
         (''sad'', - 9 / 10), (''slow'', - 8 / 10), (''terrible'', - 18 / 10)]))]"

record prediction =
  pr_label :: string
  pr_confidence :: rat

record classifier =
  cl_bias :: rat
  cl_weights :: "(string \<times> rat) list"
  cl_version :: string

definition SentimentClassifier :: "string \<Rightarrow> string + classifier" where
  "SentimentClassifier version =
     (case map_of VERSIONED_WEIGHTS version of
        None \<Rightarrow> Inl (''unsupported baked model version: '' @ version)
      | Some (bias, weights) \<Rightarrow>
          Inr \<lparr> cl_bias = bias, cl_weights = weights, cl_version = version \<rparr>)"

section \<open>Prediction\<close>

definition token_char :: "char \<Rightarrow> bool" where
  "token_char c \<longleftrightarrow> is_lower c \<or> c = CHR 0x27"

lemma tokens_shorter:
  assumes "dropWhile (\<lambda>c. \<not> token_char c) s = c # t"
  shows "length (dropWhile token_char (c # t)) < length s"
proof -
  have "token_char c" using hd_dropWhile [of "\<lambda>c. \<not> token_char c" s] assms by simp
  then have "length (dropWhile token_char (c # t)) \<le> length t" by (simp add: length_dropWhile_le)
  also have "\<dots> < length s"
    using length_dropWhile_le [of "\<lambda>c. \<not> token_char c" s] by (simp add: assms)
  finally show ?thesis .
qed

text \<open>\<open>re.findall\<close> of \<open>[a-z']+\<close>: the maximal runs of token characters, from left to right.\<close>

function tokens :: "string \<Rightarrow> string list" where
  "tokens s =
     (case dropWhile (\<lambda>c. \<not> token_char c) s of
        [] \<Rightarrow> []
      | t \<Rightarrow> takeWhile token_char t # tokens (dropWhile token_char t))"
  by pat_completeness auto

termination by (relation "measure length") (simp_all add: tokens_shorter del: dropWhile.simps)

declare tokens.simps [simp del]

definition weight_of :: "(string \<times> rat) list \<Rightarrow> string \<Rightarrow> rat" where
  "weight_of ws token = (case map_of ws token of None \<Rightarrow> 0 | Some w \<Rightarrow> w)"

definition raw_score :: "floats \<Rightarrow> classifier \<Rightarrow> string \<Rightarrow> rat" where
  "raw_score F c txt =
     fl F (fl F (cl_bias c) + fl_sum F (map (\<lambda>t. fl F (weight_of (cl_weights c) t)) (tokens (py_lower txt))))"

definition positive_probability :: "floats \<Rightarrow> rat \<Rightarrow> py_error + rat" where
  "positive_probability F score =
     (case fl_exp F (- score) of
        None \<Rightarrow> Inl OverflowError
      | Some e \<Rightarrow> Inr (fl F (1 / fl F (1 + e))))"

definition predict :: "floats \<Rightarrow> classifier \<Rightarrow> string \<Rightarrow> py_error + prediction" where
  "predict F c txt =
     bind_result (positive_probability F (raw_score F c txt)) (\<lambda>p.
     if 1 / 2 \<le> p then Inr \<lparr> pr_label = ''positive'', pr_confidence = fl_round6 F p \<rparr>
     else Inr \<lparr> pr_label = ''negative'', pr_confidence = fl_round6 F (fl F (1 - p)) \<rparr>)"

section \<open>The exact score\<close>

definition exact_score :: "classifier \<Rightarrow> string \<Rightarrow> rat" where
  "exact_score c txt =
     cl_bias c + sum_list (map (weight_of (cl_weights c)) (tokens (py_lower txt)))"

definition tame :: "classifier \<Rightarrow> bool" where
  "tame c \<longleftrightarrow> \<bar>cl_bias c\<bar> \<le> 1 \<and> (\<forall>(t, w) \<in> set (cl_weights c). \<bar>w\<bar> \<le> 19 / 10)"

lemma SentimentClassifier_tame: "SentimentClassifier v = Inr c \<Longrightarrow> tame c"
  by (auto simp: SentimentClassifier_def VERSIONED_WEIGHTS_def tame_def split: if_splits)

lemma tokens_length: "length (tokens s) \<le> length s"
proof (induction s rule: tokens.induct)
  case (1 s)
  show ?case
  proof (cases "dropWhile (\<lambda>c. \<not> token_char c) s")
    case Nil
    then show ?thesis by (simp add: tokens.simps [of s] del: dropWhile_eq_Nil_conv)
  next
    case (Cons c t)
    have "length (tokens (dropWhile token_char (c # t))) \<le> length (dropWhile token_char (c # t))"
      by (rule 1 [OF Cons])
    then show ?thesis using tokens_shorter [OF Cons]
      by (subst tokens.simps) (simp add: Cons del: dropWhile.simps takeWhile.simps)
  qed
qed

lemma py_lower_length [simp]: "length (py_lower s) = length s"
  by (simp add: py_lower_def)

lemma weight_of_tame: "tame c \<Longrightarrow> \<bar>weight_of (cl_weights c) t\<bar> \<le> 19 / 10"
  by (auto simp: tame_def weight_of_def split: option.splits dest: map_of_SomeD)

lemma sum_list_abs_le:
  fixes f :: "'a \<Rightarrow> rat"
  assumes "\<And>x. \<bar>f x\<bar> \<le> b"
  shows "\<bar>sum_list (map f xs)\<bar> \<le> b * of_nat (length xs)"
proof (induction xs)
  case (Cons x xs)
  then show ?case using assms [of x] by (simp add: algebra_simps)
qed simp

lemma sum_list_diff:
  fixes f g :: "'a \<Rightarrow> rat"
  shows "sum_list (map f xs) - sum_list (map g xs) = sum_list (map (\<lambda>x. f x - g x) xs)"
  by (induction xs) simp_all

context double
begin

lemma raw_score_close:
  assumes "tame c" and "length txt \<le> 4096"
  shows "\<bar>raw_score F c txt - exact_score c txt\<bar> \<le> 1 / 100"
proof -
  let ?ts = "tokens (py_lower txt)"
  let ?w = "weight_of (cl_weights c)"
  let ?f = "\<lambda>t. fl F (?w t)"
  have n: "length ?ts \<le> 4096" using tokens_length [of "py_lower txt"] assms(2) by simp
  have w: "\<bar>?w t\<bar> \<le> 19 / 10" for t by (rule weight_of_tame [OF assms(1)])
  have fw: "\<bar>?f t - ?w t\<bar> \<le> 1 / 100000000" for t using w [of t] by (intro fl_close) linarith
  have f2: "\<bar>?f t\<bar> \<le> 2" for t using fw [of t] w [of t] by linarith
  have s1: "\<bar>fl_sum F (map ?f ?ts) - sum_list (map ?f ?ts)\<bar> \<le> 1 / 1000"
    using n f2 by (intro sum_close) auto
  have "\<bar>sum_list (map ?f ?ts) - sum_list (map ?w ?ts)\<bar> \<le> 1 / 100000000 * of_nat (length ?ts)"
    unfolding sum_list_diff by (rule sum_list_abs_le) (rule fw)
  also have "\<dots> \<le> 1 / 100000000 * 4096" using n by (intro mult_left_mono) simp_all
  finally have s2: "\<bar>sum_list (map ?f ?ts) - sum_list (map ?w ?ts)\<bar> \<le> 1 / 1000" by simp
  have "\<bar>sum_list (map ?w ?ts)\<bar> \<le> 19 / 10 * of_nat (length ?ts)" by (rule sum_list_abs_le) (rule w)
  also have "\<dots> \<le> 19 / 10 * 4096" using n by (intro mult_left_mono) simp_all
  finally have s3: "\<bar>sum_list (map ?w ?ts)\<bar> \<le> 7783" by simp
  have b: "\<bar>cl_bias c\<bar> \<le> 1" using assms(1) by (simp add: tame_def)
  then have fb: "\<bar>fl F (cl_bias c) - cl_bias c\<bar> \<le> 1 / 100000000" by (intro fl_close) linarith
  let ?x = "fl F (cl_bias c) + fl_sum F (map ?f ?ts)"
  have "\<bar>?x\<bar> \<le> 10000" using b fb s1 s2 s3 by linarith
  then have "\<bar>fl F ?x - ?x\<bar> \<le> 1 / 100000000" by (rule fl_close)
  then show ?thesis using fb s1 s2 unfolding raw_score_def exact_score_def
    by linarith
qed

lemma fl_le: "x \<le> y \<Longrightarrow> \<bar>y\<bar> \<le> 10000 \<Longrightarrow> fl F x \<le> y + 1 / 100000000"
  using fl_mono [of x y] fl_close [of y] by linarith

lemma fl_ge: "x \<le> y \<Longrightarrow> \<bar>x\<bar> \<le> 10000 \<Longrightarrow> x - 1 / 100000000 \<le> fl F y"
  using fl_mono [of x y] fl_close [of x] by linarith

text \<open>A score that is not negative gives a probability of at least one half, a clearly negative one less.\<close>

lemma probability_high:
  assumes "0 \<le> score"
  shows "\<exists>p. positive_probability F score = Inr p \<and> 1 / 2 \<le> p \<and> p \<le> 1"
proof -
  obtain e where e: "fl_exp F (- score) = Some e" using exp_defined [of "- score"] assms by auto
  have e01: "0 \<le> e" "e \<le> 1" using exp_low [OF _ e] assms by auto
  have d: "1 \<le> fl F (1 + e)" "fl F (1 + e) \<le> 2"
    using fl_mono [of 1 "1 + e"] fl_mono [of "1 + e" 2] e01 by (simp_all add: fl_exact)
  then have q: "1 / 2 \<le> 1 / fl F (1 + e)" "1 / fl F (1 + e) \<le> 1" by (simp_all add: field_simps)
  have "1 / 2 \<le> fl F (1 / fl F (1 + e))" "fl F (1 / fl F (1 + e)) \<le> 1"
    using fl_mono [OF q(1)] fl_mono [OF q(2)] by (simp_all only: fl_exact)
  then show ?thesis by (simp add: positive_probability_def e)
qed

lemma probability_low:
  assumes "- 709 \<le> score" and "score \<le> - 9 / 100"
  shows "\<exists>p. positive_probability F score = Inr p \<and> 0 \<le> p + 1 / 100000000 \<and> p < 1 / 2"
proof -
  obtain e where e: "fl_exp F (- score) = Some e" using exp_defined [of "- score"] assms by auto
  have "(1 + - score) * (999 / 1000) \<le> e" using assms by (intro exp_high [OF _ e]) simp
  then have e1: "1088 / 1000 \<le> e" using assms by simp
  have "2087 / 1000 - 1 / 100000000 \<le> fl F (1 + e)" using e1 by (intro fl_ge) simp_all
  then have d: "2086 / 1000 \<le> fl F (1 + e)" by simp
  then have q: "0 \<le> 1 / fl F (1 + e)" "1 / fl F (1 + e) \<le> 48 / 100" by (simp_all add: field_simps)
  have "fl F (1 / fl F (1 + e)) \<le> 48 / 100 + 1 / 100000000" using q by (intro fl_le) simp_all
  moreover have "0 - 1 / 100000000 \<le> fl F (1 / fl F (1 + e))" using q by (intro fl_ge) simp_all
  ultimately show ?thesis by (simp add: positive_probability_def e)
qed

lemma probability_overflow: "score \<le> - 710 \<Longrightarrow> positive_probability F score = Inl OverflowError"
  by (simp add: positive_probability_def exp_overflow)

lemma probability_range:
  assumes "positive_probability F score = Inr p"
  shows "0 \<le> p \<and> p \<le> 1"
proof -
  obtain e where e: "fl_exp F (- score) = Some e" and p: "p = fl F (1 / fl F (1 + e))"
    using assms by (auto simp: positive_probability_def split: option.splits)
  have "0 \<le> e"
  proof (cases "- score \<le> 0")
    case False
    then have "(1 + - score) * (999 / 1000) \<le> e" by (intro exp_high [OF _ e]) simp
    then show ?thesis using False by simp
  qed (use exp_low [OF _ e] in auto)
  then have "1 \<le> fl F (1 + e)" using fl_mono [of 1 "1 + e"] by (simp add: fl_exact)
  then have "0 \<le> 1 / fl F (1 + e)" "1 / fl F (1 + e) \<le> 1" by (simp_all add: field_simps)
  from fl_mono [OF this(1)] fl_mono [OF this(2)] show ?thesis by (simp add: p fl_exact)
qed

lemma predict_confidence:
  assumes "predict F c txt = Inr q"
  shows "1 / 2 \<le> pr_confidence q \<and> pr_confidence q \<le> 1"
proof -
  obtain p where p: "positive_probability F (raw_score F c txt) = Inr p"
    and q: "q = (if 1 / 2 \<le> p then \<lparr> pr_label = ''positive'', pr_confidence = fl_round6 F p \<rparr>
      else \<lparr> pr_label = ''negative'', pr_confidence = fl_round6 F (fl F (1 - p)) \<rparr>)"
    using assms by (auto simp: predict_def bind_result_Inr_iff split: if_splits)
  note r = probability_range [OF p]
  let ?x = "if 1 / 2 \<le> p then p else fl F (1 - p)"
  have "1 / 2 \<le> ?x" "?x \<le> 1"
    using r fl_mono [of "1 / 2" "1 - p"] fl_mono [of "1 - p" 1] by (auto simp: fl_exact)
  from round6_mono [OF this(1)] round6_mono [OF this(2)]
  show ?thesis by (auto simp: q round6_exact split: if_splits)
qed

lemma predict_score:
  assumes "tame c" and "length txt \<le> 4096"
  shows "1 / 10 \<le> exact_score c txt \<Longrightarrow> \<exists>q. predict F c txt = Inr q \<and> pr_label q = ''positive''"
    and "- 708 \<le> exact_score c txt \<Longrightarrow> exact_score c txt \<le> - 1 / 10 \<Longrightarrow>
      \<exists>q. predict F c txt = Inr q \<and> pr_label q = ''negative''"
    and "exact_score c txt \<le> - 711 \<Longrightarrow> predict F c txt = Inl OverflowError"
proof -
  let ?r = "raw_score F c txt"
  note k = raw_score_close [OF assms]
  show "\<exists>q. predict F c txt = Inr q \<and> pr_label q = ''positive''" if "1 / 10 \<le> exact_score c txt"
  proof -
    have "0 \<le> ?r" using k that by linarith
    from probability_high [OF this] show ?thesis by (auto simp: predict_def)
  qed
  show "\<exists>q. predict F c txt = Inr q \<and> pr_label q = ''negative''"
    if "- 708 \<le> exact_score c txt" "exact_score c txt \<le> - 1 / 10"
  proof -
    have "- 709 \<le> ?r" "?r \<le> - 9 / 100" using k that by linarith+
    from probability_low [OF this] show ?thesis by (auto simp: predict_def)
  qed
  show "predict F c txt = Inl OverflowError" if "exact_score c txt \<le> - 711"
  proof -
    have "?r \<le> - 710" using k that by linarith
    then show ?thesis by (simp add: predict_def probability_overflow)
  qed
qed

end

text \<open>An instance: exact arithmetic, with a rational function in the place of the exponential.\<close>

definition plain_exp :: "rat \<Rightarrow> rat option" where
  "plain_exp x = (if 710 \<le> x then None else Some (if x \<le> 0 then 1 / (1 - x) else 1 + x))"

definition plain_floats :: floats where
  "plain_floats = \<lparr> fl = id, fl_sum = sum_list, fl_exp = plain_exp, fl_round6 = id \<rparr>"

lemma plain_exp_low: "x \<le> 0 \<Longrightarrow> plain_exp x = Some y \<Longrightarrow> 0 \<le> y \<and> y \<le> 1"
  by (auto simp: plain_exp_def)

interpretation exact: double plain_floats
proof (unfold_locales, goal_cases)
  case (10 x y)
  then show ?case using plain_exp_low by (simp add: plain_floats_def)
qed (auto simp: plain_floats_def plain_exp_def split: if_splits)

section \<open>Properties\<close>

text \<open>
  The classifier in double precision decides by the sign of the exact score: for a text of at
  most 4096 characters and the weights of either version, a score of at least 0.1 is labelled
  positive and one from -708 to -0.1 negative (scores are multiples of 0.1, so only an exact zero is
  left to rounding), and whenever a prediction is returned its confidence lies between one half and
  one.
\<close>

theorem classifier_decides:
  assumes "double F" and "SentimentClassifier v = Inr c" and "length txt \<le> 4096"
  shows "(1 / 10 \<le> exact_score c txt \<longrightarrow>
      (\<exists>q. predict F c txt = Inr q \<and> pr_label q = ''positive'')) \<and>
    (- 708 \<le> exact_score c txt \<and> exact_score c txt \<le> - 1 / 10 \<longrightarrow>
      (\<exists>q. predict F c txt = Inr q \<and> pr_label q = ''negative'')) \<and>
    (case predict F c txt of Inl e \<Rightarrow> True | Inr q \<Rightarrow> 1 / 2 \<le> pr_confidence q \<and> pr_confidence q \<le> 1)"
  using double.predict_score [OF assms(1) SentimentClassifier_tame [OF assms(2)] assms(3)]
    double.predict_confidence [OF assms(1)]
  by (auto split: sum.splits)

definition v1_classifier :: classifier where
  "v1_classifier = \<lparr> cl_bias = - 2 / 10, cl_weights = snd (the (map_of VERSIONED_WEIGHTS ''v1'')),
     cl_version = ''v1'' \<rparr>"

lemma v1_classifier: "SentimentClassifier ''v1'' = Inr v1_classifier"
  by (simp add: SentimentClassifier_def VERSIONED_WEIGHTS_def v1_classifier_def)

theorem classifier_decides_witness:
  "\<exists>q. predict plain_floats v1_classifier ''A good, happy day!'' = Inr q \<and> pr_label q = ''positive''"
proof -
  have "1 / 10 \<le> exact_score v1_classifier ''A good, happy day!''" by code_simp
  then show ?thesis
    using classifier_decides [OF exact.double_axioms v1_classifier, of "''A good, happy day!''"] by simp
qed

section \<open>Long negative texts\<close>

definition bad_text :: "nat \<Rightarrow> string" where
  "bad_text n = ''bad'' @ concat (replicate n '' bad'')"

lemma bad_text_length: "length (bad_text n) = 3 + 4 * n"
  by (induction n) (simp_all add: bad_text_def)

lemma bad_text_lower: "py_lower (bad_text n) = bad_text n"
proof -
  have "set (bad_text n) \<subseteq> set '' bad''" by (auto simp: bad_text_def)
  then have "lower_char c = c" if "c \<in> set (bad_text n)" for c
    using that by (auto simp: lower_char_def is_upper_def)
  then show ?thesis by (simp add: py_lower_def map_idI)
qed

lemma bad_text_tokens: "tokens (bad_text n) = replicate (Suc n) ''bad''"
proof -
  have t: "token_char CHR ''b''" "token_char CHR ''a''" "token_char CHR ''d''" "\<not> token_char CHR '' ''"
    by (simp_all add: token_char_def is_lower_def)
  have rest: "tokens (concat (replicate n '' bad'')) = replicate n ''bad''" for n
  proof (induction n)
    case 0
    then show ?case by (simp add: tokens.simps [of "[]"])
  next
    case (Suc n)
    have "takeWhile token_char (concat (replicate n '' bad'')) = []"
      "dropWhile token_char (concat (replicate n '' bad'')) = concat (replicate n '' bad'')"
      by (cases n; simp add: t)+
    then show ?case using Suc by (subst tokens.simps) (simp add: t)
  qed
  have "takeWhile token_char (concat (replicate n '' bad'')) = []"
    "dropWhile token_char (concat (replicate n '' bad'')) = concat (replicate n '' bad'')"
    by (cases n; simp add: t)+
  then show ?thesis using rest [of n] by (subst tokens.simps) (simp add: bad_text_def t)
qed

lemma bad_text_score: "exact_score v1_classifier (bad_text n) = - 2 / 10 - 13 / 10 * of_nat (Suc n)"
  by (simp add: exact_score_def bad_text_lower bad_text_tokens sum_list_replicate v1_classifier_def
      weight_of_def VERSIONED_WEIGHTS_def del: replicate_Suc)

lemma bad_text_overflows:
  assumes "double F"
  shows "predict F v1_classifier (bad_text 999) = Inl OverflowError"
  using double.predict_score(3) [OF assms SentimentClassifier_tame [OF v1_classifier], of "bad_text 999"]
  by (simp add: bad_text_length bad_text_score)

end
