(* ===== verification/Middleware.thy ===== *)
theory Middleware
  imports Errors
begin

text \<open>
  The middleware of \<open>app/middleware.py\<close>: the limit on request bodies, with its buffering and
  replay of the ASGI messages, and the request context, which chooses the request id, sets it for
  the handlers and returns it in the response.
\<close>

section \<open>Messages\<close>

text \<open>
  What \<open>receive()\<close> delivers: a disconnect, or a part of the body with its \<open>more_body\<close> flag (a missing
  \<open>body\<close> is empty, a missing flag is false).
\<close>

datatype asgi_message = HttpDisconnect | HttpRequest "string option" "bool option"

fun body_bytes :: "asgi_message \<Rightarrow> string" where
  "body_bytes HttpDisconnect = []"
| "body_bytes (HttpRequest body flag) = (case body of None \<Rightarrow> [] | Some b \<Rightarrow> b)"

fun more_body :: "asgi_message \<Rightarrow> bool" where
  "more_body HttpDisconnect = False"
| "more_body (HttpRequest body flag) = (flag = Some True)"

record scope =
  sc_type :: string
  sc_headers :: "(string \<times> string) list"

definition header :: "scope \<Rightarrow> string \<Rightarrow> string option" where
  "header sc name = map_of (sc_headers sc) name"

section \<open>The body limit\<close>

text \<open>
  What the middleware does with a request: hand it to the application untouched (not HTTP), hand it
  on with the buffered messages (and those still to come), answer 413 (with the messages read so
  far), or wait for a message that has not come yet.
\<close>

datatype verdict =
    Untouched
  | Forward "asgi_message list" "asgi_message list"
  | Reject "asgi_message list"
  | Waiting "asgi_message list"

text \<open>The loop, over the messages that the client will have sent; \<open>buffered\<close> grows at its end.\<close>

fun read_body :: "int \<Rightarrow> int \<Rightarrow> asgi_message list \<Rightarrow> asgi_message list \<Rightarrow> verdict" where
  "read_body max_bytes size_so_far buffered [] = Waiting buffered"
| "read_body max_bytes size_so_far buffered (message # incoming) =
     (let buffered = buffered @ [message] in
      if message = HttpDisconnect then Forward buffered incoming
      else
        (let size_so_far = size_so_far + int (length (body_bytes message)) in
         if max_bytes < size_so_far then Reject buffered
         else if more_body message then read_body max_bytes size_so_far buffered incoming
         else Forward buffered incoming))"

definition declared_too_large :: "int \<Rightarrow> scope \<Rightarrow> bool" where
  "declared_too_large max_bytes sc =
     (case header sc ''content-length'' of
        None \<Rightarrow> False
      | Some v \<Rightarrow> (case py_int v of None \<Rightarrow> False | Some n \<Rightarrow> max_bytes < n))"

definition body_limit :: "int \<Rightarrow> scope \<Rightarrow> asgi_message list \<Rightarrow> verdict" where
  "body_limit max_bytes sc incoming =
     (if sc_type sc \<noteq> ''http'' then Untouched
      else if declared_too_large max_bytes sc then Reject []
      else read_body max_bytes 0 [] incoming)"

text \<open>The receive function of the application: the buffered messages, then the real ones.\<close>

definition replay :: "asgi_message list \<Rightarrow> (nat \<Rightarrow> asgi_message) \<Rightarrow> nat \<Rightarrow> asgi_message" where
  "replay messages downstream k =
     (if k < length messages then messages ! k else downstream (k - length messages))"

definition reject_response :: "int \<Rightarrow> string option \<Rightarrow> http_response" where
  "reject_response max_bytes rid =
     (413, JDict [(''error'', JDict
       [(''code'', JStr ''request_too_large''),
        (''message'', JStr (''Request bodies are limited to '' @ show_int max_bytes @ '' bytes.'')),
        (''request_id'', JStr (case rid of None \<Rightarrow> [] | Some r \<Rightarrow> r)),
        (''details'', JNull)])])"

section \<open>The request context\<close>

definition request_id_char :: "char \<Rightarrow> bool" where
  "request_id_char c \<longleftrightarrow> is_alnum_ascii c \<or> c \<in> set ''._:-''"

definition REQUEST_ID_PATTERN :: rx where
  "REQUEST_ID_PATTERN = Seq (Cls request_id_char) (rx_upto 127 (Cls request_id_char))"

datatype reply_body = JsonBody json | TextBody string | FileBody string | NoBody

record reply =
  rp_status :: int
  rp_headers :: "(string \<times> string) list"
  rp_body :: reply_body

record access_log =
  al_method :: string
  al_path :: string
  al_status_code :: int

definition choose_request_id :: "string option \<Rightarrow> string \<Rightarrow> string" where
  "choose_request_id supplied uuid =
     (let s = (case supplied of None \<Rightarrow> [] | Some v \<Rightarrow> v) in
      if rx_match REQUEST_ID_PATTERN s then s else uuid)"

text \<open>
  One request: the application sees the chosen id as the context variable; the log entry is written
  and the variable restored on every way out. \<open>url_path\<close> is \<open>request.url.path\<close>, which the framework
  reads from the \<open>Host\<close> header and the path when the entry is written: reading it can fail, and then
  its exception takes the place of the answer, no entry is written and the variable stays set.
  \<open>None\<close> is a request that is still pending.
\<close>

definition dispatch ::
  "string option \<Rightarrow> string \<Rightarrow> string \<Rightarrow> py_error + string \<Rightarrow>
     (string option \<Rightarrow> 's \<Rightarrow> (exc + reply) option \<times> 's) \<Rightarrow>
     string option \<times> 's \<Rightarrow> ((exc + reply) \<times> access_log option \<times> string option \<times> 's) option" where
  "dispatch supplied uuid verb url_path call_next ctx_s =
     (let request_id = choose_request_id supplied uuid;
          (ctx, s) = ctx_s;
          (outcome, s') = call_next (Some request_id) s in
      case outcome of
        None \<Rightarrow> None
      | Some result \<Rightarrow>
          (let status_code = (case result of Inl _ \<Rightarrow> 500 | Inr response \<Rightarrow> rp_status response);
               result = (case result of
                   Inl e \<Rightarrow> Inl e
                 | Inr response \<Rightarrow> Inr (response\<lparr> rp_headers :=
                     AList.update ''x-request-id'' request_id (rp_headers response) \<rparr>)) in
           case url_path of
             Inl p \<Rightarrow> Some (Inl (PyExc p), None, Some request_id, s')
           | Inr path \<Rightarrow>
               Some (result, Some \<lparr> al_method = verb, al_path = path, al_status_code = status_code \<rparr>,
                     ctx, s')))"

text \<open>
  The stack as \<open>create_app\<close> builds it: the context outermost, then the body limit, then the
  application, which is called with the messages it will receive.
\<close>

type_synonym 's application = "asgi_message list \<Rightarrow> string option \<Rightarrow> 's \<Rightarrow> (exc + reply) \<times> 's"

definition limited ::
  "int \<Rightarrow> scope \<Rightarrow> asgi_message list \<Rightarrow> 's application \<Rightarrow> string option \<Rightarrow> 's
     \<Rightarrow> (exc + reply) option \<times> 's" where
  "limited max_bytes sc incoming application rid s =
     (case body_limit max_bytes sc incoming of
        Untouched \<Rightarrow> map_prod Some id (application incoming rid s)
      | Forward buffered rest \<Rightarrow> map_prod Some id (application (buffered @ rest) rid s)
      | Reject _ \<Rightarrow>
          (Some (Inr \<lparr> rp_status = fst (reject_response max_bytes rid), rp_headers = [],
                       rp_body = JsonBody (snd (reject_response max_bytes rid)) \<rparr>), s)
      | Waiting _ \<Rightarrow> (None, s))"

definition serve ::
  "int \<Rightarrow> 's application \<Rightarrow> scope \<Rightarrow> string \<Rightarrow> string \<Rightarrow> py_error + string \<Rightarrow> asgi_message list
     \<Rightarrow> string option \<times> 's \<Rightarrow> ((exc + reply) \<times> access_log option \<times> string option \<times> 's) option" where
  "serve max_bytes application sc uuid verb url_path incoming ctx_s =
     dispatch (header sc ''x-request-id'') uuid verb url_path (limited max_bytes sc incoming application) ctx_s"

section \<open>What the limit guarantees\<close>

definition total_bytes :: "asgi_message list \<Rightarrow> int" where
  "total_bytes ms = sum_list (map (\<lambda>m. int (length (body_bytes m))) ms)"

definition ends_body :: "asgi_message \<Rightarrow> bool" where
  "ends_body m \<longleftrightarrow> \<not> more_body m"

text \<open>The messages of one request body: up to the one that ends it.\<close>

definition body_messages :: "asgi_message list \<Rightarrow> asgi_message list" where
  "body_messages incoming =
     takeWhile (\<lambda>m. \<not> ends_body m) incoming @ take 1 (dropWhile (\<lambda>m. \<not> ends_body m) incoming)"

lemma total_bytes_simps [simp]:
  "total_bytes [] = 0"
  "total_bytes (m # ms) = int (length (body_bytes m)) + total_bytes ms"
  "total_bytes (ms @ ms') = total_bytes ms + total_bytes ms'"
  by (simp_all add: total_bytes_def)

lemma total_bytes_nonneg: "0 \<le> total_bytes ms"
  by (induction ms) simp_all

lemma body_messages_Cons:
  "body_messages (m # ms) = (if ends_body m then [m] else m # body_messages ms)"
  by (simp add: body_messages_def)

lemma disconnect_ends [simp]: "ends_body HttpDisconnect"
  by (simp add: ends_body_def)

text \<open>
  The loop decides by the total of the body: it forwards a complete body within the limit, with
  nothing lost, rejects one that exceeds it at the message that does so, and waits for the rest
  otherwise.
\<close>

lemma read_body_correct:
  assumes "size_so_far \<le> max_bytes"
  shows "case read_body max_bytes size_so_far buffered incoming of
      Untouched \<Rightarrow> False
    | Forward b rest \<Rightarrow>
        size_so_far + total_bytes (body_messages incoming) \<le> max_bytes \<and> list_ex ends_body incoming \<and>
        b = buffered @ body_messages incoming \<and> body_messages incoming @ rest = incoming
    | Reject b \<Rightarrow>
        max_bytes < size_so_far + total_bytes (body_messages incoming) \<and>
        (\<exists>ms m rest. b = buffered @ ms @ [m] \<and> incoming = ms @ m # rest \<and>
           size_so_far + total_bytes ms \<le> max_bytes)
    | Waiting b \<Rightarrow>
        size_so_far + total_bytes incoming \<le> max_bytes \<and> \<not> list_ex ends_body incoming \<and>
        b = buffered @ incoming"
  using assms
proof (induction incoming arbitrary: size_so_far buffered)
  case (Cons m incoming)
  let ?t = "size_so_far + int (length (body_bytes m))"
  show ?case
  proof (cases "ends_body m \<or> max_bytes < ?t")
    case True
    have "m = HttpDisconnect \<Longrightarrow> ?t \<le> max_bytes" using Cons.prems by simp
    then show ?thesis using True Cons.prems total_bytes_nonneg [of "body_messages incoming"]
      by (auto simp: Let_def body_messages_Cons ends_body_def intro!: exI [of _ "[]"])
  next
    case False
    then have more: "more_body m" "?t \<le> max_bytes" "m \<noteq> HttpDisconnect" by (auto simp: ends_body_def)
    then have step: "read_body max_bytes size_so_far buffered (m # incoming) =
        read_body max_bytes ?t (buffered @ [m]) incoming" by (simp add: Let_def)
    show ?thesis
      using Cons.IH [OF more(2), of "buffered @ [m]"] False unfolding step
      by (auto simp: body_messages_Cons ends_body_def algebra_simps split: verdict.splits
          intro: exI [of _ "m # ms" for ms])
  qed
qed (simp add: body_messages_def)

lemma replay_sequence:
  "map (replay b (\<lambda>k. rest ! k)) [0..<length (b @ rest)] = b @ rest"
  by (rule nth_equalityI) (auto simp: replay_def nth_append)

definition safe_id :: "string \<Rightarrow> bool" where
  "safe_id s \<longleftrightarrow> 1 \<le> length s \<and> length s \<le> 128 \<and> list_all request_id_char s"

lemma request_id_pattern: "rx_match REQUEST_ID_PATTERN s \<longleftrightarrow> safe_id s"
  unfolding rx_match_lang REQUEST_ID_PATTERN_def seq_cls safe_id_def
  by (cases s) (auto simp: rx_upto_cls list_all_iff simp del: rx_upto.simps)

lemma choose_request_id_eq:
  "choose_request_id supplied uuid =
     (case supplied of None \<Rightarrow> uuid | Some v \<Rightarrow> if safe_id v then v else uuid)"
  by (auto simp: choose_request_id_def request_id_pattern safe_id_def split: option.split)

lemma serve_cases:
  assumes "serve max_bytes application sc uuid verb (Inr path) incoming (ctx, s) = Some (res, Some entry, ctx', s')"
  defines "rid \<equiv> choose_request_id (header sc ''x-request-id'') uuid"
  shows "ctx' = ctx"
    and "al_status_code entry = (case res of Inl _ \<Rightarrow> 500 | Inr r \<Rightarrow> rp_status r)"
    and "res = Inr r \<Longrightarrow> map_of (rp_headers r) ''x-request-id'' = Some rid"
    and "body_limit max_bytes sc incoming = Reject b \<Longrightarrow>
      s' = s \<and> (\<exists>r. res = Inr r \<and> rp_status r = 413 \<and>
        rp_body r = JsonBody (snd (reject_response max_bytes (Some rid))))"
  using assms
  by (auto simp: serve_def dispatch_def limited_def Let_def update_conv' reject_response_def
      split: prod.splits option.splits sum.splits)

section \<open>Properties\<close>

text \<open>
  (C34) The body limit, for an HTTP request with any messages, chunked or not: a request is handed to
  the application only with a complete body (or a disconnect) of at most the limit, and the
  application then receives exactly the messages the client sent, in order; a request is rejected
  only when its declared length or the body itself exceeds the limit, and then no more than the
  limit was buffered before the offending message; otherwise the server waits, holding at most the
  limit.
\<close>

theorem body_limit_correct:
  assumes "sc_type sc = ''http''" and "0 \<le> max_bytes"
  shows "case body_limit max_bytes sc incoming of
      Untouched \<Rightarrow> False
    | Forward b rest \<Rightarrow>
        map (replay b (\<lambda>k. rest ! k)) [0..<length incoming] = incoming \<and> b = body_messages incoming \<and>
        list_ex ends_body b \<and> total_bytes b \<le> max_bytes \<and> \<not> declared_too_large max_bytes sc
    | Reject b \<Rightarrow>
        (if declared_too_large max_bytes sc then b = []
         else max_bytes < total_bytes (body_messages incoming)) \<and>
        total_bytes (butlast b) \<le> max_bytes
    | Waiting b \<Rightarrow>
        b = incoming \<and> total_bytes b \<le> max_bytes \<and> \<not> list_ex ends_body b \<and>
        \<not> declared_too_large max_bytes sc"
proof (cases "declared_too_large max_bytes sc")
  case True
  then show ?thesis using assms by (simp add: body_limit_def)
next
  case False
  have e: "list_ex ends_body (body_messages incoming)" if "list_ex ends_body incoming"
    using that by (induction incoming) (auto simp: body_messages_Cons)
  note r = read_body_correct [where size_so_far = 0 and buffered = "[]" and incoming = incoming, OF assms(2)]
  have b: "body_limit max_bytes sc incoming = read_body max_bytes 0 [] incoming"
    using False assms(1) by (simp add: body_limit_def)
  show ?thesis
  proof (cases "read_body max_bytes 0 [] incoming")
    case (Forward m rest)
    have m: "m = body_messages incoming" "m @ rest = incoming" 
      using r by (simp_all add: Forward)
    have "map (replay m (\<lambda>k. rest ! k)) [0..<length incoming] = incoming"
      using replay_sequence [of m rest] unfolding m(2) .
    then show ?thesis using r e m False by (simp add: Forward b)
  next
    case (Reject m)
    then show ?thesis using r False by (auto simp: b butlast_append)
  qed (use r False in \<open>simp_all add: b\<close>)
qed

definition demo_scope :: scope where
  "demo_scope = \<lparr> sc_type = ''http'', sc_headers = [(''x-request-id'', ''abc'')] \<rparr>"

theorem body_limit_correct_witness:
  "body_limit 4 demo_scope [HttpRequest (Some ''ab'') (Some True), HttpRequest (Some ''cde'') None] =
     Reject [HttpRequest (Some ''ab'') (Some True), HttpRequest (Some ''cde'') None] \<and>
   total_bytes (butlast [HttpRequest (Some ''ab'') (Some True), HttpRequest (Some ''cde'') None]) \<le> 4"
proof -
  have e: "body_limit 4 demo_scope [HttpRequest (Some ''ab'') (Some True), HttpRequest (Some ''cde'') None] =
     Reject [HttpRequest (Some ''ab'') (Some True), HttpRequest (Some ''cde'') None]" by code_simp
  show ?thesis
    using body_limit_correct [of demo_scope 4
        "[HttpRequest (Some ''ab'') (Some True), HttpRequest (Some ''cde'') None]"] e
    by (simp add: demo_scope_def)
qed

text \<open>
  Every response carries a safe request id: with a safe generated id and a readable URL, whatever
  header the client sends, the response header has an id of 1 to 128 characters from letters, digits and \<open>._:-\<close> (so no
  line break or quote can be injected), it is the client's own id whenever that is safe, a rejected
  body gets the same id in its envelope, the context variable is restored, and the access log has
  the status that was sent, 500 for an exception.
\<close>

theorem request_id_everywhere:
  assumes "serve max_bytes application sc uuid verb (Inr path) incoming (ctx, s) = Some (res, Some entry, ctx', s')"
    and "safe_id uuid"
  shows "ctx' = ctx \<and> al_status_code entry = (case res of Inl _ \<Rightarrow> 500 | Inr r \<Rightarrow> rp_status r) \<and>
    (case res of
       Inl _ \<Rightarrow> True
     | Inr r \<Rightarrow>
         (case map_of (rp_headers r) ''x-request-id'' of
            None \<Rightarrow> False
          | Some rid \<Rightarrow> safe_id rid \<and>
              rid = (case header sc ''x-request-id'' of
                       None \<Rightarrow> uuid | Some v \<Rightarrow> if safe_id v then v else uuid) \<and>
              (case body_limit max_bytes sc incoming of
                 Reject b \<Rightarrow> rp_status r = 413 \<and> rp_body r = JsonBody (snd (reject_response max_bytes (Some rid))) \<and> s' = s
               | _ \<Rightarrow> True)))"
  using serve_cases [OF assms(1)] assms(2)
  by (auto simp: choose_request_id_eq split: sum.splits option.splits verdict.splits)

definition ok_application :: "unit application" where
  "ok_application ms rid s = (Inr \<lparr> rp_status = 200, rp_headers = [], rp_body = NoBody \<rparr>, s)"

theorem request_id_everywhere_witness:
  "\<exists>res entry s'. serve 4 ok_application demo_scope ''u-1'' ''GET'' (Inr ''/'') [HttpRequest None None] (None, ()) =
      Some (Inr res, Some entry, None, s') \<and> map_of (rp_headers res) ''x-request-id'' = Some ''abc'' \<and>
      safe_id ''abc''"
proof -
  obtain res entry ctx' s' where e: "serve 4 ok_application demo_scope ''u-1'' ''GET'' (Inr ''/'')
      [HttpRequest None None] (None, ()) = Some (Inr res, Some entry, ctx', s')"
    by (simp add: serve_def dispatch_def limited_def body_limit_def demo_scope_def declared_too_large_def
        header_def ok_application_def Let_def)
  have "safe_id ''u-1''" "safe_id ''abc''" by code_simp+
  then show ?thesis using request_id_everywhere [OF e] e
    by (auto simp: demo_scope_def header_def split: option.splits)
qed

end
