(* ===== verification/Runtime_App.thy ===== *)
theory Runtime_App
  imports Classifier Middleware Config
begin

text \<open>
  The reference model runtime (\<open>runtime_app\<close>): its configuration, its metrics, its copy of the
  middleware, and the application with its life cycle: the classifier is created when the server
  starts, and requests are answered only between start and stop.
\<close>

section \<open>Configuration\<close>

definition runtime_positive_int :: "environ \<Rightarrow> string \<Rightarrow> int \<Rightarrow> string + int" where
  "runtime_positive_int env name dflt =
     (case env name of
        None \<Rightarrow> Inr dflt
      | Some raw \<Rightarrow>
          (case py_int raw of
             None \<Rightarrow> Inl (name @ '' must be an integer'')
           | Some value \<Rightarrow>
               if value \<le> 0 then Inl (name @ '' must be greater than zero'') else Inr value))"

record runtime_settings =
  rs_model_name :: string
  rs_model_version :: string
  rs_baked_model_version :: string
  rs_max_request_bytes :: int
  rs_server_host :: string
  rs_server_port :: int
  rs_server_limit_concurrency :: int
  rs_server_timeout_keep_alive_seconds :: int
  rs_server_timeout_graceful_shutdown_seconds :: int

definition MODEL_NAME_PATTERN :: rx where
  "MODEL_NAME_PATTERN = name_rx resource_char label_char"

text \<open>The loop over the named limits: the first that is not positive is reported.\<close>

fun require_positive :: "(string \<times> int) list \<Rightarrow> string + unit" where
  "require_positive [] = Inr ()"
| "require_positive ((name, value) # limits) =
     (if value \<le> 0 then Inl (name @ '' must be greater than zero'') else require_positive limits)"

definition runtime_post_init :: "runtime_settings \<Rightarrow> string + runtime_settings" where
  "runtime_post_init st =
     (if \<not> rx_match MODEL_NAME_PATTERN (rs_model_name st) \<or> 63 < length (rs_model_name st)
      then Inl ''KERNEXYS_MODEL_NAME must be a valid lowercase Kubernetes name''
      else if rs_baked_model_version st \<notin> {''v1'', ''v2''}
      then Inl ''KERNEXYS_BAKED_MODEL_VERSION must be v1 or v2''
      else if rs_model_version st \<noteq> rs_baked_model_version st
      then Inl ''KERNEXYS_MODEL_VERSION does not match the version baked into this image''
      else bind_result (require_positive
          [(''max_request_bytes'', rs_max_request_bytes st),
           (''server_port'', rs_server_port st),
           (''server_limit_concurrency'', rs_server_limit_concurrency st),
           (''server_timeout_keep_alive_seconds'', rs_server_timeout_keep_alive_seconds st),
           (''server_timeout_graceful_shutdown_seconds'',
              rs_server_timeout_graceful_shutdown_seconds st)]) (\<lambda>_.
        if 65535 < rs_server_port st then Inl ''server_port must not exceed 65535'' else Inr st))"

definition runtime_from_env :: "environ \<Rightarrow> string + runtime_settings" where
  "runtime_from_env env =
     (let baked_version = getenv env ''KERNEXYS_BAKED_MODEL_VERSION'' ''v1'' in
      bind_result (runtime_positive_int env ''KERNEXYS_MAX_REQUEST_BYTES'' 16384) (\<lambda>max_bytes.
      bind_result (runtime_positive_int env ''KERNEXYS_RUNTIME_PORT'' 8080) (\<lambda>port.
      bind_result (runtime_positive_int env ''KERNEXYS_RUNTIME_LIMIT_CONCURRENCY'' 32) (\<lambda>conc.
      bind_result (runtime_positive_int env ''KERNEXYS_RUNTIME_TIMEOUT_KEEP_ALIVE_SECONDS'' 5) (\<lambda>keep.
      bind_result (runtime_positive_int env ''KERNEXYS_RUNTIME_TIMEOUT_GRACEFUL_SHUTDOWN_SECONDS'' 20)
        (\<lambda>grace.
      runtime_post_init
        \<lparr> rs_model_name = getenv env ''KERNEXYS_MODEL_NAME'' ''sentiment'',
          rs_model_version = getenv env ''KERNEXYS_MODEL_VERSION'' baked_version,
          rs_baked_model_version = baked_version,
          rs_max_request_bytes = max_bytes,
          rs_server_host = getenv env ''KERNEXYS_RUNTIME_HOST'' ''0.0.0.0'',
          rs_server_port = port,
          rs_server_limit_concurrency = conc,
          rs_server_timeout_keep_alive_seconds = keep,
          rs_server_timeout_graceful_shutdown_seconds = grace \<rparr>))))))"

section \<open>Metrics\<close>

text \<open>The counters by outcome and the observed durations; the labels are fixed per process.\<close>

record runtime_metrics =
  rm_model :: string
  rm_version :: string
  rm_requests :: "(string \<times> nat) list"
  rm_duration :: "rat list"
  rm_info :: nat

definition new_metrics :: "string \<Rightarrow> string \<Rightarrow> runtime_metrics" where
  "new_metrics model version =
     \<lparr> rm_model = model, rm_version = version, rm_requests = [], rm_duration = [], rm_info = 1 \<rparr>"

definition observe_inference :: "string \<Rightarrow> rat \<Rightarrow> runtime_metrics \<Rightarrow> runtime_metrics" where
  "observe_inference outcome duration_seconds m =
     m\<lparr> rm_requests := AList.update outcome
          (Suc (case map_of (rm_requests m) outcome of None \<Rightarrow> 0 | Some k \<Rightarrow> k)) (rm_requests m),
        rm_duration := rm_duration m @ [duration_seconds] \<rparr>"

section \<open>Middleware\<close>

definition runtime_header :: "scope \<Rightarrow> string \<Rightarrow> string option" where
  "runtime_header sc name = map_of (sc_headers sc) name"

fun runtime_read_body :: "int \<Rightarrow> int \<Rightarrow> asgi_message list \<Rightarrow> asgi_message list \<Rightarrow> verdict" where
  "runtime_read_body max_bytes size_so_far buffered [] = Waiting buffered"
| "runtime_read_body max_bytes size_so_far buffered (message # incoming) =
     (let buffered = buffered @ [message] in
      if message = HttpDisconnect then Forward buffered incoming
      else
        (let size_so_far = size_so_far + int (length (body_bytes message)) in
         if max_bytes < size_so_far then Reject buffered
         else if more_body message then runtime_read_body max_bytes size_so_far buffered incoming
         else Forward buffered incoming))"

definition runtime_body_limit :: "int \<Rightarrow> scope \<Rightarrow> asgi_message list \<Rightarrow> verdict" where
  "runtime_body_limit max_bytes sc incoming =
     (if sc_type sc \<noteq> ''http'' then Untouched
      else if (case runtime_header sc ''content-length'' of
                 None \<Rightarrow> False
               | Some v \<Rightarrow> (case py_int v of None \<Rightarrow> False | Some n \<Rightarrow> max_bytes < n))
      then Reject []
      else runtime_read_body max_bytes 0 [] incoming)"

text \<open>Here the messages after the buffered ones are empty bodies, not the client's.\<close>

definition runtime_replay :: "asgi_message list \<Rightarrow> nat \<Rightarrow> asgi_message" where
  "runtime_replay messages k =
     (if k < length messages then messages ! k else HttpRequest (Some []) (Some False))"

definition runtime_reject :: "int \<Rightarrow> string \<Rightarrow> http_response" where
  "runtime_reject max_bytes rid =
     (413, JDict [(''error'', JDict
       [(''code'', JStr ''request_too_large''),
        (''message'', JStr (''Request bodies are limited to '' @ show_int max_bytes @ '' bytes.'')),
        (''request_id'', JStr rid)])])"

text \<open>
  The request context of the runtime: as in the control API, and every request whose
  \<open>request.url.path\<close> is \<open>/v1/infer\<close> is counted with its outcome and duration when it ends. That path
  is read from the \<open>Host\<close> header and the decoded path, not taken from the router; when it cannot be
  read, the exception takes the place of the answer and the context variable is not restored.
\<close>

definition runtime_dispatch ::
  "string option \<Rightarrow> string \<Rightarrow> py_error + string \<Rightarrow> rat \<Rightarrow> (string \<Rightarrow> exc + reply) \<Rightarrow> string \<times> runtime_metrics
     \<Rightarrow> (exc + reply) \<times> string \<times> runtime_metrics" where
  "runtime_dispatch supplied uuid url_path elapsed call_next cm =
     (let s = (case supplied of None \<Rightarrow> [] | Some v \<Rightarrow> v);
          request_id = (if rx_match REQUEST_ID_PATTERN s then s else uuid);
          outcome = call_next request_id;
          status_code = (case outcome of Inl _ \<Rightarrow> 500 | Inr r \<Rightarrow> rp_status r);
          result = (case outcome of
             Inl e \<Rightarrow> Inl e
           | Inr r \<Rightarrow> Inr (r\<lparr> rp_headers := AList.update ''x-request-id'' request_id (rp_headers r) \<rparr>));
          m = snd cm in
      case url_path of
        Inl p \<Rightarrow> (Inl (PyExc p), request_id, m)
      | Inr path \<Rightarrow>
          (result, fst cm,
           if path = ''/v1/infer''
           then observe_inference (if status_code < 400 then ''success'' else ''error'') elapsed m
           else m))"

section \<open>Application\<close>

record infer_response =
  ir_model :: string
  ir_version :: string
  ir_label :: string
  ir_confidence :: rat
  ir_request_id :: string

record runtime_state =
  rt_ready :: bool
  rt_classifier :: "classifier option"

definition create_runtime :: runtime_state where
  "create_runtime = \<lparr> rt_ready = False, rt_classifier = None \<rparr>"

text \<open>The two halves of the lifespan; a classifier that cannot be built stops the start.\<close>

definition runtime_start :: "runtime_settings \<Rightarrow> runtime_state \<Rightarrow> (string + unit) \<times> runtime_state" where
  "runtime_start st r =
     (let r = r\<lparr> rt_ready := False \<rparr> in
      case SentimentClassifier (rs_model_version st) of
        Inl e \<Rightarrow> (Inl e, r)
      | Inr c \<Rightarrow> (Inr (), r\<lparr> rt_classifier := Some c, rt_ready := True \<rparr>))"

definition runtime_stop :: "runtime_state \<Rightarrow> runtime_state" where
  "runtime_stop r = r\<lparr> rt_ready := False \<rparr>"

definition liveness :: json where
  "liveness = JDict [(''status'', JStr ''alive'')]"

definition runtime_not_ready :: exc where
  "runtime_not_ready = HttpExc 503 (JStr ''model runtime is not ready'')"

definition readiness :: "runtime_settings \<Rightarrow> runtime_state \<Rightarrow> exc + json" where
  "readiness st r =
     (if \<not> rt_ready r then Inl runtime_not_ready
      else Inr (JDict [(''status'', JStr ''ready''), (''model'', JStr (rs_model_name st)),
                       (''version'', JStr (rs_model_version st))]))"

definition BoundedText :: "string \<Rightarrow> rule + string" where
  "BoundedText s = len_between 1 4096 (rust_trim s)"

definition InferRequest :: "json \<Rightarrow> string checked" where
  "InferRequest v =
     bind_result (as_dict v) (\<lambda>kvs.
     map_checked fst
       (both (field kvs ''text'' None (field_str BoundedText)) (no_extra [''text''] kvs)))"

definition runtime_infer ::
  "floats \<Rightarrow> runtime_settings \<Rightarrow> runtime_state \<Rightarrow> string \<Rightarrow> json \<Rightarrow> exc + infer_response" where
  "runtime_infer F st r request_id body =
     bind_result (checked (under ''body'' (InferRequest body))) (\<lambda>txt.
     if \<not> rt_ready r then Inl runtime_not_ready
     else (case rt_classifier r of
             None \<Rightarrow> Inl (PyExc AttributeError)
           | Some c \<Rightarrow>
               (case predict F c txt of
                  Inl e \<Rightarrow> Inl (PyExc e)
                | Inr p \<Rightarrow>
                    Inr \<lparr> ir_model = rs_model_name st, ir_version = rs_model_version st,
                          ir_label = pr_label p, ir_confidence = pr_confidence p,
                          ir_request_id = request_id \<rparr>)))"

text \<open>
  The handler of validation errors; the details are pydantic's rendering, which \<open>JSONResponse\<close> may
  refuse to encode.
\<close>

definition runtime_validation_error ::
  "(violation \<Rightarrow> dict) \<Rightarrow> string \<Rightarrow> violation list \<Rightarrow> py_error + http_response" where
  "runtime_validation_error render rid errors =
     (let details = JList (map (\<lambda>e. JDict (render e)) errors) in
      if encodable details
      then Inr (422, JDict [(''error'', JDict
        [(''code'', JStr ''validation_error''),
         (''message'', JStr ''The inference request did not satisfy the runtime schema.''),
         (''request_id'', JStr rid),
         (''details'', details)])])
      else Inl ValueError)"

text \<open>The life of a process: it starts and stops, and answers requests in between (or before, or after).\<close>

inductive runtime_reachable :: "runtime_settings \<Rightarrow> runtime_state \<Rightarrow> bool" for st where
  created: "runtime_reachable st create_runtime"
| started: "runtime_reachable st r \<Longrightarrow> runtime_reachable st (snd (runtime_start st r))"
| stopped: "runtime_reachable st r \<Longrightarrow> runtime_reachable st (runtime_stop r)"

section \<open>The settings and the life cycle\<close>

definition limits_positive :: "runtime_settings \<Rightarrow> bool" where
  "limits_positive st \<longleftrightarrow>
     0 < rs_max_request_bytes st \<and> 0 < rs_server_port st \<and> rs_server_port st \<le> 65535 \<and>
     0 < rs_server_limit_concurrency st \<and> 0 < rs_server_timeout_keep_alive_seconds st \<and>
     0 < rs_server_timeout_graceful_shutdown_seconds st"

definition version_baked :: "runtime_settings \<Rightarrow> bool" where
  "version_baked st \<longleftrightarrow>
     rs_baked_model_version st \<in> {''v1'', ''v2''} \<and> rs_model_version st = rs_baked_model_version st"

lemma require_positive_ok: "require_positive limits = Inr u \<longleftrightarrow> (\<forall>(name, value) \<in> set limits. 0 < value)"
  by (induction limits) (auto split: if_splits)

lemma guard_Inr_iff: "(if b then Inl e else m) = Inr x \<longleftrightarrow> \<not> b \<and> m = Inr x"
  by simp

lemma runtime_post_init_ok:
  "runtime_post_init st = Inr st' \<longleftrightarrow>
     st' = st \<and> dns_label (rs_model_name st) \<and> version_baked st \<and> limits_positive st"
proof -
  have "\<not> (\<not> rx_match MODEL_NAME_PATTERN s \<or> 63 < length s) \<longleftrightarrow> dns_label s" for s
    unfolding MODEL_NAME_PATTERN_def resource_name_rx_def [symmetric] resource_name_lang
    by (auto simp: dns_label_def Suc_le_eq)
  then show ?thesis
    unfolding runtime_post_init_def guard_Inr_iff bind_result_Inr_iff require_positive_ok
      version_baked_def limits_positive_def
    by (simp add: not_less) (meson)
qed

lemma runtime_from_env_ok:
  assumes "runtime_from_env env = Inr st"
  shows "dns_label (rs_model_name st)" "version_baked st" "limits_positive st"
  using assms unfolding runtime_from_env_def Let_def
  by (elim bind_InrE; simp only: runtime_post_init_ok)+

lemma versions_supported: "version_baked st \<Longrightarrow> \<exists>c. SentimentClassifier (rs_model_version st) = Inr c"
  by (auto simp: version_baked_def SentimentClassifier_def VERSIONED_WEIGHTS_def)

lemma runtime_start_ok:
  assumes "SentimentClassifier (rs_model_version st) = Inr c"
  shows "runtime_start st r = (Inr (), r\<lparr> rt_classifier := Some c, rt_ready := True \<rparr>)"
  using assms by (simp add: runtime_start_def)

lemma reachable_classifier:
  assumes "runtime_reachable st r" and "SentimentClassifier (rs_model_version st) = Inr c"
  shows "rt_ready r \<longrightarrow> rt_classifier r = Some c"
  using assms(1) by induction (simp_all add: create_runtime_def runtime_start_ok [OF assms(2)] runtime_stop_def)

lemma InferRequest_text:
  "InferRequest (JDict [(''text'', JStr s)]) = Inr t \<longleftrightarrow>
     t = rust_trim s \<and> 1 \<le> length t \<and> length t \<le> 4096"
  by (auto simp: InferRequest_def field_str_def BoundedText_def checked_iffs)

lemma InferRequest_ok: "InferRequest v = Inr t \<Longrightarrow> 1 \<le> length t \<and> length t \<le> 4096"
  by (auto simp: InferRequest_def field_str_def BoundedText_def checked_iffs split: option.splits)

lemma predict_only_overflows: "predict F c txt = Inl e \<Longrightarrow> e = OverflowError"
  by (auto simp: predict_def bind_result_Inl_iff positive_probability_def split: option.splits if_splits)

section \<open>The copied middleware\<close>

lemma runtime_header_eq: "runtime_header = header"
  by (intro ext) (simp add: runtime_header_def header_def)

lemma runtime_read_body_eq: "runtime_read_body = read_body"
proof (intro ext)
  show "runtime_read_body n k b ms = read_body n k b ms" for n k b ms
    by (induction n k b ms rule: read_body.induct) (simp_all add: Let_def)
qed

lemma runtime_body_limit_eq: "runtime_body_limit = body_limit"
  by (intro ext) (simp add: runtime_body_limit_def body_limit_def declared_too_large_def
      runtime_header_eq runtime_read_body_eq)

lemma runtime_replay_buffered: "map (runtime_replay ms) [0..<length ms] = ms"
  by (rule nth_equalityI) (simp_all add: runtime_replay_def)

section \<open>Properties\<close>

text \<open>
  (C33) The runtime serves the model version it was built with. Whenever the configuration is
  accepted, the requested version is the baked one and one of the two the classifier knows, every
  limit is positive and the port is a port; so starting never fails, and in every state the process
  can be in, an inference request is refused for its body, or for the runtime not being ready, or is
  answered with the configured model and version and the prediction of exactly that version's
  classifier. The only other outcome is an overflow in the prediction.
\<close>

theorem runtime_serves_its_version:
  assumes "runtime_from_env env = Inr st" and "runtime_reachable st r"
  shows "version_baked st \<and> limits_positive st \<and> dns_label (rs_model_name st) \<and>
    fst (runtime_start st r) = Inr () \<and>
    (\<exists>c. SentimentClassifier (rs_model_version st) = Inr c \<and>
      (case runtime_infer F st r rid body of
         Inl e \<Rightarrow> (\<exists>vs. InferRequest body = Inl vs) \<or> (\<not> rt_ready r \<and> e = runtime_not_ready) \<or>
           (\<exists>txt. InferRequest body = Inr txt \<and> predict F c txt = Inl OverflowError \<and>
              e = PyExc OverflowError)
       | Inr a \<Rightarrow> rt_ready r \<and> (\<exists>txt p. InferRequest body = Inr txt \<and> predict F c txt = Inr p \<and>
           a = \<lparr> ir_model = rs_model_name st, ir_version = rs_model_version st,
                 ir_label = pr_label p, ir_confidence = pr_confidence p, ir_request_id = rid \<rparr>)))"
proof -
  note ok = runtime_from_env_ok [OF assms(1)]
  obtain c where c: "SentimentClassifier (rs_model_version st) = Inr c"
    using versions_supported [OF ok(2)] by blast
  have "rt_ready r \<Longrightarrow> rt_classifier r = Some c" using reachable_classifier [OF assms(2) c] by simp
  then have "case runtime_infer F st r rid body of
         Inl e \<Rightarrow> (\<exists>vs. InferRequest body = Inl vs) \<or> (\<not> rt_ready r \<and> e = runtime_not_ready) \<or>
           (\<exists>txt. InferRequest body = Inr txt \<and> predict F c txt = Inl OverflowError \<and>
              e = PyExc OverflowError)
       | Inr a \<Rightarrow> rt_ready r \<and> (\<exists>txt p. InferRequest body = Inr txt \<and> predict F c txt = Inr p \<and>
           a = \<lparr> ir_model = rs_model_name st, ir_version = rs_model_version st,
                 ir_label = pr_label p, ir_confidence = pr_confidence p, ir_request_id = rid \<rparr>)"
    by (cases "InferRequest body"; cases "rt_ready r")
      (auto simp: runtime_infer_def under_def dest: predict_only_overflows split: sum.splits)
  then show ?thesis using ok c by (auto simp: runtime_start_ok [OF c])
qed

definition demo_environ :: environ where
  "demo_environ = Map.empty(''KERNEXYS_BAKED_MODEL_VERSION'' \<mapsto> ''v2'')"

definition v2_settings :: runtime_settings where
  "v2_settings =
     \<lparr> rs_model_name = ''sentiment'', rs_model_version = ''v2'', rs_baked_model_version = ''v2'',
       rs_max_request_bytes = 16384, rs_server_host = ''0.0.0.0'', rs_server_port = 8080,
       rs_server_limit_concurrency = 32, rs_server_timeout_keep_alive_seconds = 5,
       rs_server_timeout_graceful_shutdown_seconds = 20 \<rparr>"

lemma demo_environ_settings: "runtime_from_env demo_environ = Inr v2_settings"
  by code_simp

theorem runtime_serves_its_version_witness:
  "\<exists>a. runtime_infer plain_floats v2_settings (snd (runtime_start v2_settings create_runtime)) ''r-1''
      (JDict [(''text'', JStr ''fast and reliable'')]) = Inr a \<and> ir_version a = ''v2'' \<and>
      ir_label a = ''positive''"
proof -
  let ?r = "snd (runtime_start v2_settings create_runtime)"
  let ?b = "JDict [(''text'', JStr ''fast and reliable'')]"
  have "rt_ready ?r" "InferRequest ?b = Inr ''fast and reliable''"
    "case SentimentClassifier ''v2'' of Inl e \<Rightarrow> False
     | Inr c \<Rightarrow> map_sum id pr_label (predict plain_floats c ''fast and reliable'') = Inr ''positive''"
    by code_simp+
  then show ?thesis
    using runtime_serves_its_version [OF demo_environ_settings started [OF created],
        where F = plain_floats and rid = "''r-1''" and body = ?b]
    by (auto simp: v2_settings_def split: sum.splits)
qed

lemma bad_text_trim: "rust_trim (bad_text n) = bad_text n"
proof -
  have d: "\<not> rust_isspace (CHR ''d'')" by (simp add: rust_isspace_def)
  have "rev (bad_text n) = CHR ''d'' # tl (rev (bad_text n))"
  proof (cases n)
    case (Suc k)
    have "concat (replicate n '' bad'') = concat (replicate k '' bad'') @ '' bad''"
      by (simp only: Suc replicate_append_same [symmetric] replicate_Suc) simp
    then show ?thesis by (simp add: bad_text_def)
  qed (simp add: bad_text_def)
  then have "dropWhile rust_isspace (rev (bad_text n)) = rev (bad_text n)"
    by (metis (full_types) dropWhile.simps(2) d)
  moreover have "dropWhile rust_isspace (bad_text n) = bad_text n"
    by (simp add: bad_text_def rust_isspace_def)
  ultimately show ?thesis by (simp add: rust_trim_def strip_by_def)
qed

text \<open>
  (C39) A text within the accepted length can make the prediction overflow: with the weights of
  version v1, 999 repetitions of ''bad'' score below -1298, \<open>math.exp\<close> raises an \<open>OverflowError\<close>
  that the runtime handles nowhere, and the accepted request ends in a bare server error (counted as
  an error) whatever the double arithmetic in use.
\<close>

theorem long_negative_text_fails:
  assumes "double F" and "rs_model_version st = ''v1''" and "runtime_reachable st r" and "rt_ready r"
  shows "(\<exists>txt. InferRequest (JDict [(''text'', JStr (bad_text 999))]) = Inr txt) \<and>
    runtime_infer F st r rid (JDict [(''text'', JStr (bad_text 999))]) = Inl (PyExc OverflowError)"
proof -
  have v: "InferRequest (JDict [(''text'', JStr (bad_text 999))]) = Inr (bad_text 999)"
    by (simp add: InferRequest_text bad_text_length bad_text_trim)
  have "rt_classifier r = Some v1_classifier"
    using reachable_classifier [OF assms(3)] assms(2,4) v1_classifier by simp
  then show ?thesis using v assms(4) bad_text_overflows [OF assms(1)]
    by (simp add: runtime_infer_def under_def)
qed

definition v1_settings :: runtime_settings where
  "v1_settings = v2_settings\<lparr> rs_model_version := ''v1'', rs_baked_model_version := ''v1'' \<rparr>"

theorem long_negative_text_fails_witness:
  "runtime_infer plain_floats v1_settings (snd (runtime_start v1_settings create_runtime)) ''r-2''
     (JDict [(''text'', JStr (bad_text 999))]) = Inl (PyExc OverflowError)"
proof -
  have "rs_model_version v1_settings = ''v1''" "rt_ready (snd (runtime_start v1_settings create_runtime))"
    by code_simp+
  then show ?thesis
    using long_negative_text_fails [OF exact.double_axioms _ started [OF created]] by blast
qed

end
