(* ===== verification/Json_Text.thy ===== *)
theory Json_Text
  imports Json
begin

text \<open>
  The printer of \<open>json.dumps\<close> with the separators, indentation and key order as a \<open>layout\<close>, and its
  round trip: whatever white space a layout puts between the tokens, the parser reads the value
  back. The layouts in use are the default one, the compact one of the log lines and the indented
  one of the command line.
\<close>

section \<open>Printing\<close>

record layout =
  lay_open :: "nat \<Rightarrow> string"
  lay_item :: "nat \<Rightarrow> string"
  lay_close :: "nat \<Rightarrow> string"
  lay_key :: string
  sort_keys :: bool

definition key_order :: "layout \<Rightarrow> (string \<times> 'a) list \<Rightarrow> (string \<times> 'a) list" where
  "key_order L kvs = (if sort_keys L then sort_key fst kvs else kvs)"

fun json_print :: "(string \<Rightarrow> string) \<Rightarrow> layout \<Rightarrow> nat \<Rightarrow> json \<Rightarrow> string" where
  "json_print fr L k JNull = ''null''"
| "json_print fr L k (JBool b) = (if b then ''true'' else ''false'')"
| "json_print fr L k (JInt i) = show_int i"
| "json_print fr L k (JFloat t) = fr t"
| "json_print fr L k (JStr s) = dump_str s"
| "json_print fr L k (JList vs) =
     (if vs = [] then ''[]''
      else ''['' @ lay_open L (Suc k) @
        join ('','' @ lay_item L (Suc k)) (map (json_print fr L (Suc k)) vs) @ lay_close L k @ '']'')"
| "json_print fr L k (JDict kvs) =
     (if kvs = [] then ''{}''
      else ''{'' @ lay_open L (Suc k) @
        join ('','' @ lay_item L (Suc k))
          (map (\<lambda>(key, t). dump_str key @ '':'' @ lay_key L @ t)
            (key_order L (map (\<lambda>(key, v). (key, json_print fr L (Suc k) v)) kvs))) @
        lay_close L k @ ''}'')"

text \<open>
  \<open>json.dumps(v)\<close>, \<open>json.dumps(v, separators=(",", ":"))\<close> and
  \<open>json.dumps(v, indent=2, sort_keys=True)\<close>.
\<close>

definition default_layout :: layout where
  "default_layout =
     \<lparr> lay_open = (\<lambda>_. []), lay_item = (\<lambda>_. '' ''), lay_close = (\<lambda>_. []), lay_key = '' '',
       sort_keys = False \<rparr>"

definition compact_layout :: layout where
  "compact_layout =
     \<lparr> lay_open = (\<lambda>_. []), lay_item = (\<lambda>_. []), lay_close = (\<lambda>_. []), lay_key = [],
       sort_keys = False \<rparr>"

definition newline_indent :: "nat \<Rightarrow> string" where
  "newline_indent k = CHR 0x0A # replicate (2 * k) (CHR '' '')"

definition indented_layout :: layout where
  "indented_layout =
     \<lparr> lay_open = newline_indent, lay_item = newline_indent, lay_close = newline_indent,
       lay_key = '' '', sort_keys = True \<rparr>"

section \<open>The round trip\<close>

definition blank :: "string \<Rightarrow> bool" where
  "blank s \<longleftrightarrow> (\<forall>c \<in> set s. is_ws c)"

definition layout_ok :: "layout \<Rightarrow> bool" where
  "layout_ok L \<longleftrightarrow> (\<forall>k. blank (lay_open L k) \<and> blank (lay_item L k) \<and> blank (lay_close L k)) \<and>
     blank (lay_key L)"

lemma layouts_ok: "layout_ok default_layout" "layout_ok compact_layout" "layout_ok indented_layout"
  by (simp_all add: layout_ok_def default_layout_def compact_layout_def indented_layout_def
      newline_indent_def blank_def is_ws_def)

definition reorder :: "layout \<Rightarrow> json \<Rightarrow> json" where
  "reorder L v = (if sort_keys L then jsort v else v)"

lemma skip_blank: "blank w \<Longrightarrow> skip_ws (w @ s) = skip_ws s"
  by (induction w) (auto simp: blank_def)

lemma stops_blank: "blank w \<Longrightarrow> stops r \<Longrightarrow> stops (w @ r)"
  by (cases w) (auto simp: blank_def stops_def)

lemma print_head: "jwf fr v \<Longrightarrow> \<exists>c cs. json_print fr L k v = c # cs \<and> value_head c"
proof (cases v)
  case (JInt i)
  then show ?thesis using dumps_head [of fr v] by simp
next
  case (JFloat t)
  moreover assume "jwf fr v"
  ultimately show ?thesis using dumps_head [of fr v] by simp
qed (auto simp: value_head_def is_ws_def dump_str_def)

lemma skip_ws_print: "jwf fr v \<Longrightarrow> skip_ws (json_print fr L k v @ r) = json_print fr L k v @ r"
  using print_head [of fr v L k] skip_ws_head by fastforce

lemma key_order_map: "key_order L (map (\<lambda>(key, v). (key, f v)) kvs) = map (\<lambda>(key, v). (key, f v)) (key_order L kvs)"
  by (simp add: key_order_def sort_key_map_snd)

lemma key_order_props:
  "set (key_order L kvs) = set kvs" "distinct (map fst (key_order L kvs)) \<longleftrightarrow> distinct (map fst kvs)"
  "key_order L kvs = [] \<longleftrightarrow> kvs = []"
  "sum_list (map g (key_order L kvs)) = (sum_list (map g kvs) :: nat)"
  by (auto simp: key_order_def sum_list_sort_key distinct_map)

definition prints_back :: "(string \<Rightarrow> string) \<Rightarrow> layout \<Rightarrow> json \<Rightarrow> bool" where
  "prints_back fr L v \<longleftrightarrow> (\<forall>n k r. jfuel v \<le> n \<longrightarrow> stops r \<longrightarrow>
     parse_value n (json_print fr L k v @ r) = Some (reorder L v, r))"

lemma parse_items_print:
  assumes "layout_ok L" "vs \<noteq> []" and "\<forall>v \<in> set vs. jwf fr v \<and> prints_back fr L v"
    and "sum_list (map (\<lambda>v. Suc (jfuel v)) vs) \<le> n"
  shows "parse_items n (join ('','' @ lay_item L k) (map (json_print fr L k) vs) @ lay_close L j @ CHR '']'' # r) =
    Some (map (reorder L) vs, r)"
  using assms(2-)
proof (induction vs arbitrary: n rule: induct_list012)
  case (2 v)
  have "blank (lay_close L j)" using assms(1) by (simp add: layout_ok_def)
  then show ?case using 2
    by (cases n) (auto simp: prints_back_def not_ws_punct skip_blank stops_blank)
next
  case (3 v w vs)
  then obtain m where n: "n = Suc m" by (cases n) auto
  from 3(4,5) have v: "parse_value m (json_print fr L k v @ x) = Some (reorder L v, x)" if "stops x" for x
    using that by (auto simp: n prints_back_def)
  have "parse_items m (join ('','' @ lay_item L k) (map (json_print fr L k) (w # vs)) @ lay_close L j @ CHR '']'' # r) =
      Some (map (reorder L) (w # vs), r)"
    by (rule 3(2)) (use 3 n in auto)
  moreover obtain u where "join ('','' @ lay_item L k) (map (json_print fr L k) (w # vs)) = json_print fr L k w @ u"
    by (cases vs) auto
  moreover have "blank (lay_item L k)" using assms(1) by (simp add: layout_ok_def)
  ultimately show ?case using 3(4)
    by (simp add: n v not_ws_punct skip_blank skip_ws_print cons_fst_def del: json_print.simps)
qed simp

definition print_member :: "(string \<Rightarrow> string) \<Rightarrow> layout \<Rightarrow> nat \<Rightarrow> string \<times> json \<Rightarrow> string" where
  "print_member fr L k kv = dump_str (fst kv) @ '':'' @ lay_key L @ json_print fr L k (snd kv)"

lemma print_member_Cons:
  "print_member fr L k kv @ r = CHR 0x22 # concat (map esc_char (fst kv)) @
     CHR 0x22 # CHR '':'' # lay_key L @ json_print fr L k (snd kv) @ r"
  by (simp add: print_member_def dump_str_def)

lemma parse_members_print:
  assumes "layout_ok L" "kvs \<noteq> []"
    and "\<forall>kv \<in> set kvs. jwf fr (snd kv) \<and> prints_back fr L (snd kv)"
    and "sum_list (map (\<lambda>kv. Suc (jfuel (snd kv))) kvs) \<le> n"
  shows "parse_members n (join ('','' @ lay_item L k) (map (print_member fr L k) kvs) @ lay_close L j @ CHR ''}'' # r) =
      Some (map (\<lambda>(key, v). (key, reorder L v)) kvs, r)"
  using assms(2-)
proof (induction kvs arbitrary: n rule: induct_list012)
  case (2 kv)
  have "blank (lay_close L j)" "blank (lay_key L)" using assms(1) by (simp_all add: layout_ok_def)
  then show ?case using 2
    by (cases n) (auto simp: prints_back_def not_ws_punct print_member_Cons parse_dump_chars
        skip_ws_print skip_blank stops_blank case_prod_beta simp del: json_print.simps)
next
  case (3 kv w kvs)
  then obtain m where n: "n = Suc m" by (cases n) auto
  from 3(4,5) have v: "parse_value m (json_print fr L k (snd kv) @ x) = Some (reorder L (snd kv), x)"
    if "stops x" for x using that by (auto simp: n prints_back_def)
  have "parse_members m (join ('','' @ lay_item L k) (map (print_member fr L k) (w # kvs)) @ lay_close L j @ CHR ''}'' # r) =
      Some (map (\<lambda>(key, v). (key, reorder L v)) (w # kvs), r)"
    by (rule 3(2)) (use 3 n in auto)
  moreover obtain u where u: "join ('','' @ lay_item L k) (map (print_member fr L k) (w # kvs)) = CHR 0x22 # u"
    by (cases kvs) (auto simp: print_member_def dump_str_def)
  moreover have "blank (lay_item L k)" "blank (lay_key L)" using assms(1) by (simp_all add: layout_ok_def)
  ultimately show ?case using 3(4)
    by (simp add: n v not_ws_punct skip_ws_print skip_blank cons_fst_def print_member_Cons parse_dump_chars
        u case_prod_beta del: json_print.simps parse_chars.simps)
qed simp

lemma print_JDict:
  "kvs \<noteq> [] \<Longrightarrow> json_print fr L k (JDict kvs) @ r =
     CHR ''{'' # lay_open L (Suc k) @ join ('','' @ lay_item L (Suc k))
       (map (print_member fr L (Suc k)) (key_order L kvs)) @ lay_close L k @ CHR ''}'' # r"
  by (simp add: key_order_map print_member_def [abs_def] case_prod_beta comp_def)

lemma reorder_JDict: "reorder L (JDict kvs) = JDict (map (\<lambda>(key, v). (key, reorder L v)) (key_order L kvs))"
  by (simp add: reorder_def key_order_def jsort_JDict del: jsort.simps)

lemma prints_back_JDict:
  assumes L: "layout_ok L" and "jwf fr (JDict kvs)" and "\<forall>kv \<in> set kvs. prints_back fr L (snd kv)"
  shows "prints_back fr L (JDict kvs)"
proof (unfold prints_back_def, intro allI impI)
  fix n k r
  assume n: "jfuel (JDict kvs) \<le> n" and r: "stops r"
  then obtain m where m: "n = Suc m" by (cases n) auto
  let ?ks = "key_order L kvs"
  show "parse_value n (json_print fr L k (JDict kvs) @ r) = Some (reorder L (JDict kvs), r)"
  proof (cases "kvs = []")
    case True
    then show ?thesis by (simp add: m not_ws_punct reorder_def)
  next
    case False
    have p: "parse_members m (join ('','' @ lay_item L (Suc k)) (map (print_member fr L (Suc k)) ?ks)
        @ lay_close L k @ CHR ''}'' # r) = Some (map (\<lambda>(key, v). (key, reorder L v)) ?ks, r)"
      by (rule parse_members_print) (use False assms n m in \<open>auto simp: key_order_props\<close>)
    have "map fst (map (\<lambda>(key, v). (key, reorder L v)) ?ks) = map fst ?ks" by auto
    then have d: "distinct (map fst (map (\<lambda>(key, v). (key, reorder L v)) ?ks))"
      using assms(2) key_order_props(2) [of L kvs] by (simp only: jwf.simps)
    obtain u where u: "join ('','' @ lay_item L (Suc k)) (map (print_member fr L (Suc k)) ?ks) = CHR 0x22 # u"
      using False by (cases "('','' @ lay_item L (Suc k), map (print_member fr L (Suc k)) ?ks)" rule: join.cases)
        (auto simp: print_member_def dump_str_def key_order_props)
    have "blank (lay_open L (Suc k))" using L by (simp add: layout_ok_def)
    moreover have "json_print fr L k (JDict kvs) @ r =
        CHR ''{'' # lay_open L (Suc k) @ CHR 0x22 # u @ lay_close L k @ CHR ''}'' # r"
      using print_JDict [OF False, of fr L k r] unfolding u by simp
    ultimately show ?thesis using p unfolding u
      by (simp add: m reorder_JDict not_ws_punct skip_blank dict_of_pairs_distinct [OF d]
          del: json_print.simps)
  qed
qed

lemma prints_back_JList:
  assumes L: "layout_ok L" and "jwf fr (JList vs)" and "\<forall>v \<in> set vs. prints_back fr L v"
  shows "prints_back fr L (JList vs)"
proof (unfold prints_back_def, intro allI impI)
  fix n k r
  assume n: "jfuel (JList vs) \<le> n" and r: "stops r"
  then obtain m where m: "n = Suc m" by (cases n) auto
  show "parse_value n (json_print fr L k (JList vs) @ r) = Some (reorder L (JList vs), r)"
  proof (cases vs)
    case Nil
    then show ?thesis by (simp add: m not_ws_punct reorder_def)
  next
    case (Cons v ws)
    have p: "parse_items m (join ('','' @ lay_item L (Suc k)) (map (json_print fr L (Suc k)) vs)
        @ lay_close L k @ CHR '']'' # r) = Some (map (reorder L) vs, r)"
      by (rule parse_items_print) (use L Cons assms n m in auto)
    obtain c cs where c: "join ('','' @ lay_item L (Suc k)) (map (json_print fr L (Suc k)) vs) = c # cs" "value_head c"
      using print_head [of fr v L "Suc k"] assms(2) by (cases ws) (auto simp: Cons)
    have "blank (lay_open L (Suc k))" using L by (simp add: layout_ok_def)
    moreover have "reorder L (JList vs) = JList (map (reorder L) vs)"
      by (simp add: reorder_def map_idI)
    ultimately show ?thesis using p c Cons
      by (simp add: m value_head_def skip_blank del: list.map)
  qed
qed

lemma prints_back_all: "layout_ok L \<Longrightarrow> jwf fr v \<Longrightarrow> prints_back fr L v"
proof (induction v)
  case (JInt i)
  then show ?case using parse_value_number [OF parse_number_show_int]
    by (auto simp: prints_back_def Suc_le_eq gr0_conv_Suc reorder_def)
next
  case (JFloat t)
  then show ?case using parse_value_number [of t "JFloat t"]
    by (auto simp: prints_back_def Suc_le_eq gr0_conv_Suc reorder_def)
next
  case (JStr s)
  then show ?case
    by (auto simp: prints_back_def Suc_le_eq gr0_conv_Suc dump_str_def parse_dump_chars reorder_def
        simp del: parse_chars.simps)
next
  case (JList vs)
  then show ?case by (intro prints_back_JList) auto
next
  case (JDict kvs)
  then show ?case by (intro prints_back_JDict) (auto simp: snds.simps)
qed (auto simp: prints_back_def Suc_le_eq gr0_conv_Suc parse_const_def strip_prefix_def reorder_def)

lemma length_join_ge: "sep \<noteq> [] \<Longrightarrow> sum_list (map (\<lambda>x. Suc (length x)) xs) \<le> Suc (length (join sep xs))"
proof (induction sep xs rule: join.induct)
  case (3 sep x y xs)
  then show ?case by (cases sep) auto
qed simp_all

lemma jfuel_le_print: "jwf fr v \<Longrightarrow> jfuel v \<le> length (json_print fr L k v)"
proof (induction v arbitrary: k)
  case (JInt i)
  then show ?case using print_head [of fr "JInt i" L k] by fastforce
next
  case (JFloat i)
  then show ?case using print_head [of fr "JFloat i" L k] by fastforce
next
  case (JList vs)
  have "sum_list (map (\<lambda>v. Suc (jfuel v)) vs) \<le>
      sum_list (map (\<lambda>v. Suc (length (json_print fr L (Suc k) v))) vs)"
    using JList by (intro sum_list_mono) auto
  then show ?case
    using length_join_ge [of "'','' @ lay_item L (Suc k)" "map (json_print fr L (Suc k)) vs"]
    by (auto simp: comp_def)
next
  case (JDict kvs)
  have "jfuel (snd kv) \<le> length (print_member fr L (Suc k) kv)" if "kv \<in> set kvs" for kv
  proof -
    have "jfuel (snd kv) \<le> length (json_print fr L (Suc k) (snd kv))"
      by (rule JDict.IH [of kv]) (use JDict.prems that in \<open>auto simp: snds.simps\<close>)
    then show ?thesis by (simp add: print_member_def)
  qed
  then have "sum_list (map (\<lambda>kv. Suc (jfuel (snd kv))) kvs) \<le>
      sum_list (map (\<lambda>kv. Suc (length (print_member fr L (Suc k) kv))) kvs)"
    by (intro sum_list_mono) auto
  then show ?case
    using length_join_ge [of "'','' @ lay_item L (Suc k)" "map (print_member fr L (Suc k)) (key_order L kvs)"]
      print_JDict [of kvs fr L k "[]"]
    by (cases "kvs = []", simp)
      (auto simp: comp_def key_order_props simp del: json_print.simps)
qed (auto simp: dump_str_def)

lemma json_loads_print:
  assumes "layout_ok L" and "jwf fr v"
  shows "json_loads (json_print fr L k v) = Some (reorder L v)"
proof -
  have "parse_value (Suc (length (json_print fr L k v))) (json_print fr L k v @ []) = Some (reorder L v, [])"
    using prints_back_all [OF assms] jfuel_le_print [OF assms(2), of L k] unfolding prints_back_def
    by (metis le_SucI stops_simps(1))
  then show ?thesis
    using skip_ws_print [OF assms(2), of L k "[]"] by (simp add: json_loads_def del: parse_value.simps)
qed

section \<open>One line\<close>

definition one_line :: "string \<Rightarrow> bool" where
  "one_line s \<longleftrightarrow> CHR 0x0A \<notin> set s"

definition flat :: "layout \<Rightarrow> bool" where
  "flat L \<longleftrightarrow> (\<forall>k. one_line (lay_open L k) \<and> one_line (lay_item L k) \<and> one_line (lay_close L k)) \<and>
     one_line (lay_key L)"

lemma layouts_flat: "flat default_layout" "flat compact_layout"
  by (simp_all add: flat_def one_line_def default_layout_def compact_layout_def)

lemma one_line_join: "one_line sep \<Longrightarrow> \<forall>x \<in> set xs. one_line x \<Longrightarrow> one_line (join sep xs)"
  by (induction sep xs rule: join.induct) (auto simp: one_line_def)

lemma hex_char_visible: "d < 16 \<Longrightarrow> hex_char d \<noteq> CHR 0x0A"
  by (auto simp: hex_char_def of_char_eq_iff [symmetric] dest!: arg_cong [where f = "of_char :: char \<Rightarrow> nat"])

lemma one_line_esc_char: "one_line (esc_char c)"
proof -
  have n: "(of_char c :: nat) div 16 < 16"
    using nat_of_char_less_256 [of c] by (simp add: less_mult_imp_div_less)
  show ?thesis
    using hex_char_visible [OF n] hex_char_visible [of "of_char c mod 16"]
    by (auto simp: one_line_def esc_char_def Let_def)
qed

lemma one_line_dump_str: "one_line (dump_str s)"
  using one_line_esc_char by (auto simp: one_line_def dump_str_def)

lemma one_line_show_int: "one_line (show_int i)"
proof -
  have "CHR 0x0A \<notin> set (show_nat n)" for n using show_nat_digits [of n] by (auto simp: is_digit_def)
  then show ?thesis by (simp add: one_line_def show_int_def)
qed

lemma one_line_print:
  assumes "\<And>t. one_line (fr t)" and "flat L"
  shows "one_line (json_print fr L k v)"
proof (induction v arbitrary: k)
  case (JList vs)
  moreover have "one_line ('','' @ lay_item L (Suc k))" using assms(2) by (simp add: flat_def one_line_def)
  ultimately have "one_line (join ('','' @ lay_item L (Suc k)) (map (json_print fr L (Suc k)) vs))"
    by (intro one_line_join) auto
  then show ?case using assms(2) by (auto simp: one_line_def flat_def)
next
  case (JDict kvs)
  have "one_line (print_member fr L (Suc k) kv)" if "kv \<in> set kvs" for kv
    using one_line_dump_str [of "fst kv"] JDict [of kv "snd kv"] that assms(2)
    by (auto simp: print_member_def one_line_def flat_def snds.simps)
  moreover have "one_line ('','' @ lay_item L (Suc k))" using assms(2) by (simp add: flat_def one_line_def)
  ultimately have "one_line (join ('','' @ lay_item L (Suc k))
      (map (print_member fr L (Suc k)) (key_order L kvs)))"
    by (intro one_line_join) (auto simp: key_order_props)
  then show ?case using assms(2) print_JDict [of kvs fr L k "[]"]
    by (cases "kvs = []") (auto simp: one_line_def flat_def)
qed (use assms one_line_dump_str one_line_show_int in \<open>auto simp: one_line_def\<close>)

end
