(* ===== verification/Cli.thy ===== *)
theory Cli
  imports Errors Json_Text
begin

text \<open>
  The command line client \<open>kernexysctl\<close> of \<open>app/cli.py\<close>: the request a command turns into, and what
  is printed and returned for each outcome of the HTTP call. The parsed arguments are a record; the
  call itself is an argument.
\<close>

section \<open>Arguments\<close>

datatype cli_command =
    Deploy (cmd_model: string) (cmd_version: string) (cmd_replicas: int) (cmd_port: int)
      (cmd_request: "string list") (cmd_limit: "string list")
  | Status
  | Delete
  | Rollback string

record cli_arguments =
  api_url :: string
  timeout :: rat
  cmd :: cli_command
  arg_name :: string
  arg_namespace :: string

section \<open>Percent encoding\<close>

text \<open>\<open>quote(text, safe='')\<close>: the UTF-8 bytes, each kept when unreserved and escaped otherwise.\<close>

definition utf8 :: "char \<Rightarrow> nat list" where
  "utf8 c = (if cp c < 128 then [cp c] else [192 + cp c div 64, 128 + cp c mod 64])"

definition unreserved :: "nat \<Rightarrow> bool" where
  "unreserved b \<longleftrightarrow> b < 128 \<and> (is_alnum_ascii (char_of b) \<or> char_of b \<in> set ''_.-~'')"

definition hex_upper :: "nat \<Rightarrow> char" where
  "hex_upper d = (if d < 10 then char_of (48 + d) else char_of (55 + d))"

definition quote_byte :: "nat \<Rightarrow> string" where
  "quote_byte b = (if unreserved b then [char_of b] else [CHR ''%'', hex_upper (b div 16), hex_upper (b mod 16)])"

definition quote :: "string \<Rightarrow> string" where
  "quote s = concat (map quote_byte (concat (map utf8 s)))"

definition deployment_path :: "string \<Rightarrow> string \<Rightarrow> string" where
  "deployment_path namespace name = ''/v1/deployments/'' @ quote namespace @ ''/'' @ quote name"

section \<open>The request\<close>

definition py_partition :: "char \<Rightarrow> string \<Rightarrow> string \<times> string \<times> string" where
  "py_partition sep s =
     (let name = takeWhile (\<lambda>c. c \<noteq> sep) s; rest = dropWhile (\<lambda>c. c \<noteq> sep) s in
      (name, take 1 rest, drop 1 rest))"

text \<open>A usage error ends the program with its message; the results are the error or the value.\<close>

fun key_values_from :: "(string \<times> string) list \<Rightarrow> string list \<Rightarrow> string + (string \<times> string) list" where
  "key_values_from result [] = Inr result"
| "key_values_from result (value # vs) =
     (let (name, separator, quantity) = py_partition (CHR ''='') value in
      if separator = [] \<or> name = [] \<or> quantity = []
      then Inl (''resource value must be NAME=QUANTITY: '' @ value)
      else key_values_from (AList.update name quantity result) vs)"

definition key_values :: "string list \<Rightarrow> string + (string \<times> string) list" where
  "key_values vs = key_values_from [] vs"

record cli_request =
  rq_url :: string
  rq_data :: "string option"
  rq_request_id :: string
  rq_method :: string

definition cli_payload :: "cli_command \<Rightarrow> string + json option" where
  "cli_payload c =
     (case c of
        Deploy model version replicas port requests limits \<Rightarrow>
          bind_result (key_values requests) (\<lambda>rs.
          bind_result (key_values limits) (\<lambda>ls.
          Inr (Some (JDict
            [(''model'', JStr model), (''version'', JStr version), (''replicas'', JInt replicas),
             (''port'', JInt port),
             (''resources'', JDict [(''requests'', dump_map rs), (''limits'', dump_map ls)])]))))
      | Rollback version \<Rightarrow> Inr (Some (JDict [(''version'', JStr version)]))
      | _ \<Rightarrow> Inr None)"

definition cli_method :: "cli_command \<Rightarrow> string" where
  "cli_method c = (case c of Deploy _ _ _ _ _ _ \<Rightarrow> ''PUT'' | Delete \<Rightarrow> ''DELETE''
     | Rollback _ \<Rightarrow> ''POST'' | Status \<Rightarrow> ''GET'')"

definition cli_path :: "cli_arguments \<Rightarrow> string" where
  "cli_path a = deployment_path (arg_namespace a) (arg_name a) @
     (case cmd a of Rollback _ \<Rightarrow> ''/rollback'' | _ \<Rightarrow> [])"

definition cli_build :: "(string \<Rightarrow> string) \<Rightarrow> string \<Rightarrow> cli_arguments \<Rightarrow> string + cli_request" where
  "cli_build fr uuid a =
     (if timeout a \<le> 0 then Inl ''--timeout must be greater than zero''
      else bind_result (cli_payload (cmd a)) (\<lambda>payload.
        Inr \<lparr> rq_url = rstrip_slash (api_url a) @ cli_path a,
              rq_data = map_option (json_print fr default_layout 0) payload,
              rq_request_id = ''kernexysctl-'' @ uuid,
              rq_method = cli_method (cmd a) \<rparr>))"

section \<open>The outcome\<close>

text \<open>The body of a response: text, or bytes that are not text.\<close>

datatype content = Text string | Undecodable

datatype opened =
    Response content
  | HttpError int content
  | UrlError string
  | OtherError py_error

datatype cli_result =
    Exit int (stdout: "string list") (stderr: "string list")
  | Traceback py_error

definition loads_content :: "content \<Rightarrow> py_error + json" where
  "loads_content c = (case c of
      Undecodable \<Rightarrow> Inl ValueError
    | Text t \<Rightarrow> (case json_loads t of None \<Rightarrow> Inl ValueError | Some v \<Rightarrow> Inr v))"

text \<open>The message of an error body; decoding errors and values that are not dicts give the fallback.\<close>

definition error_message :: "(json \<Rightarrow> string) \<Rightarrow> content \<Rightarrow> string \<Rightarrow> string" where
  "error_message py_str c fallback =
     (case bind_result (loads_content c) (\<lambda>parsed.
           bind_result (dict_get parsed ''error'' (JDict [])) (\<lambda>error.
           dict_get error ''message'' (JStr fallback))) of
        Inl _ \<Rightarrow> fallback
      | Inr (JStr m) \<Rightarrow> m
      | Inr v \<Rightarrow> py_str v)"

definition cli_run ::
  "(string \<Rightarrow> string) \<Rightarrow> (json \<Rightarrow> string) \<Rightarrow> string \<Rightarrow> cli_arguments \<Rightarrow> (cli_request \<Rightarrow> opened) \<Rightarrow> cli_result" where
  "cli_run fr py_str uuid a opener =
     (case cli_build fr uuid a of
        Inl usage \<Rightarrow> Exit 2 [] [usage]
      | Inr rq \<Rightarrow>
          (case opener rq of
             HttpError status c \<Rightarrow>
               Exit 1 [] [error_message py_str c (''control API returned HTTP '' @ show_int status)]
           | UrlError reason \<Rightarrow> Exit 1 [] [''control API request failed: '' @ reason]
           | OtherError e \<Rightarrow> Traceback e
           | Response c \<Rightarrow>
               if c = Text [] then
                 Exit 0 [json_print fr default_layout 0 (JDict
                   [(''deleted'', JBool True), (''name'', JStr (arg_name a)),
                    (''namespace'', JStr (arg_namespace a))])] []
               else (case loads_content c of
                       Inl e \<Rightarrow> Traceback e
                     | Inr v \<Rightarrow> Exit 0 [json_print fr indented_layout 0 v] [])))"

section \<open>Reading a request back\<close>

text \<open>The server's side: the segments of a path, percent decoding, and UTF-8 of Latin-1 text.\<close>

fun segments :: "string \<Rightarrow> string list" where
  "segments [] = [[]]"
| "segments (c # cs) =
     (if c = CHR ''/'' then [] # segments cs
      else (case segments cs of [] \<Rightarrow> [[c]] | seg # segs \<Rightarrow> (c # seg) # segs))"

fun unpercent :: "string \<Rightarrow> nat list" where
  "unpercent (c # h # l # cs) =
     (if c = CHR ''%'' then
        (case (hex_val h, hex_val l) of
           (Some a, Some b) \<Rightarrow> (16 * a + b) # unpercent cs
         | _ \<Rightarrow> cp c # unpercent (h # l # cs))
      else cp c # unpercent (h # l # cs))"
| "unpercent (c # cs) = cp c # unpercent cs"
| "unpercent [] = []"

fun decode_utf8 :: "nat list \<Rightarrow> string" where
  "decode_utf8 [] = []"
| "decode_utf8 (b # bs) =
     (if b < 128 then char_of b # decode_utf8 bs
      else (case bs of [] \<Rightarrow> [] | c # cs \<Rightarrow> char_of ((b - 192) * 64 + (c - 128)) # decode_utf8 cs))"

definition unquote :: "string \<Rightarrow> string" where
  "unquote s = decode_utf8 (unpercent s)"

lemma segments_not_Nil [simp]: "segments s \<noteq> []"
  by (induction s) (auto split: list.splits)

lemma segments_append: "segments (s @ CHR ''/'' # t) = segments s @ segments t"
  by (induction s) (auto split: list.splits)

lemma segments_plain: "CHR ''/'' \<notin> set s \<Longrightarrow> segments s = [s]"
  by (induction s) auto

lemma hex_upper: "d < 16 \<Longrightarrow> hex_val (hex_upper d) = Some d" "d < 16 \<Longrightarrow> hex_upper d \<noteq> CHR ''/''"
  by (auto simp: hex_val_def hex_upper_def Let_def of_char_eq_iff [symmetric]
      dest!: arg_cong [where f = "of_char :: char \<Rightarrow> nat"])

lemma unpercent_plain: "c \<noteq> CHR ''%'' \<Longrightarrow> unpercent (c # cs) = cp c # unpercent cs"
  by (cases cs rule: unpercent.cases) auto

lemma unreserved_char:
  assumes "unreserved b"
  shows "char_of b \<noteq> CHR ''%''" "CHR ''/'' \<noteq> char_of b"
proof -
  have b: "cp (char_of b) = b" using assms by (simp add: unreserved_def)
  have "b \<noteq> 37 \<and> b \<noteq> 47"
  proof (intro conjI notI)
    assume "b = 37"
    moreover have "\<not> unreserved 37" by code_simp
    ultimately show False using assms by simp
  next
    assume "b = 47"
    moreover have "\<not> unreserved 47" by code_simp
    ultimately show False using assms by simp
  qed
  then show "char_of b \<noteq> CHR ''%''" "CHR ''/'' \<noteq> char_of b"
    using b by (auto dest!: arg_cong [where f = "of_char :: char \<Rightarrow> nat"])
qed

lemma unpercent_quote_byte:
  assumes "b < 256"
  shows "unpercent (quote_byte b @ r) = b # unpercent r"
proof (cases "unreserved b")
  case True
  then have "cp (char_of b) = b" and "char_of b \<noteq> CHR ''%''"
    using assms unreserved_char by auto
  then show ?thesis using True by (simp add: quote_byte_def unpercent_plain)
next
  case False
  moreover have "b div 16 < 16" using assms by (simp add: less_mult_imp_div_less)
  ultimately show ?thesis by (simp add: quote_byte_def hex_upper)
qed

lemma utf8_bytes: "\<forall>b \<in> set (utf8 c). b < 256"
proof -
  have "cp c div 64 < 64" using nat_of_char_less_256 [of c] by linarith
  then show ?thesis by (auto simp: utf8_def)
qed

lemma unpercent_quote: "\<forall>b \<in> set bs. b < 256 \<Longrightarrow> unpercent (concat (map quote_byte bs)) = bs"
  by (induction bs) (simp_all add: unpercent_quote_byte)

lemma decode_utf8_char: "decode_utf8 (utf8 c @ bs) = c # decode_utf8 bs"
proof (cases "cp c < 128")
  case False
  have "192 + cp c div 64 - 192 = cp c div 64" "128 + cp c mod 64 - 128 = cp c mod 64" by simp_all
  then show ?thesis using False by (simp add: utf8_def)
qed (simp add: utf8_def)

lemma unquote_quote: "unquote (quote s) = s"
proof -
  have "decode_utf8 (concat (map utf8 s)) = s"
    by (induction s) (simp_all add: decode_utf8_char)
  then show ?thesis
    using unpercent_quote [of "concat (map utf8 s)"] utf8_bytes by (auto simp: unquote_def quote_def)
qed

lemma quote_no_slash: "CHR ''/'' \<notin> set (quote s)"
proof -
  have "CHR ''/'' \<notin> set (quote_byte b)" if "b < 256" for b
  proof (cases "unreserved b")
    case True
    then show ?thesis using unreserved_char [OF True] by (simp add: quote_byte_def)
  next
    case False
    moreover have "b div 16 < 16" using that by (simp add: less_mult_imp_div_less)
    ultimately show ?thesis using hex_upper(2) [of "b div 16"] hex_upper(2) [of "b mod 16"]
      by (auto simp: quote_byte_def)
  qed
  then show ?thesis using utf8_bytes by (auto simp: quote_def)
qed

lemma deployment_path_segments:
  "segments (deployment_path ns n) = [[], ''v1'', ''deployments'', quote ns, quote n]"
proof -
  have "deployment_path ns n = [] @ CHR ''/'' # ''v1'' @ CHR ''/'' # ''deployments'' @ CHR ''/'' #
      quote ns @ CHR ''/'' # quote n"
    by (simp add: deployment_path_def)
  then show ?thesis
    by (simp only: segments_append segments_plain [OF quote_no_slash]) simp
qed

lemma cli_path_segments:
  "map unquote (segments (cli_path a)) = [[], ''v1'', ''deployments'', arg_namespace a, arg_name a] @
     (case cmd a of Rollback v \<Rightarrow> [''rollback''] | _ \<Rightarrow> [])"
proof -
  have u: "unquote [] = []" "unquote ''v1'' = ''v1''" "unquote ''deployments'' = ''deployments''"
    "unquote ''rollback'' = ''rollback''"
    by code_simp+
  have "segments (deployment_path ns n @ ''/rollback'') =
      segments (deployment_path ns n) @ segments ''rollback''" for ns n
    using segments_append [of "deployment_path ns n" "''rollback''"] by simp
  then show ?thesis
    by (simp add: cli_path_def deployment_path_segments u unquote_quote split: cli_command.splits)
qed

section \<open>Properties\<close>

lemma key_values_from_distinct:
  "key_values_from result vs = Inr rs \<Longrightarrow> distinct (map fst result) \<Longrightarrow> distinct (map fst rs)"
  by (induction result vs rule: key_values_from.induct)
    (auto simp: Let_def distinct_update split: if_splits prod.splits)

lemma dump_map_wf: "distinct (map fst rs) \<Longrightarrow> jwf fr (dump_map rs)"
  by (auto simp: dump_map_def comp_def case_prod_beta)

lemma cli_payload_wf: "cli_payload c = Inr (Some v) \<Longrightarrow> jwf fr v"
  by (auto simp: cli_payload_def bind_result_Inr_iff key_values_def dump_map_wf
      dest!: key_values_from_distinct split: cli_command.splits)

lemma cli_build_data:
  assumes "cli_build fr uuid a = Inr rq" and "cli_payload (cmd a) = Inr (Some v)"
  shows "\<exists>t. rq_data rq = Some t \<and> json_loads t = Some v"
  using assms json_loads_print [OF layouts_ok(1) cli_payload_wf [OF assms(2)], of fr 0]
  by (auto simp: cli_build_def bind_result_Inr_iff reorder_def default_layout_def split: if_splits)

definition flag :: "string \<times> string \<Rightarrow> string" where
  "flag nq = fst nq @ CHR ''='' # snd nq"

lemma resource_name_flag:
  assumes "rx_match RESOURCE_NAME_PATTERN n"
  shows "n \<noteq> []" "CHR ''='' \<notin> set n"
proof -
  have "rx_within (\<lambda>c. c \<noteq> CHR ''='') RESOURCE_NAME_PATTERN"
    by (auto simp: RESOURCE_NAME_PATTERN_def resource_part_rx_def name_rx_def resource_char_def
        is_lower_def is_digit_def)
  then show "CHR ''='' \<notin> set n" using rx_within_lang assms unfolding rx_match_lang by blast
  show "n \<noteq> []" using assms
    by (auto simp: rx_match_def RESOURCE_NAME_PATTERN_def resource_part_rx_def name_rx_def)
qed

lemma py_partition_flag:
  "CHR ''='' \<notin> set (fst nq) \<Longrightarrow> py_partition (CHR ''='') (flag nq) = (fst nq, ''='', snd nq)"
proof -
  assume a: "CHR ''='' \<notin> set (fst nq)"
  then have "takeWhile (\<lambda>c. c \<noteq> CHR ''='') (fst nq @ CHR ''='' # snd nq) = fst nq"
    "dropWhile (\<lambda>c. c \<noteq> CHR ''='') (fst nq @ CHR ''='' # snd nq) = CHR ''='' # snd nq"
    by (simp_all add: takeWhile_tail dropWhile_append3 takeWhile_append2 dropWhile_append2)
      (metis append_Nil2 dropWhile_append2 takeWhile_append2)+
  then show ?thesis by (simp add: py_partition_def flag_def)
qed

lemma key_values_flags:
  assumes "valid_resources rs"
  shows "key_values (map flag rs) = Inr rs"
proof -
  have "key_values_from pre (map flag rs) = Inr (pre @ rs)"
    if "distinct (map fst (pre @ rs))" "\<forall>(n, q) \<in> set rs. n \<noteq> [] \<and> CHR ''='' \<notin> set n \<and> q \<noteq> []"
    for pre rs
    using that
  proof (induction rs arbitrary: pre)
    case (Cons nq rs)
    then show ?case
      by (auto simp: py_partition_flag alist_update_fresh case_prod_beta)
  qed simp
  from this [of "[]" rs] assms show ?thesis
    by (auto simp: key_values_def valid_resources_def dest: resource_name_flag quantity_no_space)
qed

text \<open>
  What a deployment command asks for is what the API is asked for. Every deployment the API
  accepts can be asked for with the command's flags, and for names of any characters the command is
  then a PUT whose path, split and decoded, names exactly the given namespace and deployment, and
  whose body, parsed and validated by the API's schema, is exactly that deployment: the model,
  version, replicas, port and both resource maps.
\<close>

theorem cli_deploy_round_trip:
  assumes "pydantic_lax P" and "0 < timeout a" and "upsert_ok d"
    and "cmd a = Deploy (du_model d) (du_version d) (du_replicas d) (du_port d)
      (map flag (dr_requests (du_resources d))) (map flag (dr_limits (du_resources d)))"
  shows "\<exists>rq t body. cli_build fr uuid a = Inr rq \<and> rq_method rq = ''PUT'' \<and>
    rq_url rq = rstrip_slash (api_url a) @ cli_path a \<and>
    map unquote (segments (cli_path a)) =
      [[], ''v1'', ''deployments'', arg_namespace a, arg_name a] \<and>
    rq_data rq = Some t \<and> json_loads t = Some body \<and> DeploymentUpsert P body = Inr d"
proof -
  let ?r = "du_resources d"
  let ?body = "JDict [(''model'', JStr (du_model d)), (''version'', JStr (du_version d)),
      (''replicas'', JInt (du_replicas d)), (''port'', JInt (du_port d)),
      (''resources'', dump_resources ?r)]"
  have ok: "resources_ok ?r" using assms(3) by (simp add: upsert_ok_def)
  then have p: "cli_payload (cmd a) = Inr (Some ?body)"
    by (simp add: assms(4) cli_payload_def key_values_flags resources_ok_def dump_resources_def)
  then obtain rq where rq: "cli_build fr uuid a = Inr rq" "rq_method rq = ''PUT''"
    "rq_url rq = rstrip_slash (api_url a) @ cli_path a"
    using assms(2) by (simp add: cli_build_def cli_method_def assms(4))
  have "DeploymentUpsert P ?body = Inr d"
    using assms(3) DeploymentResources_dump [OF ok] pydantic_lax.lax_int_int [OF assms(1)]
    by (simp add: DeploymentUpsert_def upsert_ok_def checked_iffs field_str_def ResourceName_iff
        VersionName_iff dns_label_trim version_label_trim)
  moreover obtain t where "rq_data rq = Some t" "json_loads t = Some ?body"
    using cli_build_data [OF rq(1) p] by blast
  ultimately show ?thesis using rq cli_path_segments [of a] by (auto simp: assms(4))
qed

definition sample_upsert :: deployment_upsert where
  "sample_upsert =
     \<lparr> du_model = ''sentiment'', du_version = ''v2'', du_replicas = 3, du_port = 8080,
       du_resources = \<lparr> dr_requests = [(''cpu'', ''100m'')], dr_limits = [] \<rparr> \<rparr>"

definition sample_arguments :: cli_arguments where
  "sample_arguments =
     \<lparr> api_url = ''http://api.example/'', timeout = 4,
       cmd = Deploy ''sentiment'' ''v2'' 3 8080 [''cpu=100m''] [], arg_name = ''a/b'',
       arg_namespace = ''demo'' \<rparr>"

theorem cli_deploy_round_trip_witness:
  "\<exists>rq t body. cli_build id ''u'' sample_arguments = Inr rq \<and> rq_method rq = ''PUT'' \<and>
     rq_data rq = Some t \<and> json_loads t = Some body \<and>
     DeploymentUpsert plain_pydantic body = Inr sample_upsert"
proof -
  have ok: "upsert_ok sample_upsert" by code_simp
  have c: "cmd sample_arguments = Deploy (du_model sample_upsert) (du_version sample_upsert)
      (du_replicas sample_upsert) (du_port sample_upsert)
      (map flag (dr_requests (du_resources sample_upsert)))
      (map flag (dr_limits (du_resources sample_upsert)))"
    by (simp add: sample_arguments_def sample_upsert_def flag_def)
  have "0 < timeout sample_arguments" by (simp add: sample_arguments_def)
  from cli_deploy_round_trip [OF plain.pydantic_lax_axioms this ok c] show ?thesis by blast
qed

text \<open>The message of each exception the API serialises.\<close>

fun api_message :: "exc \<Rightarrow> string" where
  "api_message (ApiExc e) = ae_message e"
| "api_message (ValidationExc vs) = ''The request did not satisfy the API schema.''"
| "api_message (HttpExc s d) = (case d of JStr m \<Rightarrow> m | _ \<Rightarrow> ''The request failed.'')"
| "api_message DatabaseExc = ''The model registry database is unavailable.''"
| "api_message (PyExc e) = []"

lemma error_response_message:
  "error_message py_str (Text t) fb = m" if "json_loads t = Some (snd (error_response rid st cd m dt))"
  using that by (simp add: error_message_def loads_content_def error_response_def)

lemma handled_body:
  assumes "handle_exception str render rid e = Inr (status, body)"
  shows "\<exists>cd dt. body = snd (error_response rid status cd (api_message e) dt)"
  using assms
  by (cases e) (auto simp: handle_exception_def handle_api_error_def handle_validation_error_def
      handle_http_error_def handle_database_error_def error_response_def Let_def split: json.splits if_splits)

text \<open>
  The client shows the API's own message. For every exception the API serialises and every
  text of its error body, a command that reaches the API prints exactly the message of that error,
  nothing on standard output, and returns 1; for an exception the API does not serialise, whose body
  is not JSON, it prints the status instead.
\<close>

theorem cli_shows_api_error:
  assumes "cli_build fr uuid a = Inr rq"
  shows "(handle_exception str render rid e = Inr (status, body) \<and> json_loads t = Some body \<longrightarrow>
      cli_run fr py_str uuid a (\<lambda>_. HttpError status (Text t)) = Exit 1 [] [api_message e]) \<and>
    (json_loads t = None \<longrightarrow>
      cli_run fr py_str uuid a (\<lambda>_. HttpError status (Text t)) =
        Exit 1 [] [''control API returned HTTP '' @ show_int status])"
proof (intro conjI impI; (elim conjE)?)
  assume "handle_exception str render rid e = Inr (status, body)" and t: "json_loads t = Some body"
  then obtain cd dt where "json_loads t = Some (snd (error_response rid status cd (api_message e) dt))"
    using handled_body by (metis (no_types))
  from error_response_message [OF this] assms
  show "cli_run fr py_str uuid a (\<lambda>_. HttpError status (Text t)) = Exit 1 [] [api_message e]"
    by (simp add: cli_run_def)
next
  assume "json_loads t = None"
  then show "cli_run fr py_str uuid a (\<lambda>_. HttpError status (Text t)) =
      Exit 1 [] [''control API returned HTTP '' @ show_int status]"
    using assms by (simp add: cli_run_def error_message_def loads_content_def)
qed

theorem cli_shows_api_error_witness:
  "cli_run id (\<lambda>_. []) ''u'' sample_arguments
     (\<lambda>_. HttpError 503 (Text (json_print id compact_layout 0 (snd (handle_database_error (Some ''r'')))))) =
   Exit 1 [] [''The model registry database is unavailable.'']"
proof -
  let ?b = "snd (handle_database_error (Some ''r''))"
  obtain rq where rq: "cli_build id ''u'' sample_arguments = Inr rq"
    by (simp add: cli_build_def cli_payload_def key_values_def sample_arguments_def py_partition_def)
  have h: "handle_exception (\<lambda>_. []) (\<lambda>_. []) (Some ''r'') DatabaseExc = Inr (503, ?b)"
    by (simp add: handle_exception_def handle_database_error_def error_response_def)
  have "json_loads (json_print id compact_layout 0 ?b) = Some ?b" by code_simp
  with cli_shows_api_error [OF rq, of "\<lambda>_. []" "\<lambda>_. []" "Some ''r''" DatabaseExc 503 ?b] h
  show ?thesis by simp
qed

end
