(* ===== verification/Routing.thy ===== *)
theory Routing
  imports Cli Middleware Config
begin

text \<open>
  The route table that \<open>create_app\<close> builds from the routers of \<open>app/routes.py\<close>,
  \<open>app/deployment_routes.py\<close> and \<open>app/async_routes.py\<close>. The web framework chooses the route of a
  request and decodes its body; both are parameters with the documented behaviour as a locale.
\<close>

section \<open>Routes\<close>

text \<open>One endpoint per decorated function; \<open>Documentation\<close> stands for the pages FastAPI adds itself.\<close>

datatype endpoint =
    Live | Ready
  | PutModel | ListModels | GetModel | PutVersion | ListVersions | GetVersion
  | PutDeployment | GetDeployment | DeleteDeployment | RollbackDeployment | Infer
  | EnqueueJob | GetJob
  | Dashboard | GetMetrics
  | Documentation

record 'e route =
  ro_verb :: string
  ro_path :: string
  ro_endpoint :: 'e

definition route :: "string \<Rightarrow> string \<Rightarrow> 'e \<Rightarrow> 'e route" where
  "route verb path e = \<lparr> ro_verb = verb, ro_path = path, ro_endpoint = e \<rparr>"

text \<open>\<open>include_router\<close> puts the prefix of a router before the paths of its routes.\<close>

definition prefixed :: "string \<Rightarrow> 'e route list \<Rightarrow> 'e route list" where
  "prefixed prefix rs = map (\<lambda>r. r\<lparr> ro_path := prefix @ ro_path r \<rparr>) rs"

definition health_router :: "endpoint route list" where
  "health_router = [route ''GET'' ''/health/live'' Live, route ''GET'' ''/health/ready'' Ready]"

definition registry_router :: "endpoint route list" where
  "registry_router = prefixed ''/v1''
     [route ''PUT'' ''/models/{model_name}'' PutModel,
      route ''GET'' ''/models'' ListModels,
      route ''GET'' ''/models/{model_name}'' GetModel,
      route ''PUT'' ''/models/{model_name}/versions/{version}'' PutVersion,
      route ''GET'' ''/models/{model_name}/versions'' ListVersions,
      route ''GET'' ''/models/{model_name}/versions/{version}'' GetVersion]"

definition deployment_router :: "endpoint route list" where
  "deployment_router = prefixed ''/v1/deployments''
     [route ''PUT'' ''/{namespace}/{name}'' PutDeployment,
      route ''GET'' ''/{namespace}/{name}'' GetDeployment,
      route ''DELETE'' ''/{namespace}/{name}'' DeleteDeployment,
      route ''POST'' ''/{namespace}/{name}/rollback'' RollbackDeployment,
      route ''POST'' ''/{namespace}/{name}/infer'' Infer]"

definition async_router :: "endpoint route list" where
  "async_router = prefixed ''/v1/async-inference''
     [route ''POST'' ''/{namespace}/{name}/jobs'' EnqueueJob,
      route ''GET'' ''/jobs/{job_id}'' GetJob]"

text \<open>The table of the application; \<open>docs\<close> are the routes FastAPI adds when it is constructed.\<close>

definition app_routes :: "endpoint route list \<Rightarrow> settings \<Rightarrow> endpoint route list" where
  "app_routes docs st =
     docs @ health_router @ registry_router @ deployment_router @ async_router @
     [route ''GET'' ''/'' Dashboard] @
     (if metrics_enabled st then [route ''GET'' ''/metrics'' GetMetrics] else [])"

section \<open>Replies\<close>

text \<open>A reply with the header that the request context adds.\<close>

definition with_id :: "string \<Rightarrow> reply \<Rightarrow> reply" where
  "with_id rid rep = rep\<lparr> rp_headers := AList.update ''x-request-id'' rid (rp_headers rep) \<rparr>"

lemma with_id_simps [simp]:
  "rp_status (with_id rid rep) = rp_status rep" "rp_body (with_id rid rep) = rp_body rep"
  "map_of (rp_headers (with_id rid rep)) ''x-request-id'' = Some rid"
  by (simp_all add: with_id_def update_conv')

section \<open>The framework\<close>

text \<open>A path template: its segments, each literal or a parameter in braces.\<close>

datatype seg = Lit string | Param string

definition seg_of :: "string \<Rightarrow> seg" where
  "seg_of s = (if take 1 s = ''{'' then Param (butlast (tl s)) else Lit s)"

definition template :: "string \<Rightarrow> seg list" where
  "template path = map seg_of (segments path)"

text \<open>A parameter matches one segment that is not empty.\<close>

fun match_segs :: "seg list \<Rightarrow> string list \<Rightarrow> (string \<times> string) list option" where
  "match_segs [] [] = Some []"
| "match_segs (Lit l # ts) (s # ss) = (if l = s then match_segs ts ss else None)"
| "match_segs (Param p # ts) (s # ss) =
     (if s = [] then None else map_option ((#) (p, s)) (match_segs ts ss))"
| "match_segs _ _ = None"

definition path_match :: "'e route \<Rightarrow> string \<Rightarrow> (string \<times> string) list option" where
  "path_match r path = match_segs (template (ro_path r)) (segments path)"

text \<open>
  What the router answers: an endpoint with the values of its parameters, or a response of its own,
  which is not produced by the application's exception handlers.
\<close>

datatype 'e selection = Matched 'e "(string \<times> string) list" | Unrouted int json

record 'e framework =
  fw_select :: "'e route list \<Rightarrow> string \<Rightarrow> string \<Rightarrow> 'e selection"
  fw_body :: "(string \<times> string) list \<Rightarrow> string \<Rightarrow> json checked"
  fw_json :: "json \<Rightarrow> string"
  fw_url_path :: "(string \<times> string) list \<Rightarrow> string \<Rightarrow> py_error + string"

abbreviation detail_body :: "string \<Rightarrow> json" where
  "detail_body m \<equiv> JDict [(''detail'', JStr m)]"

abbreviation full_match :: "string \<Rightarrow> string \<Rightarrow> 'e route \<Rightarrow> bool" where
  "full_match verb path r \<equiv> ro_verb r = verb \<and> path_match r path \<noteq> None"

text \<open>
  Documented behaviour: the first route whose path and method match is called; a path that only
  matches with other methods is a 405; any other path is a 404, or a redirect to the same path with
  or without a slash at its end; a JSON body is what it decodes to, and the text of a JSON response
  decodes to what was answered. Paths with a line break are left out, since the patterns of the
  router end before one. \<open>fw_url_path\<close> is \<open>request.url.path\<close>: the framework puts the \<open>Host\<close> header
  and the decoded path together and splits the result as a URL. With a plain host (or no such
  header, when the server's own address is used) that succeeds, and gives the path back when the
  path has no character that ends it in a URL or is dropped there. Of other hosts nothing is said.
\<close>

definition plain_host :: "(string \<times> string) list \<Rightarrow> bool" where
  "plain_host headers \<longleftrightarrow>
     (case map_of headers ''host'' of
        None \<Rightarrow> True
      | Some h \<Rightarrow> list_all (\<lambda>c. is_alnum_ascii c \<or> c \<in> {CHR ''.'', CHR ''-'', CHR '':''}) h)"

definition plain_path :: "string \<Rightarrow> bool" where
  "plain_path path \<longleftrightarrow>
     list_all (\<lambda>c. c \<notin> {CHR ''?'', CHR ''#'', CHR 0x09, CHR 0x0A, CHR 0x0D}) path"

locale web_framework =
  fixes W :: "'e framework"
  assumes select_first: "CHR 0x0A \<notin> set path \<Longrightarrow> find (full_match verb path) rs = Some r \<Longrightarrow>
      path_match r path = Some ps \<Longrightarrow> fw_select W rs verb path = Matched (ro_endpoint r) ps"
    and select_method: "CHR 0x0A \<notin> set path \<Longrightarrow> find (full_match verb path) rs = None \<Longrightarrow>
      \<exists>r \<in> set rs. path_match r path \<noteq> None \<Longrightarrow>
      fw_select W rs verb path = Unrouted 405 (detail_body ''Method Not Allowed'')"
    and select_none: "CHR 0x0A \<notin> set path \<Longrightarrow> \<forall>r \<in> set rs. path_match r path = None \<Longrightarrow>
      fw_select W rs verb path = Unrouted 404 (detail_body ''Not Found'') \<or>
      fw_select W rs verb path = Unrouted 307 JNull"
    and json_body: "map_of headers ''content-type'' = Some ''application/json'' \<Longrightarrow>
      json_loads text = Some v \<Longrightarrow> fw_body W headers text = Inr v"
    and json_text: "jwf id v \<Longrightarrow> json_loads (fw_json W v) = Some v"
    and url_read: "plain_host headers \<Longrightarrow> take 1 path = ''/'' \<Longrightarrow> \<exists>q. fw_url_path W headers path = Inr q"
    and url_path: "plain_host headers \<Longrightarrow> take 1 path = ''/'' \<Longrightarrow> plain_path path \<Longrightarrow>
      fw_url_path W headers path = Inr path"

text \<open>
  An instance: a router that redirects nothing, bodies that are JSON whatever their headers say, and
  URLs that can be read when the host is plain.
\<close>

definition plain_select :: "'e route list \<Rightarrow> string \<Rightarrow> string \<Rightarrow> 'e selection" where
  "plain_select rs verb path =
     (case find (full_match verb path) rs of
        Some r \<Rightarrow> Matched (ro_endpoint r) (case path_match r path of Some ps \<Rightarrow> ps | None \<Rightarrow> [])
      | None \<Rightarrow>
          if \<exists>r \<in> set rs. path_match r path \<noteq> None then Unrouted 405 (detail_body ''Method Not Allowed'')
          else Unrouted 404 (detail_body ''Not Found''))"

definition plain_url_path :: "(string \<times> string) list \<Rightarrow> string \<Rightarrow> py_error + string" where
  "plain_url_path headers path =
     (if plain_host headers
      then Inr (filter (\<lambda>c. c \<notin> {CHR 0x09, CHR 0x0A, CHR 0x0D})
                 (takeWhile (\<lambda>c. c \<notin> {CHR ''?'', CHR ''#''}) path))
      else Inl ValueError)"

lemma plain_url_path_eq: "plain_host headers \<Longrightarrow> plain_path path \<Longrightarrow> plain_url_path headers path = Inr path"
proof -
  assume h: "plain_host headers" and p: "plain_path path"
  have "takeWhile (\<lambda>c. c \<notin> {CHR ''?'', CHR ''#''}) path = path"
    using p unfolding takeWhile_eq_all_conv plain_path_def list_all_iff by blast
  moreover have "filter (\<lambda>c. c \<notin> {CHR 0x09, CHR 0x0A, CHR 0x0D}) path = path"
    using p unfolding filter_id_conv plain_path_def list_all_iff by blast
  ultimately show ?thesis unfolding plain_url_path_def if_P [OF h] by (simp only:)
qed

definition plain_framework :: "'e framework" where
  "plain_framework =
     \<lparr> fw_select = plain_select,
       fw_body = (\<lambda>headers text. if text = [] then Inr JNull else
         (case json_loads text of Some v \<Rightarrow> Inr v | None \<Rightarrow> Inl [([''body''], WrongType)])),
       fw_json = json_print id compact_layout 0, fw_url_path = plain_url_path \<rparr>"

lemma json_loads_empty: "json_loads [] = None"
  by code_simp

lemma json_loads_compact: "jwf fr v \<Longrightarrow> json_loads (json_print fr compact_layout 0 v) = Some v"
  by (simp add: json_loads_print layouts_ok reorder_def) (simp add: compact_layout_def)

interpretation plain_web: web_framework plain_framework
proof
  fix path verb and rs :: "'e route list"
  assume f: "find (full_match verb path) rs = None" and r: "\<exists>r \<in> set rs. path_match r path \<noteq> None"
  show "fw_select plain_framework rs verb path = Unrouted 405 (detail_body ''Method Not Allowed'')"
    using r unfolding plain_framework_def plain_select_def by (simp add: f del: not_None_eq)
next
  fix path verb and rs :: "'e route list"
  assume r: "\<forall>r \<in> set rs. path_match r path = None"
  then have "find (full_match verb path) rs = None" by (auto simp: find_None_iff)
  then show "fw_select plain_framework rs verb path = Unrouted 404 (detail_body ''Not Found'') \<or>
      fw_select plain_framework rs verb path = Unrouted 307 JNull"
    using r unfolding plain_framework_def plain_select_def by (simp del: not_None_eq)
qed (auto simp: plain_framework_def plain_select_def json_loads_empty json_loads_compact plain_url_path_eq,
  simp add: plain_url_path_def)

section \<open>Selection\<close>

context web_framework
begin

lemma select_cases:
  assumes "CHR 0x0A \<notin> set path"
  obtains (found) r ps where "r \<in> set rs" "full_match verb path r" "path_match r path = Some ps"
      "fw_select W rs verb path = Matched (ro_endpoint r) ps"
  | (missed) status b where "\<forall>r \<in> set rs. \<not> full_match verb path r"
      "fw_select W rs verb path = Unrouted status b"
      "(status, b) \<in> {(405, detail_body ''Method Not Allowed''), (404, detail_body ''Not Found''), (307, JNull)}"
proof (cases "find (full_match verb path) rs")
  case (Some r)
  then have r: "r \<in> set rs" "full_match verb path r" by (auto simp: find_Some_iff)
  then obtain ps where "path_match r path = Some ps" by auto
  with found r select_first [OF assms Some this] show ?thesis by blast
next
  case None
  then have n: "\<forall>r \<in> set rs. \<not> full_match verb path r" by (auto simp: find_None_iff)
  show ?thesis
  proof (cases "\<exists>r \<in> set rs. path_match r path \<noteq> None")
    case True
    show ?thesis by (rule missed [OF n select_method [OF assms None True]]) simp
  next
    case False
    then have "\<forall>r \<in> set rs. path_match r path = None" by blast
    from select_none [OF assms this, of verb] show ?thesis
    proof
      assume e: "fw_select W rs verb path = Unrouted 404 (detail_body ''Not Found'')"
      show ?thesis by (rule missed [OF n e]) simp
    next
      assume e: "fw_select W rs verb path = Unrouted 307 JNull"
      show ?thesis by (rule missed [OF n e]) simp
    qed
  qed
qed

lemma select_only:
  assumes "CHR 0x0A \<notin> set path" "r \<in> set rs" "full_match verb path r" "path_match r path = Some ps"
    and "\<And>r'. r' \<in> set rs \<Longrightarrow> full_match verb path r' \<Longrightarrow> r' = r"
  shows "fw_select W rs verb path = Matched (ro_endpoint r) ps"
proof (rule select_cases [OF assms(1), of rs verb], goal_cases)
  case (1 r' ps')
  then have "r' = r" using assms(5) by blast
  then show ?case using 1(3,4) assms(4) by simp
next
  case (2 status b)
  then show ?case using assms(2,3) by blast
qed

end

section \<open>The table has no overlaps\<close>

text \<open>Two templates that some path could match at once.\<close>

fun compatible :: "seg list \<Rightarrow> seg list \<Rightarrow> bool" where
  "compatible [] [] = True"
| "compatible (Lit a # ts) (Lit b # us) = (a = b \<and> compatible ts us)"
| "compatible (Lit a # ts) (Param q # us) = (a \<noteq> [] \<and> compatible ts us)"
| "compatible (Param p # ts) (Lit b # us) = (b \<noteq> [] \<and> compatible ts us)"
| "compatible (Param p # ts) (Param q # us) = compatible ts us"
| "compatible _ _ = False"

lemma match_segs_iffs:
  "match_segs [] ss \<noteq> None \<longleftrightarrow> ss = []"
  "match_segs (t # ts) ss \<noteq> None \<longleftrightarrow>
     (\<exists>s ss'. ss = s # ss' \<and> (case t of Lit l \<Rightarrow> l = s | Param p \<Rightarrow> s \<noteq> []) \<and> match_segs ts ss' \<noteq> None)"
  by (cases ss; cases t; simp)+

lemma match_compatible:
  "match_segs ts ss \<noteq> None \<Longrightarrow> match_segs us ss \<noteq> None \<Longrightarrow> compatible ts us"
  by (induction ts us arbitrary: ss rule: compatible.induct)
    (auto simp: match_segs_iffs simp del: not_None_eq)

definition documentation_paths :: "string list" where
  "documentation_paths = [''/openapi.json'', ''/docs'', ''/docs/oauth2-redirect'', ''/redoc'']"

definition docs_only :: "endpoint route list \<Rightarrow> bool" where
  "docs_only docs \<longleftrightarrow> list_all (\<lambda>r. ro_path r \<in> set documentation_paths \<and> ro_endpoint r = Documentation) docs"

definition own_routes :: "endpoint route list" where
  "own_routes = health_router @ registry_router @ deployment_router @ async_router @
     [route ''GET'' ''/'' Dashboard, route ''GET'' ''/metrics'' GetMetrics]"

lemma own_routes_apart:
  "list_all (\<lambda>r. list_all (\<lambda>r'. ro_verb r = ro_verb r' \<and>
      compatible (template (ro_path r)) (template (ro_path r')) \<longrightarrow> r = r') own_routes) own_routes"
  "list_all (\<lambda>p. list_all (\<lambda>r. \<not> compatible (template p) (template (ro_path r))) own_routes) documentation_paths"
  by code_simp+

lemma app_routes_own: "r \<in> set (app_routes docs st) \<Longrightarrow> r \<in> set docs \<or> r \<in> set own_routes"
  by (auto simp: app_routes_def own_routes_def split: if_splits)

lemma one_endpoint:
  assumes "docs_only docs" "r \<in> set (app_routes docs st)" "r' \<in> set (app_routes docs st)"
    and "full_match verb path r" "full_match verb path r'"
  shows "ro_endpoint r = ro_endpoint r' \<and> (ro_endpoint r \<noteq> Documentation \<longrightarrow> r = r')"
proof -
  have c: "compatible (template (ro_path x)) (template (ro_path y))"
    if "full_match verb path x" "full_match verb path y" for x y
    using that match_compatible unfolding path_match_def by blast
  have d: "\<not> full_match verb path y" if "x \<in> set docs" "full_match verb path x" "y \<in> set own_routes" for x y
  proof
    assume "full_match verb path y"
    then have "compatible (template (ro_path x)) (template (ro_path y))" using c that(2) by blast
    moreover have "ro_path x \<in> set documentation_paths"
      using assms(1) that(1) by (simp add: docs_only_def list_all_iff)
    ultimately show False using own_routes_apart(2) that(3) unfolding list_all_iff by blast
  qed
  have o: "x = y" if "x \<in> set own_routes" "y \<in> set own_routes" "full_match verb path x" "full_match verb path y"
    for x y using c [of x y] that own_routes_apart(1) by (auto simp: list_all_iff)
  show ?thesis
    using app_routes_own [OF assms(2)] app_routes_own [OF assms(3)] assms(1,4,5) d o
    by (fastforce simp: docs_only_def list_all_iff)
qed

lemma select_unique:
  assumes "web_framework W" "CHR 0x0A \<notin> set path" "docs_only docs" "r \<in> set (app_routes docs st)"
    and "full_match verb path r" "ro_endpoint r \<noteq> Documentation" "path_match r path = Some ps"
  shows "fw_select W (app_routes docs st) verb path = Matched (ro_endpoint r) ps"
proof (rule web_framework.select_only [OF assms(1,2,4,5,7)])
  fix r'
  assume "r' \<in> set (app_routes docs st)" and "full_match verb path r'"
  from one_endpoint [OF assms(3) this(1) assms(4) this(2) assms(5)] assms(6) show "r' = r" by force
qed

end
