(* ===== verification/Runtime_Api.thy ===== *)
theory Runtime_Api
  imports Runtime_App Routing
begin

text \<open>
  The runtime as one HTTP application (\<open>create_app\<close> of \<open>runtime_app/main.py\<close>): its routes, the body
  limit, the request context that counts inferences, the handlers of exceptions, and a process that
  starts, answers requests and stops.
\<close>

section \<open>Routes\<close>

datatype runtime_endpoint = Liveness | Readiness | InferText | PrometheusMetrics | RuntimeDocs

text \<open>\<open>docs\<close> are the routes FastAPI adds when it is constructed.\<close>

definition runtime_routes :: "runtime_endpoint route list \<Rightarrow> runtime_endpoint route list" where
  "runtime_routes docs =
     docs @
     [route ''GET'' ''/health/live'' Liveness, route ''GET'' ''/health/ready'' Readiness,
      route ''POST'' ''/v1/infer'' InferText, route ''GET'' ''/metrics'' PrometheusMetrics]"

definition runtime_docs_only :: "runtime_endpoint route list \<Rightarrow> bool" where
  "runtime_docs_only docs \<longleftrightarrow>
     list_all (\<lambda>r. ro_path r \<in> set documentation_paths \<and> ro_endpoint r = RuntimeDocs) docs"

section \<open>Requests\<close>

definition infer_json :: "(rat \<Rightarrow> string) \<Rightarrow> infer_response \<Rightarrow> json" where
  "infer_json repr a =
     JDict [(''model'', JStr (ir_model a)), (''version'', JStr (ir_version a)),
            (''label'', JStr (ir_label a)), (''confidence'', JFloat (repr (ir_confidence a))),
            (''request_id'', JStr (ir_request_id a))]"

text \<open>
  What surrounds the runtime: double arithmetic, the framework, the text of a confidence, pydantic's
  rendering of a violation, and \<open>generate_latest\<close> of the Prometheus client.
\<close>

record runtime_env =
  re_floats :: floats
  re_framework :: "runtime_endpoint framework"
  re_docs :: "runtime_endpoint route list"
  re_repr :: "rat \<Rightarrow> string"
  re_render :: "violation \<Rightarrow> dict"
  re_generate_latest :: "runtime_metrics \<Rightarrow> string"

record runtime_process =
  rk_state :: runtime_state
  rk_metrics :: runtime_metrics

definition create_runtime_app :: "runtime_settings \<Rightarrow> runtime_process" where
  "create_runtime_app st =
     \<lparr> rk_state = create_runtime, rk_metrics = new_metrics (rs_model_name st) (rs_model_version st) \<rparr>"

text \<open>
  The handler of validation errors is the application's, that of \<open>HTTPException\<close> is the framework's;
  any other exception leaves the application.
\<close>

definition runtime_respond ::
  "(violation \<Rightarrow> dict) \<Rightarrow> string \<Rightarrow> exc + int \<times> reply_body \<Rightarrow> exc + int \<times> reply_body" where
  "runtime_respond render rid result =
     (case result of
        Inl (ValidationExc vs) \<Rightarrow>
          (case runtime_validation_error render rid vs of
             Inl p \<Rightarrow> Inl (PyExc p)
           | Inr (status, b) \<Rightarrow> Inr (status, JsonBody b))
      | Inl (HttpExc status d) \<Rightarrow> Inr (status, JsonBody (JDict [(''detail'', d)]))
      | _ \<Rightarrow> result)"

definition runtime_endpoint_call ::
  "runtime_env \<Rightarrow> runtime_settings \<Rightarrow> runtime_process \<Rightarrow> runtime_endpoint \<Rightarrow> (string \<times> string) list \<Rightarrow> string
     \<Rightarrow> string \<Rightarrow> exc + int \<times> reply_body" where
  "runtime_endpoint_call E st p e headers bytes rid =
     (case e of
        Liveness \<Rightarrow> Inr (200, JsonBody liveness)
      | Readiness \<Rightarrow> bind_result (readiness st (rk_state p)) (\<lambda>v. Inr (200, JsonBody v))
      | InferText \<Rightarrow>
          bind_result (checked (fw_body (re_framework E) headers bytes)) (\<lambda>body.
          bind_result (runtime_infer (re_floats E) st (rk_state p) rid body) (\<lambda>a.
          Inr (200, JsonBody (infer_json (re_repr E) a))))
      | PrometheusMetrics \<Rightarrow> Inr (200, TextBody (re_generate_latest E (rk_metrics p)))
      | RuntimeDocs \<Rightarrow> Inr (200, TextBody []))"

definition runtime_application ::
  "runtime_env \<Rightarrow> runtime_settings \<Rightarrow> runtime_process \<Rightarrow> string \<Rightarrow> string \<Rightarrow> scope \<Rightarrow> asgi_message list \<Rightarrow> string
     \<Rightarrow> exc + int \<times> reply_body" where
  "runtime_application E st p verb path sc messages rid =
     (case fw_select (re_framework E) (runtime_routes (re_docs E)) verb path of
        Unrouted status b \<Rightarrow> Inr (status, JsonBody b)
      | Matched e ps \<Rightarrow>
          runtime_respond (re_render E) rid
            (runtime_endpoint_call E st p e (sc_headers sc) (concat (map body_bytes messages)) rid))"

text \<open>The body limit before the application; after the buffered messages come only empty ones.\<close>

definition runtime_limited ::
  "runtime_env \<Rightarrow> runtime_settings \<Rightarrow> runtime_process \<Rightarrow> string \<Rightarrow> string \<Rightarrow> scope \<Rightarrow> asgi_message list
     \<Rightarrow> (string \<Rightarrow> exc + reply) option" where
  "runtime_limited E st p verb path sc incoming =
     (let reply = (\<lambda>result. map_sum id
            (\<lambda>(status, b). \<lparr> rp_status = status, rp_headers = [], rp_body = b \<rparr>) result) in
      case runtime_body_limit (rs_max_request_bytes st) sc incoming of
        Untouched \<Rightarrow> Some (\<lambda>rid. reply (runtime_application E st p verb path sc incoming rid))
      | Forward buffered rest \<Rightarrow> Some (\<lambda>rid. reply (runtime_application E st p verb path sc buffered rid))
      | Reject _ \<Rightarrow> Some (\<lambda>rid. reply (Inr (map_prod id JsonBody (runtime_reject (rs_max_request_bytes st) rid))))
      | Waiting _ \<Rightarrow> None)"

text \<open>A request as it arrives, with the id and the duration it gets; \<open>None\<close> is a request still pending.\<close>

record runtime_request =
  rr_verb :: string
  rr_path :: string
  rr_scope :: scope
  rr_incoming :: "asgi_message list"
  rr_uuid :: string
  rr_elapsed :: rat

definition url_path_of :: "runtime_env \<Rightarrow> runtime_request \<Rightarrow> py_error + string" where
  "url_path_of E rq = fw_url_path (re_framework E) (sc_headers (rr_scope rq)) (rr_path rq)"

definition runtime_serve ::
  "runtime_env \<Rightarrow> runtime_settings \<Rightarrow> runtime_request \<Rightarrow> runtime_process
     \<Rightarrow> ((exc + reply) \<times> runtime_process) option" where
  "runtime_serve E st rq p =
     (case runtime_limited E st p (rr_verb rq) (rr_path rq) (rr_scope rq) (rr_incoming rq) of
        None \<Rightarrow> None
      | Some call_next \<Rightarrow>
          (let (res, ctx, m) = runtime_dispatch (header (rr_scope rq) ''x-request-id'') (rr_uuid rq)
                 (url_path_of E rq) (rr_elapsed rq) call_next ([], rk_metrics p) in
           Some (res, p\<lparr> rk_metrics := m \<rparr>)))"

section \<open>A process\<close>

datatype runtime_event = Start | Stop | Request runtime_request

text \<open>The answers a process gives, with the requests they belong to, and the state it ends in.\<close>

fun runtime_run ::
  "runtime_env \<Rightarrow> runtime_settings \<Rightarrow> runtime_event list \<Rightarrow> runtime_process
     \<Rightarrow> (runtime_request \<times> (exc + reply)) list \<times> runtime_process" where
  "runtime_run E st [] p = ([], p)"
| "runtime_run E st (Start # es) p =
     runtime_run E st es (p\<lparr> rk_state := snd (runtime_start st (rk_state p)) \<rparr>)"
| "runtime_run E st (Stop # es) p = runtime_run E st es (p\<lparr> rk_state := runtime_stop (rk_state p) \<rparr>)"
| "runtime_run E st (Request rq # es) p =
     (case runtime_serve E st rq p of
        None \<Rightarrow> runtime_run E st es p
      | Some (res, p) \<Rightarrow> (case runtime_run E st es p of (answers, p) \<Rightarrow> ((rq, res) # answers, p)))"

section \<open>Routing an inference\<close>

lemma infer_paths:
  "list_all (\<lambda>p. match_segs (template p) (segments ''/v1/infer'') = None)
     (''/health/live'' # ''/health/ready'' # ''/metrics'' # documentation_paths)"
  "match_segs (template ''/v1/infer'') (segments ''/v1/infer'') = Some []"
  by code_simp+

lemma infer_route:
  assumes "runtime_docs_only docs" "r \<in> set (runtime_routes docs)"
  shows "path_match r ''/v1/infer'' \<noteq> None \<longleftrightarrow> r = route ''POST'' ''/v1/infer'' InferText"
    and "path_match (route ''POST'' ''/v1/infer'' InferText) ''/v1/infer'' = Some []"
proof -
  have none: "match_segs (template p) (segments ''/v1/infer'') = None"
    if "p \<in> set (''/health/live'' # ''/health/ready'' # ''/metrics'' # documentation_paths)" for p
    using infer_paths(1) that unfolding list_all_iff by blast
  have own: "path_match (route verb p e) ''/v1/infer'' = match_segs (template p) (segments ''/v1/infer'')"
    for verb p and e :: runtime_endpoint by (simp add: path_match_def route_def)
  then show self: "path_match (route ''POST'' ''/v1/infer'' InferText) ''/v1/infer'' = Some []"
    using infer_paths(2) by simp
  consider "r \<in> set docs" | "r = route ''POST'' ''/v1/infer'' InferText"
    | verb p e where "r = route verb p e" "p \<in> {''/health/live'', ''/health/ready'', ''/metrics''}"
    using assms(2) unfolding runtime_routes_def by fastforce
  then show "path_match r ''/v1/infer'' \<noteq> None \<longleftrightarrow> r = route ''POST'' ''/v1/infer'' InferText"
  proof cases
    case 1
    then have "ro_path r \<in> set documentation_paths"
      using assms(1) by (simp add: runtime_docs_only_def list_all_iff)
    then have "path_match r ''/v1/infer'' = None" using none unfolding path_match_def by simp
    then show ?thesis using self by auto
  next
    case 2
    then show ?thesis using self by simp
  next
    case 3
    then have "path_match r ''/v1/infer'' = None" using none own by auto
    then show ?thesis using self by auto
  qed
qed

lemma infer_select:
  assumes "web_framework W" "runtime_docs_only docs"
  shows "fw_select W (runtime_routes docs) verb ''/v1/infer'' =
    (if verb = ''POST'' then Matched InferText [] else Unrouted 405 (detail_body ''Method Not Allowed''))"
proof -
  let ?r = "route ''POST'' ''/v1/infer'' InferText"
  have nl: "CHR 0x0A \<notin> set ''/v1/infer''" by simp
  have r: "?r \<in> set (runtime_routes docs)" "ro_verb ?r = ''POST''" "ro_endpoint ?r = InferText"
    by (simp_all add: runtime_routes_def route_def)
  note m = infer_route [OF assms(2)]
  show ?thesis
  proof (cases "verb = ''POST''")
    case True
    have "fw_select W (runtime_routes docs) verb ''/v1/infer'' = Matched (ro_endpoint ?r) []"
    proof (rule web_framework.select_only [OF assms(1) nl r(1)])
      show "full_match verb ''/v1/infer'' ?r" using True r(2) m(1) [OF r(1)] by blast
      show "path_match ?r ''/v1/infer'' = Some []" by (rule m(2) [OF r(1)])
    qed (use m(1) in blast)
    then show ?thesis using True r(3) by simp
  next
    case False
    have "\<not> full_match verb ''/v1/infer'' x" if "x \<in> set (runtime_routes docs)" for x
      using m(1) [OF that] r(2) False by metis
    then have "find (full_match verb ''/v1/infer'') (runtime_routes docs) = None"
      unfolding find_None_iff by blast
    moreover have "\<exists>x \<in> set (runtime_routes docs). path_match x ''/v1/infer'' \<noteq> None"
      using m(1) [OF r(1)] r(1) by blast
    ultimately show ?thesis
      using web_framework.select_method [OF assms(1) nl] unfolding if_not_P [OF False] by blast
  qed
qed

section \<open>Counting\<close>

definition counted :: "string \<Rightarrow> runtime_metrics \<Rightarrow> nat" where
  "counted outcome m = (case map_of (rm_requests m) outcome of None \<Rightarrow> 0 | Some k \<Rightarrow> k)"

fun succeeded :: "exc + reply \<Rightarrow> bool" where
  "succeeded (Inl e) = False"
| "succeeded (Inr rep) = (rp_status rep < 400)"

definition inferences ::
  "runtime_env \<Rightarrow> (runtime_request \<times> (exc + reply)) list \<Rightarrow> (runtime_request \<times> (exc + reply)) list" where
  "inferences E answers = filter (\<lambda>(rq, res). url_path_of E rq = Inr ''/v1/infer'') answers"

lemma counted_observe:
  "counted o1 (observe_inference o2 d m) = counted o1 m + (if o1 = o2 then 1 else 0)"
  "rm_duration (observe_inference o2 d m) = rm_duration m @ [d]"
  "rm_model (observe_inference o2 d m) = rm_model m" "rm_version (observe_inference o2 d m) = rm_version m"
  by (auto simp: counted_def observe_inference_def update_conv' split: option.splits)

lemma dispatch_eq:
  fixes supplied uuid
  defines "rid \<equiv> choose_request_id supplied uuid"
  shows "runtime_dispatch supplied uuid url_path elapsed inner (c, m) =
    (case url_path of
       Inl e \<Rightarrow> (Inl (PyExc e), rid, m)
     | Inr path \<Rightarrow> (map_sum id (with_id rid) (inner rid), c,
         if path = ''/v1/infer''
         then observe_inference (if succeeded (inner rid) then ''success'' else ''error'') elapsed m else m))"
  unfolding runtime_dispatch_def Let_def choose_request_id_def [unfolded Let_def, symmetric] rid_def [symmetric]
  by (cases "inner rid") (simp_all add: with_id_def split: sum.split)

lemma succeeded_with_id [simp]: "succeeded (map_sum id (with_id rid) res) = succeeded res"
  by (cases res) simp_all

lemma serve_SomeE:
  assumes "runtime_serve E st rq p = Some (res, p')"
  obtains inner rid where
    "runtime_limited E st p (rr_verb rq) (rr_path rq) (rr_scope rq) (rr_incoming rq) = Some inner"
    "res = (case url_path_of E rq of Inl e \<Rightarrow> Inl (PyExc e) | Inr q \<Rightarrow> map_sum id (with_id rid) (inner rid))"
    "p' = p\<lparr> rk_metrics := if url_path_of E rq = Inr ''/v1/infer''
       then observe_inference (if succeeded res then ''success'' else ''error'') (rr_elapsed rq) (rk_metrics p)
       else rk_metrics p \<rparr>"
  using assms by (auto simp: runtime_serve_def dispatch_eq split: option.splits sum.splits)

text \<open>The counters after some answers, compared with the counters before.\<close>

definition tallies :: "runtime_env \<Rightarrow> runtime_metrics \<Rightarrow> (runtime_request \<times> (exc + reply)) list \<Rightarrow> runtime_metrics \<Rightarrow> bool" where
  "tallies E m answers m' \<longleftrightarrow>
     counted ''success'' m' = counted ''success'' m + length (filter (succeeded \<circ> snd) (inferences E answers)) \<and>
     counted ''error'' m' =
       counted ''error'' m + length (filter (Not \<circ> succeeded \<circ> snd) (inferences E answers)) \<and>
     rm_duration m' = rm_duration m @ map (rr_elapsed \<circ> fst) (inferences E answers) \<and>
     rm_model m' = rm_model m \<and> rm_version m' = rm_version m"

lemma serve_tallies:
  assumes "runtime_serve E st rq p = Some (res, p1)" "tallies E (rk_metrics p1) answers m'"
  shows "tallies E (rk_metrics p) ((rq, res) # answers) m'"
  using assms(1)
proof (rule serve_SomeE)
  fix inner rid
  assume "p1 = p\<lparr> rk_metrics := if url_path_of E rq = Inr ''/v1/infer''
       then observe_inference (if succeeded res then ''success'' else ''error'') (rr_elapsed rq) (rk_metrics p)
       else rk_metrics p \<rparr>"
  then show ?thesis
    using assms(2) by (cases "url_path_of E rq = Inr ''/v1/infer''") (auto simp: tallies_def inferences_def counted_observe)
qed

lemma run_tallies:
  "runtime_run E st es p = (answers, p') \<Longrightarrow> tallies E (rk_metrics p) answers (rk_metrics p')"
proof (induction E st es p arbitrary: answers rule: runtime_run.induct)
  case (4 E st rq es p)
  then show ?case
    by (auto simp: serve_tallies split: option.splits prod.splits)
qed (auto simp: tallies_def inferences_def)

section \<open>Answers\<close>

text \<open>A prediction of the configured model and version.\<close>

definition predicted :: "runtime_env \<Rightarrow> runtime_settings \<Rightarrow> exc + reply \<Rightarrow> bool" where
  "predicted E st res \<longleftrightarrow>
     (\<exists>rep a. res = Inr rep \<and> rp_status rep = 200 \<and> rp_body rep = JsonBody (infer_json (re_repr E) a) \<and>
        ir_model a = rs_model_name st \<and> ir_version a = rs_model_version st)"

lemma runtime_infer_Inr:
  "runtime_infer F st r rid body = Inr a \<Longrightarrow>
     rt_ready r \<and> ir_model a = rs_model_name st \<and> ir_version a = rs_model_version st"
  by (auto simp: runtime_infer_def bind_result_Inr_iff split: if_splits option.splits sum.splits)

lemma infer_errors:
  "runtime_infer F st r rid body = Inl (HttpExc status d) \<Longrightarrow> status = 503"
  by (auto simp: runtime_infer_def bind_result_Inl_iff checked_def runtime_not_ready_def
      split: if_splits option.splits sum.splits)

lemma runtime_error_status:
  "runtime_respond render rid (Inl e) = Inr (status, b) \<Longrightarrow> status = 422 \<or> (\<exists>d. e = HttpExc status d)"
  by (cases e) (auto simp: runtime_respond_def runtime_validation_error_def Let_def split: if_splits)

lemma infer_call_respond:
  assumes "runtime_respond render rid (runtime_endpoint_call E st p InferText headers bytes rid) = Inr (status, b)"
    and "status < 400"
  shows "rt_ready (rk_state p) \<and> status = 200 \<and> (\<exists>a. b = JsonBody (infer_json (re_repr E) a) \<and>
    ir_model a = rs_model_name st \<and> ir_version a = rs_model_version st)"
proof (cases "fw_body (re_framework E) headers bytes")
  case (Inl vs)
  then show ?thesis
    using assms runtime_error_status [of render rid "ValidationExc vs" status b]
    by (simp add: runtime_endpoint_call_def)
next
  case (Inr body)
  show ?thesis
  proof (cases "runtime_infer (re_floats E) st (rk_state p) rid body")
    case (Inl e)
    have "runtime_endpoint_call E st p InferText headers bytes rid = Inl e"
      using Inl \<open>fw_body (re_framework E) headers bytes = Inr body\<close> by (simp add: runtime_endpoint_call_def)
    then show ?thesis
      using assms Inl infer_errors [of "re_floats E" st "rk_state p" rid body]
        runtime_error_status [of render rid e status b] by force
  next
    case (Inr a)
    then show ?thesis using assms \<open>fw_body (re_framework E) headers bytes = Inr body\<close> runtime_infer_Inr [OF Inr]
      by (auto simp: runtime_respond_def runtime_endpoint_call_def)
  qed
qed

lemma infer_application:
  assumes "web_framework (re_framework E)" "runtime_docs_only (re_docs E)"
    and "runtime_application E st p verb ''/v1/infer'' sc ms rid = Inr (status, b)" "status < 400"
  shows "verb = ''POST'' \<and> rt_ready (rk_state p) \<and> status = 200 \<and>
    (\<exists>a. b = JsonBody (infer_json (re_repr E) a) \<and> ir_model a = rs_model_name st \<and>
       ir_version a = rs_model_version st)"
proof (cases "verb = ''POST''")
  case True
  have "runtime_respond (re_render E) rid (runtime_endpoint_call E st p InferText (sc_headers sc)
      (concat (map body_bytes ms)) rid) = Inr (status, b)"
    using assms(3) unfolding runtime_application_def infer_select [OF assms(1,2)] if_P [OF True] by simp
  from infer_call_respond [OF this assms(4)] True show ?thesis by blast
next
  case False
  have "status = 405"
    using assms(3) unfolding runtime_application_def infer_select [OF assms(1,2)] if_not_P [OF False] by simp
  then show ?thesis using assms(4) by simp
qed

lemma serve_predicted:
  assumes "web_framework (re_framework E)" "runtime_docs_only (re_docs E)"
    and "runtime_serve E st rq p = Some (res, p')" "rr_path rq = ''/v1/infer''" "succeeded res"
  shows "rr_verb rq = ''POST'' \<and> rt_ready (rk_state p) \<and> predicted E st res"
  using assms(3)
proof (rule serve_SomeE)
  fix inner rid
  assume l: "runtime_limited E st p (rr_verb rq) (rr_path rq) (rr_scope rq) (rr_incoming rq) = Some inner"
    and res: "res = (case url_path_of E rq of Inl e \<Rightarrow> Inl (PyExc e) | Inr q \<Rightarrow> map_sum id (with_id rid) (inner rid))"
  obtain rep where rep: "inner rid = Inr rep" "rp_status rep < 400" "res = Inr (with_id rid rep)"
    using assms(5) res by (cases "inner rid") (auto split: sum.splits)
  obtain ms where "runtime_application E st p (rr_verb rq) ''/v1/infer'' (rr_scope rq) ms rid =
      Inr (rp_status rep, rp_body rep)"
    using l rep assms(4)
    by (auto simp: runtime_limited_def Let_def runtime_reject_def map_sum_def
        split: verdict.splits sum.splits prod.splits)
  from infer_application [OF assms(1,2) this rep(2)] show ?thesis
    using rep(3) by (auto simp: predicted_def)
qed

lemma run_predicted:
  assumes "web_framework (re_framework E)" "runtime_docs_only (re_docs E)"
  shows "runtime_run E st es p = (answers, p') \<Longrightarrow> (rq, res) \<in> set answers \<Longrightarrow> rr_path rq = ''/v1/infer'' \<Longrightarrow> succeeded res \<Longrightarrow>
    rr_verb rq = ''POST'' \<and> predicted E st res"
  using assms
proof (induction E st es p arbitrary: answers rule: runtime_run.induct)
  case (4 E st rq' es p)
  then show ?case
    using serve_predicted [OF 4(7,8), of st rq' p]
    by (auto split: option.splits prod.splits)
qed auto

text \<open>A request whose \<open>request.url.path\<close> is the path it was routed by.\<close>

definition ordinary :: "runtime_request \<Rightarrow> bool" where
  "ordinary rq \<longleftrightarrow>
     plain_host (sc_headers (rr_scope rq)) \<and> take 1 (rr_path rq) = ''/'' \<and> plain_path (rr_path rq)"

lemma ordinary_url: "web_framework (re_framework E) \<Longrightarrow> ordinary rq \<Longrightarrow> url_path_of E rq = Inr (rr_path rq)"
  by (simp add: url_path_of_def ordinary_def web_framework.url_path)

section \<open>Properties\<close>

text \<open>
  (C24) What the counters of the runtime count. Whatever requests a process answers between its starts
  and stops: of the ordinary ones (a host of letters, digits, dots, dashes and colons, and a path
  without \<open>?\<close>, \<open>#\<close>, tab and line break after decoding) the success counter has exactly the
  inference requests that were answered with a prediction of the configured model and version, and
  the error counter all other requests for the inference path, with any method and any failure; of
  the others it has those whose \<open>request.url.path\<close> reads as the inference path, by their status,
  although they need not be inferences. One duration is observed for each counted request, in the
  order of the answers, and no other request is counted.
\<close>

theorem runtime_counts_inferences:
  assumes "web_framework (re_framework E)" and "runtime_docs_only (re_docs E)"
    and "runtime_run E st events (create_runtime_app st) = (answers, p)"
  shows "counted ''success'' (rk_metrics p) =
      length (filter (\<lambda>(rq, res).
        if ordinary rq then rr_path rq = ''/v1/infer'' \<and> rr_verb rq = ''POST'' \<and> predicted E st res
        else url_path_of E rq = Inr ''/v1/infer'' \<and> succeeded res) answers) \<and>
    counted ''error'' (rk_metrics p) =
      length (filter (\<lambda>(rq, res).
        if ordinary rq then rr_path rq = ''/v1/infer'' \<and> \<not> predicted E st res
        else url_path_of E rq = Inr ''/v1/infer'' \<and> \<not> succeeded res) answers) \<and>
    rm_duration (rk_metrics p) =
      map (rr_elapsed \<circ> fst) (filter (\<lambda>(rq, res).
        if ordinary rq then rr_path rq = ''/v1/infer'' else url_path_of E rq = Inr ''/v1/infer'') answers)"
proof -
  note url = ordinary_url [OF assms(1)]
  have s: "succeeded res \<longleftrightarrow> predicted E st res" "succeeded res \<longrightarrow> rr_verb rq = ''POST''"
    if "(rq, res) \<in> set answers" "rr_path rq = ''/v1/infer''" for rq res
    using run_predicted [OF assms(1,2,3), of rq res] that by (auto simp: predicted_def)
  have "filter (succeeded \<circ> snd) (inferences E answers) =
      filter (\<lambda>(rq, res).
        if ordinary rq then rr_path rq = ''/v1/infer'' \<and> rr_verb rq = ''POST'' \<and> predicted E st res
        else url_path_of E rq = Inr ''/v1/infer'' \<and> succeeded res) answers"
    unfolding inferences_def filter_filter by (rule filter_cong [OF refl]) (use s url in \<open>auto split: if_splits\<close>)
  moreover have "filter (Not \<circ> succeeded \<circ> snd) (inferences E answers) =
      filter (\<lambda>(rq, res).
        if ordinary rq then rr_path rq = ''/v1/infer'' \<and> \<not> predicted E st res
        else url_path_of E rq = Inr ''/v1/infer'' \<and> \<not> succeeded res) answers"
    unfolding inferences_def filter_filter by (rule filter_cong [OF refl]) (use s url in \<open>auto split: if_splits\<close>)
  moreover have "inferences E answers = filter (\<lambda>(rq, res).
        if ordinary rq then rr_path rq = ''/v1/infer'' else url_path_of E rq = Inr ''/v1/infer'') answers"
    unfolding inferences_def by (rule filter_cong [OF refl]) (use url in \<open>auto split: if_splits\<close>)
  ultimately show ?thesis
    using run_tallies [OF assms(3)]
    by (simp add: tallies_def create_runtime_app_def new_metrics_def counted_def)
qed

definition demo_runtime_env :: runtime_env where
  "demo_runtime_env =
     \<lparr> re_floats = plain_floats, re_framework = plain_framework, re_docs = [], re_repr = (\<lambda>_. ''0.9''),
       re_render = (\<lambda>_. []), re_generate_latest = (\<lambda>_. []) \<rparr>"

definition demo_runtime_request :: "string \<Rightarrow> string \<Rightarrow> rat \<Rightarrow> runtime_request" where
  "demo_runtime_request verb path elapsed =
     \<lparr> rr_verb = verb, rr_path = path,
       rr_scope = \<lparr> sc_type = ''http'', sc_headers = [(''content-type'', ''application/json'')] \<rparr>,
       rr_incoming = [HttpRequest (Some (json_print id compact_layout 0 (JDict [(''text'', JStr ''fast'')]))) None],
       rr_uuid = ''u'', rr_elapsed = elapsed \<rparr>"

text \<open>Three requests that are counted (the last was not routed to the inference) and one that is not.\<close>

definition demo_runtime_run :: "(runtime_request \<times> (exc + reply)) list \<times> runtime_process" where
  "demo_runtime_run = runtime_run demo_runtime_env v2_settings
     [Start, Request (demo_runtime_request ''POST'' ''/v1/infer'' 1), Request (demo_runtime_request ''GET'' ''/v1/infer'' 2),
      Request (demo_runtime_request ''GET'' ''/health/live'' 3),
      Request (demo_runtime_request ''POST'' ''/v1/infer?x'' 4), Stop] (create_runtime_app v2_settings)"

lemma demo_runtime_counts:
  "counted ''success'' (rk_metrics (snd demo_runtime_run)) = 1"
  "counted ''error'' (rk_metrics (snd demo_runtime_run)) = 2"
  by code_simp+

theorem runtime_counts_inferences_witness:
  "length (filter (\<lambda>(rq, res).
     if ordinary rq then rr_path rq = ''/v1/infer'' \<and> rr_verb rq = ''POST'' \<and> predicted demo_runtime_env v2_settings res
     else url_path_of demo_runtime_env rq = Inr ''/v1/infer'' \<and> succeeded res) (fst demo_runtime_run)) = 1 \<and>
   length (filter (\<lambda>(rq, res).
     if ordinary rq then rr_path rq = ''/v1/infer'' \<and> \<not> predicted demo_runtime_env v2_settings res
     else url_path_of demo_runtime_env rq = Inr ''/v1/infer'' \<and> \<not> succeeded res) (fst demo_runtime_run)) = 2"
proof -
  have w: "web_framework (re_framework demo_runtime_env)" "runtime_docs_only (re_docs demo_runtime_env)"
    using plain_web.web_framework_axioms by (simp_all add: demo_runtime_env_def runtime_docs_only_def)
  obtain answers p where r: "demo_runtime_run = (answers, p)" by (cases demo_runtime_run)
  show ?thesis
    using runtime_counts_inferences [OF w r [unfolded demo_runtime_run_def]] demo_runtime_counts
    unfolding r by simp
qed

end
