(* ===== verification/Logs.thy ===== *)
theory Logs
  imports Json_Text Py_Text
begin

text \<open>
  The log formatters: \<open>JsonFormatter\<close> of \<open>app/logging_config.py\<close>, and the structured formatter with
  its context-aware logger of \<open>app/observability.py\<close>. A log record carries its attributes
  (\<open>__dict__\<close>) in insertion order; a value that JSON cannot represent stands as the text that
  \<open>default=str\<close> gives it. The clock and the rendering of a traceback are arguments.
\<close>

section \<open>Records\<close>

record log_record =
  lr_levelname :: string
  lr_name :: string
  lr_message :: string
  lr_exception :: "string option"
  lr_attributes :: "(string \<times> json) list"

text \<open>The attributes every record of the standard library has (\<open>taskName\<close> since Python 3.12).\<close>

definition standard_fields :: "string list" where
  "standard_fields =
     [''name'', ''msg'', ''args'', ''levelname'', ''levelno'', ''pathname'', ''filename'', ''module'',
      ''exc_info'', ''exc_text'', ''stack_info'', ''lineno'', ''funcName'', ''created'', ''msecs'',
      ''relativeCreated'', ''thread'', ''threadName'', ''processName'', ''process'', ''taskName'']"

definition is_extra :: "string \<Rightarrow> bool" where
  "is_extra key \<longleftrightarrow> key \<notin> set standard_fields \<and> key \<notin> {''message'', ''asctime''}"

text \<open>Assigning the items of one dict into another, in order (\<open>dict.update\<close>).\<close>

definition dict_update :: "(string \<times> json) list \<Rightarrow> (string \<times> json) list \<Rightarrow> (string \<times> json) list" where
  "dict_update d items = fold (\<lambda>(k, v). AList.update k v) items d"

section \<open>The formatters\<close>

definition json_payload :: "string \<Rightarrow> string option \<Rightarrow> log_record \<Rightarrow> (string \<times> json) list" where
  "json_payload timestamp request_id rec =
     (let payload = [(''timestamp'', JStr timestamp), (''level'', JStr (lr_levelname rec)),
                     (''logger'', JStr (lr_name rec)), (''message'', JStr (lr_message rec))];
          payload = (case request_id of
             None \<Rightarrow> payload
           | Some r \<Rightarrow> if r = [] then payload else AList.update ''request_id'' (JStr r) payload);
          payload = dict_update payload (filter (\<lambda>(key, value). is_extra key) (lr_attributes rec)) in
      case lr_exception rec of
        None \<Rightarrow> payload
      | Some trace \<Rightarrow> AList.update ''exception'' (JStr trace) payload)"

definition JsonFormatter_format ::
  "(string \<Rightarrow> string) \<Rightarrow> string \<Rightarrow> string option \<Rightarrow> log_record \<Rightarrow> string" where
  "JsonFormatter_format fr timestamp request_id rec =
     json_print fr compact_layout 0 (JDict (json_payload timestamp request_id rec))"

text \<open>The structured formatter: fields of the record's \<open>extra_fields\<close> attribute are merged last.\<close>

definition structured_payload :: "string \<Rightarrow> string \<Rightarrow> log_record \<Rightarrow> (string \<times> json) list" where
  "structured_payload timestamp correlation_id rec =
     (let log_obj = [(''timestamp'', JStr timestamp), (''level'', JStr (lr_levelname rec)),
                     (''logger'', JStr (lr_name rec)), (''message'', JStr (lr_message rec)),
                     (''correlation_id'', JStr correlation_id)];
          log_obj = (case lr_exception rec of
             None \<Rightarrow> log_obj | Some trace \<Rightarrow> AList.update ''exception'' (JStr trace) log_obj) in
      case map_of (lr_attributes rec) ''extra_fields'' of
        Some (JDict extras) \<Rightarrow> dict_update log_obj extras
      | _ \<Rightarrow> log_obj)"

definition StructuredFormatter_format ::
  "(string \<Rightarrow> string) \<Rightarrow> string \<Rightarrow> string \<Rightarrow> log_record \<Rightarrow> string" where
  "StructuredFormatter_format fr timestamp correlation_id rec =
     json_print fr default_layout 0 (JDict (structured_payload timestamp correlation_id rec))"

text \<open>
  The logger: the fields it hands on as the record's \<open>extra_fields\<close>. The caller's \<open>extra_fields\<close>
  entry, when there is one, is a dict.
\<close>

definition log_fields :: "string \<Rightarrow> (string \<times> json) list \<Rightarrow> (string \<times> json) list" where
  "log_fields correlation_id extra =
     (let flds = [(''correlation_id'', JStr correlation_id)] in
      if extra = [] then flds
      else dict_update
        (dict_update flds (case map_of extra ''extra_fields'' of Some (JDict d) \<Rightarrow> d | _ \<Rightarrow> []))
        (filter (\<lambda>(key, value). key \<noteq> ''extra_fields'') extra))"

definition context_log ::
  "string \<Rightarrow> (string \<times> json) list \<Rightarrow> log_record \<Rightarrow> log_record" where
  "context_log correlation_id extra rec =
     rec\<lparr> lr_attributes :=
       AList.update ''extra_fields'' (JDict (log_fields correlation_id extra)) (lr_attributes rec) \<rparr>"

section \<open>Installing the formatters\<close>

text \<open>
  The state of the logging library that the two set-up functions change: the handlers of the root
  logger (each with its formatter), its level, the class new loggers get, and the loggers that exist.
\<close>

datatype formatter = JsonFormatter | StructuredFormatter | PlainFormatter

record named_logger =
  nl_context_aware :: bool
  nl_handlers :: "formatter list"
  nl_propagate :: bool

record logging_state =
  root_handlers :: "formatter list"
  root_level :: string
  context_aware_class :: bool
  named_loggers :: "(string \<times> named_logger) list"

text \<open>\<open>logging.getLogger\<close>: an existing logger keeps its class, a new one has the current class.\<close>

definition get_logger :: "string \<Rightarrow> logging_state \<Rightarrow> logging_state" where
  "get_logger name ls =
     (case map_of (named_loggers ls) name of
        Some _ \<Rightarrow> ls
      | None \<Rightarrow> ls\<lparr> named_loggers := AList.update name
          \<lparr> nl_context_aware = context_aware_class ls, nl_handlers = [], nl_propagate = True \<rparr>
          (named_loggers ls) \<rparr>)"

definition reset_logger :: "string \<Rightarrow> logging_state \<Rightarrow> logging_state" where
  "reset_logger name ls =
     (let ls = get_logger name ls in
      case map_of (named_loggers ls) name of
        None \<Rightarrow> ls
      | Some l \<Rightarrow> ls\<lparr> named_loggers :=
          AList.update name (l\<lparr> nl_handlers := [], nl_propagate := True \<rparr>) (named_loggers ls) \<rparr>)"

definition configure_logging :: "string \<Rightarrow> logging_state \<Rightarrow> logging_state" where
  "configure_logging level ls =
     fold reset_logger [''uvicorn'', ''uvicorn.error'', ''uvicorn.access'']
       (ls\<lparr> root_handlers := [JsonFormatter], root_level := level \<rparr>)"

definition configure_structured_logging :: "string \<Rightarrow> bool \<Rightarrow> logging_state \<Rightarrow> logging_state" where
  "configure_structured_logging level json_format ls =
     ls\<lparr> context_aware_class := True, root_level := py_upper level,
         root_handlers := [if json_format then StructuredFormatter else PlainFormatter] \<rparr>"

text \<open>
  A call of a logger with extra attributes: the record it makes, and the lines of the handlers it
  reaches, its own and, when it propagates, those of the root. A record below the level of the root,
  which is the level of every logger and handler of the program, is dropped. \<open>plain\<close> is the layout of
  the standard formatter.
\<close>

definition level_number :: "string \<Rightarrow> nat" where
  "level_number level =
     (case map_of [(''CRITICAL'', 50), (''ERROR'', 40), (''WARNING'', 30), (''INFO'', 20), (''DEBUG'', 10)] level of
        Some k \<Rightarrow> k
      | None \<Rightarrow> 0)"

definition logged_record ::
  "named_logger \<Rightarrow> string \<Rightarrow> (string \<times> json) list \<Rightarrow> log_record \<Rightarrow> log_record" where
  "logged_record l correlation_id extra rec =
     (if nl_context_aware l then context_log correlation_id extra rec
      else rec\<lparr> lr_attributes := dict_update (lr_attributes rec) extra \<rparr>)"

definition format_record ::
  "(string \<Rightarrow> string) \<Rightarrow> (log_record \<Rightarrow> string) \<Rightarrow> string \<Rightarrow> string option \<Rightarrow> string \<Rightarrow> log_record \<Rightarrow> formatter \<Rightarrow> string" where
  "format_record fr plain timestamp request_id correlation_id rec f =
     (case f of
        JsonFormatter \<Rightarrow> JsonFormatter_format fr timestamp request_id rec
      | StructuredFormatter \<Rightarrow> StructuredFormatter_format fr timestamp correlation_id rec
      | PlainFormatter \<Rightarrow> plain rec)"

definition log_lines ::
  "(string \<Rightarrow> string) \<Rightarrow> (log_record \<Rightarrow> string) \<Rightarrow> string \<Rightarrow> string option \<Rightarrow> string \<Rightarrow> string
     \<Rightarrow> (string \<times> json) list \<Rightarrow> log_record \<Rightarrow> logging_state \<Rightarrow> string list" where
  "log_lines fr plain timestamp request_id correlation_id name extra rec ls =
     (case map_of (named_loggers ls) name of
        None \<Rightarrow> []
      | Some l \<Rightarrow>
          if level_number (lr_levelname rec) < level_number (root_level ls) then []
          else map (format_record fr plain timestamp request_id correlation_id
                 (logged_record l correlation_id extra rec))
            (nl_handlers l @ (if nl_propagate l then root_handlers ls else [])))"

lemma reset_logger_other:
  "n \<noteq> name \<Longrightarrow> map_of (named_loggers (reset_logger name ls)) n = map_of (named_loggers ls) n"
  by (simp add: reset_logger_def get_logger_def Let_def update_conv' split: option.splits)

lemma reset_logger_root [simp]: "root_handlers (reset_logger name ls) = root_handlers ls"
  by (simp add: reset_logger_def get_logger_def Let_def split: option.splits)

lemma reset_logger_level [simp]: "root_level (reset_logger name ls) = root_level ls"
  by (simp add: reset_logger_def get_logger_def Let_def split: option.splits)

lemma configure_logging_level: "root_level (configure_logging level ls) = level"
  by (simp add: configure_logging_def)

lemma configure_logging_effect:
  "root_handlers (configure_logging level ls) = [JsonFormatter]"
  "n \<notin> {''uvicorn'', ''uvicorn.error'', ''uvicorn.access''} \<Longrightarrow>
     map_of (named_loggers (configure_logging level ls)) n = map_of (named_loggers ls) n"
  by (simp_all add: configure_logging_def reset_logger_other)

section \<open>Lookups\<close>

lemma dict_update_simps [simp]:
  "dict_update d [] = d"
  "dict_update d (kv # items) = dict_update (AList.update (fst kv) (snd kv) d) items"
  by (simp_all add: dict_update_def case_prod_beta)

lemma map_of_dict_update:
  "distinct (map fst items) \<Longrightarrow>
     map_of (dict_update d items) k = (case map_of items k of None \<Rightarrow> map_of d k | Some v \<Rightarrow> Some v)"
proof (induction items arbitrary: d)
  case (Cons kv items)
  then have "k = fst kv \<Longrightarrow> map_of items k = None" by (simp add: map_of_eq_None_iff)
  then show ?case using Cons by (cases kv) (auto simp: update_conv' split: option.splits)
qed simp

lemma distinct_dict_update: "distinct (map fst d) \<Longrightarrow> distinct (map fst (dict_update d items))"
  by (induction items arbitrary: d) (simp_all add: distinct_update)

definition wf_items :: "(string \<Rightarrow> string) \<Rightarrow> (string \<times> json) list \<Rightarrow> bool" where
  "wf_items fr d \<longleftrightarrow> (\<forall>(k, v) \<in> set d. jwf fr v)"

lemma wf_update: "wf_items fr d \<Longrightarrow> jwf fr v \<Longrightarrow> wf_items fr (AList.update k v d)"
  by (induction d) (auto simp: wf_items_def)

lemma wf_items_Cons [simp]:
  "wf_items fr []" "wf_items fr (kv # items) \<longleftrightarrow> jwf fr (snd kv) \<and> wf_items fr items"
  by (auto simp: wf_items_def)

lemma wf_dict_update: "wf_items fr d \<Longrightarrow> wf_items fr items \<Longrightarrow> wf_items fr (dict_update d items)"
  by (induction items arbitrary: d) (simp_all add: wf_update)

lemma wf_JDict: "distinct (map fst d) \<Longrightarrow> wf_items fr d \<Longrightarrow> jwf fr (JDict d)"
  by (auto simp: wf_items_def)

section \<open>What a line says\<close>

lemma json_payload_wf:
  assumes "wf_items fr (lr_attributes rec)"
  shows "jwf fr (JDict (json_payload ts rid rec))"
proof (rule wf_JDict)
  have "wf_items fr (filter (\<lambda>(key, value). is_extra key) (lr_attributes rec))"
    using assms by (auto simp: wf_items_def)
  then show "wf_items fr (json_payload ts rid rec)"
    by (auto simp: json_payload_def Let_def intro!: wf_update wf_dict_update split: option.splits)
  show "distinct (map fst (json_payload ts rid rec))"
    by (auto simp: json_payload_def Let_def intro!: distinct_update distinct_dict_update
        split: option.splits)
qed

lemma map_of_filter_key:
  "map_of (filter (\<lambda>(key, value). p key) xs) k = (if p k then map_of xs k else None)"
  by (induction xs) auto

lemma distinct_filter_key:
  "distinct (map fst xs) \<Longrightarrow> distinct (map fst (filter (\<lambda>(key, value). p key) xs))"
  by (induction xs) auto

lemma json_line_loads:
  "wf_items fr (lr_attributes rec) \<Longrightarrow>
     json_loads (JsonFormatter_format fr ts rid rec) = Some (JDict (json_payload ts rid rec))"
  using json_loads_print [OF layouts_ok(2) json_payload_wf]
  by (simp add: JsonFormatter_format_def reorder_def compact_layout_def)

definition base_field :: "string \<Rightarrow> log_record \<Rightarrow> string \<rightharpoonup> json" where
  "base_field ts rec = [''timestamp'' \<mapsto> JStr ts, ''level'' \<mapsto> JStr (lr_levelname rec),
     ''logger'' \<mapsto> JStr (lr_name rec), ''message'' \<mapsto> JStr (lr_message rec)]"

lemma json_payload_lookup:
  assumes "distinct (map fst (lr_attributes rec))"
  shows "map_of (json_payload ts rid rec) k =
    (if k = ''exception'' \<and> lr_exception rec \<noteq> None then Some (JStr (the (lr_exception rec)))
     else if is_extra k \<and> map_of (lr_attributes rec) k \<noteq> None then map_of (lr_attributes rec) k
     else if k = ''request_id'' then (case rid of Some (c # r) \<Rightarrow> Some (JStr (c # r)) | _ \<Rightarrow> None)
     else base_field ts rec k)"
proof -
  let ?base = "[(''timestamp'', JStr ts), (''level'', JStr (lr_levelname rec)),
    (''logger'', JStr (lr_name rec)), (''message'', JStr (lr_message rec))]"
  let ?p = "case rid of None \<Rightarrow> ?base
    | Some r \<Rightarrow> if r = [] then ?base else AList.update ''request_id'' (JStr r) ?base"
  let ?q = "dict_update ?p (filter (\<lambda>(key, value). is_extra key) (lr_attributes rec))"
  have p: "map_of ?p k = (if k = ''request_id''
      then (case rid of Some (c # r) \<Rightarrow> Some (JStr (c # r)) | _ \<Rightarrow> None) else base_field ts rec k)"
    by (auto simp: base_field_def update_conv' split: option.splits list.splits)
  have q: "map_of ?q k = (if is_extra k \<and> map_of (lr_attributes rec) k \<noteq> None
      then map_of (lr_attributes rec) k else map_of ?p k)"
    using map_of_dict_update [OF distinct_filter_key [OF assms], of ?p is_extra k]
    by (simp add: map_of_filter_key split: option.splits)
  have "map_of (json_payload ts rid rec) k =
      (if k = ''exception'' \<and> lr_exception rec \<noteq> None then Some (JStr (the (lr_exception rec)))
       else map_of ?q k)"
    unfolding json_payload_def Let_def by (cases "lr_exception rec") (simp_all add: update_conv')
  then show ?thesis unfolding q p by simp
qed

section \<open>Properties\<close>

text \<open>
  Each record is one line holding one JSON object. Whatever the message and the attributes
  contain, the line has no line feed and parses to an object that carries the message, and for every
  key, in this order of precedence: the traceback, the caller's extra attribute, the current request
  id, the record's time, level and logger. Attributes of the standard library never appear.
\<close>

theorem json_log_line:
  assumes "\<And>t. one_line (fr t)" and "distinct (map fst (lr_attributes rec))"
    and "wf_items fr (lr_attributes rec)"
  shows "one_line (JsonFormatter_format fr ts rid rec) \<and>
    (\<exists>kvs. json_loads (JsonFormatter_format fr ts rid rec) = Some (JDict kvs) \<and>
      map_of kvs ''message'' = Some (JStr (lr_message rec)) \<and>
      (\<forall>k. map_of kvs k =
        (if k = ''exception'' \<and> lr_exception rec \<noteq> None then Some (JStr (the (lr_exception rec)))
         else if is_extra k \<and> map_of (lr_attributes rec) k \<noteq> None then map_of (lr_attributes rec) k
         else if k = ''request_id'' then (case rid of Some (c # r) \<Rightarrow> Some (JStr (c # r)) | _ \<Rightarrow> None)
         else base_field ts rec k)))"
proof -
  have "json_loads (JsonFormatter_format fr ts rid rec) = Some (JDict (json_payload ts rid rec))"
    using assms(3) by (rule json_line_loads)
  moreover have "one_line (JsonFormatter_format fr ts rid rec)"
    unfolding JsonFormatter_format_def by (rule one_line_print [OF assms(1) layouts_flat(2)])
  moreover have "map_of (json_payload ts rid rec) ''message'' = Some (JStr (lr_message rec))"
    by (simp add: json_payload_lookup [OF assms(2)] is_extra_def base_field_def)
  ultimately show ?thesis using json_payload_lookup [OF assms(2)] by blast
qed

definition sample_record :: log_record where
  "sample_record =
     \<lparr> lr_levelname = ''INFO'', lr_name = ''kernexys.http'', lr_message = ''a'' @ [CHR 0x0A, CHR 0x22],
       lr_exception = None,
       lr_attributes = [(''levelno'', JInt 20), (''status_code'', JInt 200), (''message'', JStr ''x'')] \<rparr>"

theorem json_log_line_witness:
  "\<exists>kvs. json_loads (JsonFormatter_format (\<lambda>_. ''0.0'') ''2026'' (Some ''r-1'') sample_record) =
      Some (JDict kvs) \<and>
     map_of kvs ''message'' = Some (JStr (''a'' @ [CHR 0x0A, CHR 0x22])) \<and>
     map_of kvs ''request_id'' = Some (JStr ''r-1'') \<and> map_of kvs ''status_code'' = Some (JInt 200) \<and>
     map_of kvs ''levelno'' = None"
proof -
  have o: "one_line ((\<lambda>_. ''0.0'') t)" for t :: string by (simp add: one_line_def)
  have d: "distinct (map fst (lr_attributes sample_record))"
    and w: "wf_items (\<lambda>_. ''0.0'') (lr_attributes sample_record)"
    by (simp_all add: sample_record_def)
  note line = json_log_line [OF o d w, THEN conjunct2, of "''2026''" "Some ''r-1''"]
  show ?thesis
    by (insert line, elim exE conjE, intro exI conjI, assumption)
      (simp_all add: sample_record_def is_extra_def standard_fields_def base_field_def)
qed

section \<open>The structured logger\<close>

definition nested_fields :: "(string \<times> json) list \<Rightarrow> (string \<times> json) list" where
  "nested_fields extra = (case map_of extra ''extra_fields'' of Some (JDict d) \<Rightarrow> d | _ \<Rightarrow> [])"

lemma nested_fields_wf:
  assumes "wf_items fr extra"
  shows "distinct (map fst (nested_fields extra))" "wf_items fr (nested_fields extra)"
proof -
  have "distinct (map fst (nested_fields extra)) \<and> wf_items fr (nested_fields extra)"
  proof (cases "map_of extra ''extra_fields''")
    case (Some v)
    then have "jwf fr v" using assms map_of_SomeD [OF Some] by (auto simp: wf_items_def)
    then show ?thesis using Some by (cases v) (auto simp: nested_fields_def wf_items_def)
  qed (simp add: nested_fields_def)
  then show "distinct (map fst (nested_fields extra))" "wf_items fr (nested_fields extra)" by auto
qed

lemma log_fields_eq:
  "log_fields cid extra = dict_update (dict_update [(''correlation_id'', JStr cid)] (nested_fields extra))
     (filter (\<lambda>(key, value). key \<noteq> ''extra_fields'') extra)"
  by (simp add: log_fields_def nested_fields_def Let_def)

lemma log_fields_lookup:
  assumes "distinct (map fst extra)" and "wf_items fr extra"
  shows "map_of (log_fields cid extra) k =
    (if k \<noteq> ''extra_fields'' \<and> map_of extra k \<noteq> None then map_of extra k
     else if map_of (nested_fields extra) k \<noteq> None then map_of (nested_fields extra) k
     else if k = ''correlation_id'' then Some (JStr cid) else None)"
  using map_of_dict_update [OF distinct_filter_key [OF assms(1)], where p1 = "\<lambda>key. key \<noteq> ''extra_fields''"]
    map_of_dict_update [OF nested_fields_wf(1) [OF assms(2)]]
  by (auto simp: log_fields_eq map_of_filter_key split: option.splits)

lemma log_fields_wf:
  assumes "wf_items fr extra"
  shows "distinct (map fst (log_fields cid extra))" "wf_items fr (log_fields cid extra)"
proof -
  have "wf_items fr (filter (\<lambda>(key, value). key \<noteq> ''extra_fields'') extra)"
    using assms by (auto simp: wf_items_def)
  then show "wf_items fr (log_fields cid extra)"
    using nested_fields_wf [OF assms] by (auto simp: log_fields_eq intro!: wf_dict_update)
  show "distinct (map fst (log_fields cid extra))"
    by (auto simp: log_fields_eq intro!: distinct_dict_update)
qed

lemma structured_payload_lookup:
  assumes "distinct (map fst flds)" and "map_of (lr_attributes rec) ''extra_fields'' = Some (JDict flds)"
  shows "map_of (structured_payload ts cid rec) k =
    (if map_of flds k \<noteq> None then map_of flds k
     else if k = ''correlation_id'' then Some (JStr cid)
     else if k = ''exception'' \<and> lr_exception rec \<noteq> None then Some (JStr (the (lr_exception rec)))
     else base_field ts rec k)"
  using map_of_dict_update [OF assms(1)]
  by (cases "lr_exception rec")
    (auto simp: structured_payload_def Let_def assms(2) base_field_def update_conv' split: option.splits)

lemma structured_payload_wf:
  assumes "wf_items fr flds" and "map_of (lr_attributes rec) ''extra_fields'' = Some (JDict flds)"
  shows "jwf fr (JDict (structured_payload ts cid rec))"
proof (rule wf_JDict)
  show "wf_items fr (structured_payload ts cid rec)"
    using assms by (auto simp: structured_payload_def Let_def intro!: wf_update wf_dict_update
        split: option.splits)
  show "distinct (map fst (structured_payload ts cid rec))"
    using assms(2) by (auto simp: structured_payload_def Let_def
        intro!: distinct_update distinct_dict_update split: option.splits)
qed

text \<open>
  The structured logger keeps what it is given. A record logged with extra attributes is one
  line with one JSON object; every extra attribute of the caller, at the top level or inside
  \<open>extra_fields\<close>, is a field of it with its value (the former before the latter), and the
  correlation id is the caller's if there is one and otherwise that of the context.
\<close>

theorem structured_log_line:
  assumes "\<And>t. one_line (fr t)" and "distinct (map fst extra)" and "wf_items fr extra"
  shows "one_line (StructuredFormatter_format fr ts cid (context_log cid extra rec)) \<and>
    (\<exists>kvs. json_loads (StructuredFormatter_format fr ts cid (context_log cid extra rec)) = Some (JDict kvs) \<and>
      (\<forall>k. map_of kvs k =
        (if k \<noteq> ''extra_fields'' \<and> map_of extra k \<noteq> None then map_of extra k
         else if map_of (nested_fields extra) k \<noteq> None then map_of (nested_fields extra) k
         else if k = ''correlation_id'' then Some (JStr cid)
         else if k = ''exception'' \<and> lr_exception rec \<noteq> None then Some (JStr (the (lr_exception rec)))
         else base_field ts rec k)))"
proof -
  let ?r = "context_log cid extra rec"
  have r: "map_of (lr_attributes ?r) ''extra_fields'' = Some (JDict (log_fields cid extra))"
    "lr_exception ?r = lr_exception rec" "base_field ts ?r = base_field ts rec"
    by (simp_all add: context_log_def update_conv' base_field_def)
  have "json_loads (StructuredFormatter_format fr ts cid ?r) = Some (JDict (structured_payload ts cid ?r))"
    using json_loads_print [OF layouts_ok(1) structured_payload_wf [OF log_fields_wf(2) [OF assms(3)] r(1)]]
    by (simp add: StructuredFormatter_format_def reorder_def default_layout_def)
  moreover have "one_line (StructuredFormatter_format fr ts cid ?r)"
    unfolding StructuredFormatter_format_def by (rule one_line_print [OF assms(1) layouts_flat(1)])
  moreover have "map_of (structured_payload ts cid ?r) k =
      (if k \<noteq> ''extra_fields'' \<and> map_of extra k \<noteq> None then map_of extra k
       else if map_of (nested_fields extra) k \<noteq> None then map_of (nested_fields extra) k
       else if k = ''correlation_id'' then Some (JStr cid)
       else if k = ''exception'' \<and> lr_exception rec \<noteq> None then Some (JStr (the (lr_exception rec)))
       else base_field ts rec k)" for k
    unfolding structured_payload_lookup [OF log_fields_wf(1) [OF assms(3)] r(1)] r(2,3)
      log_fields_lookup [OF assms(2,3)]
    by (simp split del: if_split) (simp split: if_split)
  ultimately show ?thesis by blast
qed

definition sample_extra :: "(string \<times> json) list" where
  "sample_extra = [(''job_id'', JStr ''j-1''), (''extra_fields'', JDict [(''attempt'', JInt 2)])]"

theorem structured_log_line_witness:
  "\<exists>kvs. json_loads (StructuredFormatter_format (\<lambda>_. ''0.0'') ''2026'' ''c-1''
        (context_log ''c-1'' sample_extra sample_record)) = Some (JDict kvs) \<and>
     map_of kvs ''job_id'' = Some (JStr ''j-1'') \<and> map_of kvs ''attempt'' = Some (JInt 2) \<and>
     map_of kvs ''correlation_id'' = Some (JStr ''c-1'')"
proof -
  have o: "one_line ((\<lambda>_. ''0.0'') t)" for t :: string by (simp add: one_line_def)
  have d: "distinct (map fst sample_extra)" and w: "wf_items (\<lambda>_. ''0.0'') sample_extra"
    by (simp_all add: sample_extra_def)
  note line = structured_log_line [OF o d w, THEN conjunct2, of "''2026''" "''c-1''" sample_record]
  show ?thesis
    by (insert line, elim exE conjE, intro exI conjI, assumption)
      (simp_all add: sample_extra_def nested_fields_def)
qed

end
