(* ===== verification/Worker_Tasks.thy ===== *)
theory Worker_Tasks
  imports Drain Logs Config
begin

text \<open>
  The worker process of \<open>app/worker.py\<close> as a whole: \<open>main\<close>, the start-up sweep, the task group of
  \<open>run_worker\<close> with one recovery task and the configured number of consumers, the stop event that
  the signal handlers set, and the closing of the queue. A step is one await of one task, but that the
  two commands of a sweep, and the request to the runtime with the transaction that settles the job,
  are one step each; between any two steps other processes may act on the same queue.
\<close>

section \<open>Tasks\<close>

text \<open>
  What a consumer is doing: at the head of its loop, awaiting one of the round trips of \<open>claim\<close>,
  processing a job, or waiting after a queue error; or it has returned, raised, or been cancelled.
\<close>

datatype consumer =
    AtLoop
  | Claiming
  | Reading string
  | Discarding string
  | Stamping string "(string \<times> string) list"
  | Processing claimed_job
  | BackingOff
  | Returned
  | Raised py_error
  | Cancelled

datatype sweeper = SweepAtLoop | SweepWaiting | Sweeping | SweepReturned | SweepCancelled

fun consumer_done :: "consumer \<Rightarrow> bool" where
  "consumer_done Returned = True"
| "consumer_done (Raised e) = True"
| "consumer_done Cancelled = True"
| "consumer_done _ = False"

fun sweeper_done :: "sweeper \<Rightarrow> bool" where
  "sweeper_done SweepReturned = True"
| "sweeper_done SweepCancelled = True"
| "sweeper_done _ = False"

text \<open>
  One step of \<open>consume\<close>, with the value of the stop event. The outcome of each round trip (\<open>link\<close>),
  the time of the claim and the answer of the runtime are free. A queue error leads to the wait of at
  most one second, which the stop event may cut short.
\<close>

inductive consumer_step ::
  "'s redis \<Rightarrow> float_text \<Rightarrow> (string \<Rightarrow> string) \<Rightarrow> inference_queue \<Rightarrow> bool \<Rightarrow> 's \<times> consumer \<Rightarrow> 's \<times> consumer
     \<Rightarrow> bool"
  for R F fr Q stop where
  enter: "\<not> stop \<Longrightarrow> consumer_step R F fr Q stop (s, AtLoop) (s, Claiming)"
| leave: "stop \<Longrightarrow> consumer_step R F fr Q stop (s, AtLoop) (s, Returned)"
| pop: "call l (claim_pop R) s = (r, s') \<Longrightarrow>
    consumer_step R F fr Q stop (s, Claiming)
      (s', case r of None \<Rightarrow> BackingOff | Some None \<Rightarrow> AtLoop | Some (Some i) \<Rightarrow> Reading i)"
| read: "call l (claim_read R i) s = (r, s') \<Longrightarrow>
    consumer_step R F fr Q stop (s, Reading i)
      (s', case r of None \<Rightarrow> BackingOff
           | Some job \<Rightarrow> if rejected_claim job then Discarding i else Stamping i job)"
| discard: "call l (claim_discard R i) s = (r, s') \<Longrightarrow>
    consumer_step R F fr Q stop (s, Discarding i)
      (s', case r of None \<Rightarrow> BackingOff | Some _ \<Rightarrow> AtLoop)"
| stamp: "call l (claim_stamp R F i now) s = (r, s') \<Longrightarrow>
    consumer_step R F fr Q stop (s, Stamping i job)
      (s', case r of None \<Rightarrow> BackingOff
           | Some _ \<Rightarrow> (case claimed_payload job of
               None \<Rightarrow> BackingOff
             | Some v \<Rightarrow> Processing \<lparr>cj_job_id = i, cj_payload = v\<rparr>))"
| process: "process_job R fr Q l post job s = (r, s') \<Longrightarrow>
    consumer_step R F fr Q stop (s, Processing job)
      (s', case r of Inr _ \<Rightarrow> AtLoop | Inl (QueueFailure _) \<Rightarrow> BackingOff | Inl (Uncaught e) \<Rightarrow> Raised e)"
| back_off: "consumer_step R F fr Q stop (s, BackingOff) (s, AtLoop)"

text \<open>One step of \<open>recover_periodically\<close>: the wait ends by the stop event or after the interval.\<close>

inductive sweeper_step ::
  "'s redis \<Rightarrow> float_text \<Rightarrow> inference_queue \<Rightarrow> bool \<Rightarrow> 's \<times> sweeper \<Rightarrow> 's \<times> sweeper \<Rightarrow> bool"
  for R F Q stop where
  sweep_leave: "stop \<Longrightarrow> sweeper_step R F Q stop (s, SweepAtLoop) (s, SweepReturned)"
| sweep_wait: "\<not> stop \<Longrightarrow> sweeper_step R F Q stop (s, SweepAtLoop) (s, SweepWaiting)"
| sweep_stopped: "stop \<Longrightarrow> sweeper_step R F Q stop (s, SweepWaiting) (s, SweepReturned)"
| sweep_interval: "sweeper_step R F Q stop (s, SweepWaiting) (s, Sweeping)"
| sweep: "sweeper_step R F Q stop (s, Sweeping) (snd (recover_processing R F Q l1 l2 now s), SweepAtLoop)"

section \<open>The process\<close>

text \<open>How \<open>run_worker\<close> ends: normally, with the error of the start-up sweep, or with those of its tasks.\<close>

datatype worker_end = Clean | StartFailed queue_error | TaskErrors "py_error list"

datatype worker_phase = Starting | Serving | Closing worker_end | Closed worker_end

record 's worker_proc =
  wp_phase :: worker_phase
  wp_store :: 's
  wp_stop :: bool
  wp_consumers :: "consumer list"
  wp_sweeper :: sweeper
  wp_closes :: nat

fun raised_error :: "consumer \<Rightarrow> py_error option" where
  "raised_error (Raised e) = Some e"
| "raised_error _ = None"

definition task_errors :: "'s worker_proc \<Rightarrow> py_error list" where
  "task_errors \<sigma> = List.map_filter raised_error (wp_consumers \<sigma>)"

text \<open>The process as \<open>run_worker\<close> starts it: the queue is created, nothing has been awaited.\<close>

definition run_worker :: "'s \<Rightarrow> 's worker_proc" where
  "run_worker s =
     \<lparr> wp_phase = Starting, wp_store = s, wp_stop = False, wp_consumers = [],
       wp_sweeper = SweepAtLoop, wp_closes = 0 \<rparr>"

text \<open>
  A step of the process itself. When a task has raised, the task group cancels the others: each ends
  where it is, the command it awaits having taken effect or not. The group ends when all tasks have,
  and the queue is closed on every way out.
\<close>

inductive worker_step ::
  "'s redis \<Rightarrow> float_text \<Rightarrow> (string \<Rightarrow> string) \<Rightarrow> inference_queue \<Rightarrow> nat \<Rightarrow> 's worker_proc \<Rightarrow> 's worker_proc \<Rightarrow> bool"
  for R F fr Q concurrency where
  start: "wp_phase \<sigma> = Starting \<Longrightarrow> recover_processing R F Q l1 l2 now (wp_store \<sigma>) = (Inr n, s') \<Longrightarrow>
    worker_step R F fr Q concurrency \<sigma>
      (\<sigma>\<lparr> wp_phase := Serving, wp_store := s', wp_consumers := replicate concurrency AtLoop,
          wp_sweeper := SweepAtLoop \<rparr>)"
| start_fails: "wp_phase \<sigma> = Starting \<Longrightarrow> recover_processing R F Q l1 l2 now (wp_store \<sigma>) = (Inl e, s') \<Longrightarrow>
    worker_step R F fr Q concurrency \<sigma> (\<sigma>\<lparr> wp_phase := Closing (StartFailed e), wp_store := s' \<rparr>)"
| consumes: "wp_phase \<sigma> = Serving \<Longrightarrow> i < length (wp_consumers \<sigma>) \<Longrightarrow>
    consumer_step R F fr Q (wp_stop \<sigma>) (wp_store \<sigma>, wp_consumers \<sigma> ! i) (s', c) \<Longrightarrow>
    worker_step R F fr Q concurrency \<sigma>
      (\<sigma>\<lparr> wp_store := s', wp_consumers := (wp_consumers \<sigma>)[i := c] \<rparr>)"
| recovers: "wp_phase \<sigma> = Serving \<Longrightarrow>
    sweeper_step R F Q (wp_stop \<sigma>) (wp_store \<sigma>, wp_sweeper \<sigma>) (s', w) \<Longrightarrow>
    worker_step R F fr Q concurrency \<sigma> (\<sigma>\<lparr> wp_store := s', wp_sweeper := w \<rparr>)"
| cancel: "wp_phase \<sigma> = Serving \<Longrightarrow> task_errors \<sigma> \<noteq> [] \<Longrightarrow> i < length (wp_consumers \<sigma>) \<Longrightarrow>
    \<not> consumer_done (wp_consumers \<sigma> ! i) \<Longrightarrow>
    s' = wp_store \<sigma> \<or> consumer_step R F fr Q (wp_stop \<sigma>) (wp_store \<sigma>, wp_consumers \<sigma> ! i) (s', c) \<Longrightarrow>
    worker_step R F fr Q concurrency \<sigma>
      (\<sigma>\<lparr> wp_store := s', wp_consumers := (wp_consumers \<sigma>)[i := Cancelled] \<rparr>)"
| cancel_sweeper: "wp_phase \<sigma> = Serving \<Longrightarrow> task_errors \<sigma> \<noteq> [] \<Longrightarrow> \<not> sweeper_done (wp_sweeper \<sigma>) \<Longrightarrow>
    s' = wp_store \<sigma> \<or> sweeper_step R F Q (wp_stop \<sigma>) (wp_store \<sigma>, wp_sweeper \<sigma>) (s', w) \<Longrightarrow>
    worker_step R F fr Q concurrency \<sigma> (\<sigma>\<lparr> wp_store := s', wp_sweeper := SweepCancelled \<rparr>)"
| group_ends: "wp_phase \<sigma> = Serving \<Longrightarrow> list_all consumer_done (wp_consumers \<sigma>) \<Longrightarrow>
    sweeper_done (wp_sweeper \<sigma>) \<Longrightarrow>
    worker_step R F fr Q concurrency \<sigma>
      (\<sigma>\<lparr> wp_phase := Closing (if task_errors \<sigma> = [] then Clean else TaskErrors (task_errors \<sigma>)) \<rparr>)"
| close: "wp_phase \<sigma> = Closing o' \<Longrightarrow>
    worker_step R F fr Q concurrency \<sigma> (\<sigma>\<lparr> wp_phase := Closed o', wp_closes := Suc (wp_closes \<sigma>) \<rparr>)"

text \<open>
  What others do meanwhile: an API process submits a job, another worker makes one of the round trips
  of a claim, finishes a job or sweeps, and time passes.
\<close>

inductive other_step ::
  "'s redis \<Rightarrow> float_text \<Rightarrow> (string \<Rightarrow> string) \<Rightarrow> inference_queue \<Rightarrow> 's \<Rightarrow> 's \<Rightarrow> bool"
  for R F fr Q where
  submits: "other_step R F fr Q s (snd (enqueue R fr Q l i (job_payload ns n e txt) s))"
| pops: "other_step R F fr Q s (snd (claim_pop R s))"
| discards: "other_step R F fr Q s (snd (claim_discard R i s))"
| stamps: "other_step R F fr Q s (snd (claim_stamp R F i t s))"
| finishes: "other_step R F fr Q s (snd (finish R fr Q l i status result error s))"
| sweeps: "other_step R F fr Q s (snd (recover_processing R F Q l1 l2 now s))"
| passes: "0 \<le> d \<Longrightarrow> other_step R F fr Q s (r_tick R d s)"

text \<open>A run of the process among the others, with the number of its own steps; a signal sets the stop event.\<close>

inductive worker_run ::
  "'s redis \<Rightarrow> float_text \<Rightarrow> (string \<Rightarrow> string) \<Rightarrow> inference_queue \<Rightarrow> nat \<Rightarrow> nat \<Rightarrow> 's worker_proc \<Rightarrow> 's worker_proc \<Rightarrow> bool"
  for R F fr Q concurrency where
  none: "worker_run R F fr Q concurrency 0 \<sigma> \<sigma>"
| own: "worker_run R F fr Q concurrency k \<sigma> \<sigma>' \<Longrightarrow> worker_step R F fr Q concurrency \<sigma>' \<sigma>'' \<Longrightarrow>
    worker_run R F fr Q concurrency (Suc k) \<sigma> \<sigma>''"
| signal: "worker_run R F fr Q concurrency k \<sigma> \<sigma>' \<Longrightarrow>
    worker_run R F fr Q concurrency k \<sigma> (\<sigma>'\<lparr> wp_stop := True \<rparr>)"
| others: "worker_run R F fr Q concurrency k \<sigma> \<sigma>' \<Longrightarrow> other_step R F fr Q (wp_store \<sigma>') s' \<Longrightarrow>
    worker_run R F fr Q concurrency k \<sigma> (\<sigma>'\<lparr> wp_store := s' \<rparr>)"

text \<open>
  \<open>main\<close>: the settings of the environment, the log configuration, the queue with its lease and the
  number of consumers.
\<close>

record 's worker_start =
  ws_logging :: logging_state
  ws_queue :: inference_queue
  ws_concurrency :: nat
  ws_proc :: "'s worker_proc"

definition worker_main :: "environ \<Rightarrow> logging_state \<Rightarrow> 's \<Rightarrow> string + 's worker_start" where
  "worker_main env ls s =
     bind_result (from_env env) (\<lambda>st.
     Inr \<lparr> ws_logging = configure_logging (log_level st) ls,
           ws_queue = worker_queue (async_queue_capacity st) (async_job_ttl_seconds st)
             (async_inference_timeout_seconds st),
           ws_concurrency = nat (async_worker_concurrency st),
           ws_proc = run_worker s \<rparr>)"

section \<open>Stopping\<close>

inductive_cases consumer_stepE: "consumer_step R F fr Q stop (s, c) (s', c')"
inductive_cases sweeper_stepE: "sweeper_step R F Q stop (s, w) (s', w')"

text \<open>The steps each task has left once the stop event is set.\<close>

fun consumer_left :: "consumer \<Rightarrow> nat" where
  "consumer_left Claiming = 6"
| "consumer_left (Reading i) = 5"
| "consumer_left (Stamping i job) = 4"
| "consumer_left (Discarding i) = 3"
| "consumer_left (Processing job) = 3"
| "consumer_left BackingOff = 2"
| "consumer_left AtLoop = 1"
| "consumer_left _ = 0"

fun sweeper_left :: "sweeper \<Rightarrow> nat" where
  "sweeper_left SweepWaiting = 3"
| "sweeper_left Sweeping = 2"
| "sweeper_left SweepAtLoop = 1"
| "sweeper_left _ = 0"

definition steps_left :: "nat \<Rightarrow> 's worker_proc \<Rightarrow> nat" where
  "steps_left concurrency \<sigma> =
     (case wp_phase \<sigma> of
        Starting \<Rightarrow> concurrency + 4
      | Serving \<Rightarrow> sum_list (map consumer_left (wp_consumers \<sigma>)) + sweeper_left (wp_sweeper \<sigma>) + 2
      | Closing _ \<Rightarrow> 1
      | Closed _ \<Rightarrow> 0)"

lemma consumer_left_done: "consumer_left c = 0 \<longleftrightarrow> consumer_done c"
  by (cases c) auto

lemma sweeper_left_done: "sweeper_left w = 0 \<longleftrightarrow> sweeper_done w"
  by (cases w) auto

lemma consumer_left_bound: "consumer_left c \<le> 6"
  by (cases c) auto

lemma consumer_step_left: "consumer_step R F fr Q True (s, c) (s', c') \<Longrightarrow> consumer_left c' < consumer_left c"
  by (erule consumer_stepE) (auto split: option.splits sum.splits worker_error.splits)

lemma sweeper_step_left: "sweeper_step R F Q True (s, w) (s', w') \<Longrightarrow> sweeper_left w' < sweeper_left w"
  by (erule sweeper_stepE) auto

lemma sum_list_update_less:
  fixes f :: "'a \<Rightarrow> nat"
  assumes "i < length xs" "f x < f (xs ! i)"
  shows "sum_list (map f (xs[i := x])) < sum_list (map f xs)"
  using assms by (induction xs arbitrary: i) (auto split: nat.splits)

lemma worker_step_left:
  assumes "worker_step R F fr Q n \<sigma> \<sigma>'" and "wp_stop \<sigma>"
  shows "steps_left n \<sigma>' < steps_left n \<sigma>"
  using assms
proof (cases rule: worker_step.cases)
  case (consumes i s' c)
  then have "consumer_left c < consumer_left (wp_consumers \<sigma> ! i)"
    using consumer_step_left assms(2) by fastforce
  from sum_list_update_less [OF consumes(3) this] show ?thesis using consumes by (simp add: steps_left_def)
next
  case (recovers s' w)
  then have "sweeper_left w < sweeper_left (wp_sweeper \<sigma>)" using sweeper_step_left assms(2) by fastforce
  then show ?thesis using recovers by (simp add: steps_left_def)
next
  case (cancel i s' c)
  then have "consumer_left Cancelled < consumer_left (wp_consumers \<sigma> ! i)"
    using consumer_left_done [of "wp_consumers \<sigma> ! i"] by simp
  from sum_list_update_less [OF cancel(4) this] show ?thesis using cancel by (simp add: steps_left_def)
next
  case (cancel_sweeper s' w)
  then show ?thesis using sweeper_left_done [of "wp_sweeper \<sigma>"] by (simp add: steps_left_def)
qed (simp_all add: steps_left_def sum_list_replicate)

text \<open>What every reachable process satisfies.\<close>

definition proc_shape :: "nat \<Rightarrow> 's worker_proc \<Rightarrow> bool" where
  "proc_shape n \<sigma> \<longleftrightarrow>
     (case wp_phase \<sigma> of
        Starting \<Rightarrow> wp_closes \<sigma> = 0 \<and> wp_consumers \<sigma> = []
      | Serving \<Rightarrow> wp_closes \<sigma> = 0 \<and> length (wp_consumers \<sigma>) = n
      | Closing o' \<Rightarrow> wp_closes \<sigma> = 0 \<and>
          (o' = Clean \<longrightarrow> length (wp_consumers \<sigma>) = n \<and> (\<forall>c \<in> set (wp_consumers \<sigma>). c = Returned))
      | Closed o' \<Rightarrow> wp_closes \<sigma> = 1 \<and>
          (o' = Clean \<longrightarrow> length (wp_consumers \<sigma>) = n \<and> (\<forall>c \<in> set (wp_consumers \<sigma>). c = Returned))) \<and>
     (Cancelled \<in> set (wp_consumers \<sigma>) \<longrightarrow> task_errors \<sigma> \<noteq> [])"

lemma proc_shape_frame [simp]:
  "proc_shape n (\<sigma>\<lparr> wp_store := s \<rparr>) = proc_shape n \<sigma>"
  "proc_shape n (\<sigma>\<lparr> wp_stop := b \<rparr>) = proc_shape n \<sigma>"
  "proc_shape n (\<sigma>\<lparr> wp_store := s, wp_sweeper := w \<rparr>) = proc_shape n \<sigma>"
  by (simp_all add: proc_shape_def task_errors_def split: worker_phase.split)

lemma task_errors_empty: "task_errors \<sigma> = [] \<longleftrightarrow> (\<forall>c \<in> set (wp_consumers \<sigma>). raised_error c = None)"
  by (auto simp: task_errors_def map_filter_def filter_empty_conv)

lemma consumer_step_running:
  "consumer_step R F fr Q stop (s, c) (s', c') \<Longrightarrow> \<not> consumer_done c \<and> c' \<noteq> Cancelled"
  by (erule consumer_stepE) (auto split: option.splits sum.splits worker_error.splits)

lemma raised_done: "raised_error c \<noteq> None \<Longrightarrow> consumer_done c"
  by (cases c) auto

lemma errors_kept:
  assumes "task_errors \<sigma> \<noteq> []" "i < length (wp_consumers \<sigma>)" "\<not> consumer_done (wp_consumers \<sigma> ! i)"
    and "wp_consumers \<sigma>' = (wp_consumers \<sigma>)[i := c]"
  shows "task_errors \<sigma>' \<noteq> []"
proof -
  obtain d where "d \<in> set (wp_consumers \<sigma>)" "raised_error d \<noteq> None"
    using assms(1) by (auto simp: task_errors_empty)
  then obtain j where j: "j < length (wp_consumers \<sigma>)" "raised_error (wp_consumers \<sigma> ! j) \<noteq> None"
    by (auto simp: in_set_conv_nth)
  then have "j \<noteq> i" using assms(3) raised_done by auto
  then have "wp_consumers \<sigma>' ! j = wp_consumers \<sigma> ! j" "j < length (wp_consumers \<sigma>')"
    using assms(4) j by simp_all
  then show ?thesis using j(2) nth_mem by (fastforce simp: task_errors_empty)
qed

lemma shape_step:
  assumes "worker_step R F fr Q n \<sigma> \<sigma>'" and "proc_shape n \<sigma>"
  shows "proc_shape n \<sigma>'"
  using assms(1)
proof (cases rule: worker_step.cases)
  case (start l1 l2 now m s')
  then show ?thesis using assms(2) by (auto simp: proc_shape_def task_errors_empty)
next
  case (consumes i s' c)
  note r = consumer_step_running [OF consumes(4)]
  have "task_errors \<sigma>' \<noteq> []" if "Cancelled \<in> set (wp_consumers \<sigma>')"
  proof -
    have "Cancelled \<in> set (wp_consumers \<sigma>)"
      using that r consumes(1) set_update_subset_insert [of "wp_consumers \<sigma>" i c] by auto
    then have "task_errors \<sigma> \<noteq> []" using assms(2) by (simp add: proc_shape_def)
    from errors_kept [OF this consumes(3), of \<sigma>' c] r consumes(1) show ?thesis by simp
  qed
  then show ?thesis using consumes assms(2) by (simp add: proc_shape_def)
next
  case (cancel i s' c)
  then show ?thesis using assms(2) errors_kept [OF cancel(3-5), of \<sigma>' Cancelled]
    by (simp add: proc_shape_def)
next
  case group_ends
  have "c = Returned" if "task_errors \<sigma> = []" "c \<in> set (wp_consumers \<sigma>)" for c
    using that group_ends(3) assms(2)
    by (cases c) (fastforce simp: list_all_iff proc_shape_def task_errors_empty)+
  then show ?thesis using group_ends assms(2)
    by (auto simp: proc_shape_def task_errors_def)
qed (use assms(2) in \<open>auto simp: proc_shape_def task_errors_def\<close>)

lemma shape_run:
  "worker_run R F fr Q n k \<sigma> \<sigma>' \<Longrightarrow> proc_shape n \<sigma> \<Longrightarrow> proc_shape n \<sigma>'"
proof (induction rule: worker_run.induct)
  case (own k \<sigma> \<sigma>' \<sigma>'')
  then show ?case using shape_step by blast
qed simp_all

lemma shape_initial: "proc_shape n (run_worker s)"
  by (simp add: proc_shape_def run_worker_def)

text \<open>A process that has not been closed can always go on.\<close>

lemma consumer_progress:
  "\<not> consumer_done c \<Longrightarrow> \<exists>s' c'. consumer_step R F fr Q stop (s, c) (s', c')"
proof (cases c)
  case AtLoop
  then show ?thesis by (cases stop) (auto intro: consumer_step.intros)
next
  case Claiming
  then show ?thesis using consumer_step.pop [OF call.simps(1)] by fast
next
  case (Reading i)
  then show ?thesis using consumer_step.read [OF call.simps(1)] by fast
next
  case (Discarding i)
  then show ?thesis using consumer_step.discard [OF call.simps(1)] by fast
next
  case (Stamping i job)
  then show ?thesis using consumer_step.stamp [OF call.simps(1)] by fast
next
  case (Processing job)
  then show ?thesis using consumer_step.process [OF surjective_pairing] by fast
qed (auto intro: consumer_step.intros)

lemma sweeper_progress:
  "\<not> sweeper_done w \<Longrightarrow> \<exists>s' w'. sweeper_step R F Q stop (s, w) (s', w')"
proof (cases w)
  case SweepAtLoop
  then show ?thesis by (cases stop) (auto intro: sweeper_step.intros)
qed (auto intro: sweeper_step.intros)

lemma worker_progress:
  assumes "\<And>o'. wp_phase \<sigma> \<noteq> Closed o'"
  shows "\<exists>\<sigma>'. worker_step R F fr Q n \<sigma> \<sigma>'"
proof (cases "wp_phase \<sigma>")
  case Starting
  obtain r s' where r: "recover_processing R F Q Delivered Delivered 0 (wp_store \<sigma>) = (r, s')" by fastforce
  show ?thesis
  proof (cases r)
    case (Inl e)
    with r worker_step.start_fails [OF Starting] show ?thesis by blast
  next
    case (Inr m)
    with r worker_step.start [OF Starting] show ?thesis by blast
  qed
next
  case Serving
  show ?thesis
  proof (cases "list_all consumer_done (wp_consumers \<sigma>)")
    case False
    then obtain i where i: "i < length (wp_consumers \<sigma>)" "\<not> consumer_done (wp_consumers \<sigma> ! i)"
      by (auto simp: list_all_iff in_set_conv_nth)
    then show ?thesis using consumer_progress worker_step.consumes Serving by meson
  next
    case True
    then show ?thesis using sweeper_progress worker_step.recovers worker_step.group_ends Serving by meson
  qed
qed (use assms worker_step.close in blast)+

lemma run_trans:
  "worker_run R F fr Q n k \<sigma>' \<sigma>'' \<Longrightarrow> worker_run R F fr Q n j \<sigma> \<sigma>' \<Longrightarrow> worker_run R F fr Q n (j + k) \<sigma> \<sigma>''"
  by (induction rule: worker_run.induct) (auto intro: worker_run.intros)

lemma stop_kept: "worker_run R F fr Q n k \<sigma> \<sigma>' \<Longrightarrow> wp_stop \<sigma> \<Longrightarrow> wp_stop \<sigma>'"
  by (induction rule: worker_run.induct) (auto elim: worker_step.cases)

lemma steps_left_frame [simp]:
  "steps_left n (\<sigma>\<lparr> wp_store := s \<rparr>) = steps_left n \<sigma>"
  "steps_left n (\<sigma>\<lparr> wp_stop := b \<rparr>) = steps_left n \<sigma>"
  by (simp_all add: steps_left_def split: worker_phase.split)

lemma run_steps_left:
  "worker_run R F fr Q n k \<sigma> \<sigma>' \<Longrightarrow> wp_stop \<sigma> \<Longrightarrow> k + steps_left n \<sigma>' \<le> steps_left n \<sigma>"
proof (induction rule: worker_run.induct)
  case (own k \<sigma> \<sigma>' \<sigma>'')
  then show ?case using worker_step_left [OF own.hyps(2)] stop_kept [OF own.hyps(1)] by fastforce
qed simp_all

lemma steps_left_bound: "proc_shape n \<sigma> \<Longrightarrow> steps_left n \<sigma> \<le> 6 * n + 5"
proof -
  assume s: "proc_shape n \<sigma>"
  have "sum_list (map consumer_left cs) \<le> 6 * length cs" for cs
    by (induction cs) (use consumer_left_bound in \<open>auto simp: add_mono\<close>)
  from this [of "wp_consumers \<sigma>"] have "sum_list (map consumer_left (wp_consumers \<sigma>))
      \<le> 6 * length (wp_consumers \<sigma>)" .
  moreover have "sweeper_left (wp_sweeper \<sigma>) \<le> 3" by (cases "wp_sweeper \<sigma>") auto
  ultimately have "sum_list (map consumer_left (wp_consumers \<sigma>)) + sweeper_left (wp_sweeper \<sigma>) + 2
      \<le> 6 * length (wp_consumers \<sigma>) + 5"
    by linarith
  then show ?thesis using s by (auto simp: steps_left_def proc_shape_def split: worker_phase.split)
qed

section \<open>Payloads\<close>

text \<open>Every stored payload is one that an API process wrote.\<close>

definition api_text :: "(string \<Rightarrow> string) \<Rightarrow> string \<Rightarrow> bool" where
  "api_text fr p \<longleftrightarrow> (\<exists>ns n e txt. p = json_dumps fr (job_payload ns n e txt))"

definition served :: "(string \<Rightarrow> string) \<Rightarrow> qstate \<Rightarrow> bool" where
  "served fr q \<longleftrightarrow> (\<forall>i h t p. q_jobs q i = Some (h, t) \<longrightarrow> h ''payload'' = Some p \<longrightarrow> api_text fr p)"

lemma map_upd_list_other: "k \<notin> fst ` set fvs \<Longrightarrow> map_upd_list h fvs k = h k"
  by (induction fvs arbitrary: h) auto

lemma served_jobs: "q_jobs q' = q_jobs q \<Longrightarrow> served fr q' = served fr q"
  by (simp add: served_def)

lemma served_job:
  "served fr q \<Longrightarrow> q_jobs q i = Some (h, t) \<Longrightarrow> h ''payload'' = Some p \<Longrightarrow> api_text fr p"
  unfolding served_def by blast

lemma served_update:
  assumes "served fr q" "''payload'' \<notin> fst ` set fvs"
  shows "served fr (spec_update i fvs q)" and "served fr (spec_finish ttl i fvs q)"
  using assms map_upd_list_other [OF assms(2)]
  by (auto simp: served_def spec_update_def spec_finish_def split: option.splits if_splits)

lemma served_pop: "served fr q \<Longrightarrow> served fr (snd (spec_pop q))"
  using served_jobs [OF spec_pop_keeps(1)] by blast

lemma served_unlink: "served fr (spec_unlink i q) = served fr q"
  by (simp add: served_def spec_unlink_def)

lemma served_enqueue:
  "served fr q \<Longrightarrow> api_text fr p \<Longrightarrow> served fr (snd (spec_enqueue cap ttl i p q))"
  by (auto simp: served_def spec_enqueue_def split: option.splits if_splits)

lemma served_recover_one:
  assumes "served fr (snd rq)"
  shows "served fr (snd (spec_recover_one F b now_text i rq))"
proof -
  obtain m q where rq: "rq = (m, q)" by fastforce
  have "served fr (spec_requeue i h t q)" if "q_jobs q i = Some (h, t)" for h t
    using assms that by (auto simp: rq served_def spec_requeue_def split: if_splits)
  then show ?thesis using assms served_update(1) [of fr q "[(''claimed_at'', now_text)]" i]
    by (auto simp: rq spec_recover_one_def served_unlink split: option.splits)
qed

lemma served_recover: "served fr q \<Longrightarrow> served fr (snd (spec_recover F b now_text q))"
proof -
  have "served fr (snd rq) \<Longrightarrow> served fr (snd (fold (spec_recover_one F b now_text) ids rq))" for ids rq
    by (induction ids arbitrary: rq) (auto simp: served_recover_one)
  from this [of "(0, q)"] show "served fr q \<Longrightarrow> served fr (snd (spec_recover F b now_text q))"
    by (simp add: spec_recover_def)
qed

lemma served_age: "served fr q \<Longrightarrow> served fr (spec_age d q)"
  by (auto simp: served_def spec_age_def split: option.splits if_splits)

lemma finish_fields_keys: "''payload'' \<notin> fst ` set (finish_fields fr status result error)"
  by (auto simp: finish_fields_def split: option.splits)

abbreviation sound_store :: "('s \<Rightarrow> keyspace) \<Rightarrow> (string \<Rightarrow> string) \<Rightarrow> 's \<Rightarrow> bool" where
  "sound_store view fr s \<equiv> well_typed (view s) \<and> served fr (qabs (view s))"

text \<open>Every operation on the queue, whatever is lost, keeps the store sound.\<close>

context redis_server
begin

lemma pop_sound:
  assumes "sound_store view fr s"
  shows "sound_store view fr (snd (claim_pop R s))"
proof -
  note p = claim_pop_refines [of s]
  have "qabs (view (snd (claim_pop R s))) = snd (spec_pop (qabs (view s)))"
    using p(2) assms by (metis snd_conv)
  then show ?thesis using p(1) served_pop [of fr] assms by simp
qed

lemma stamp_sound:
  "sound_store view fr s \<Longrightarrow> sound_store view fr (snd (claim_stamp R F i t s))"
  using stamp_refines [of s F i t] served_update(1) [of fr "qabs (view s)"
      "[(''status'', ''running''), (''claimed_at'', py_repr F t)]" i] by simp

lemma discard_sound:
  "sound_store view fr s \<Longrightarrow> sound_store view fr (snd (claim_discard R i s))"
  using discard_refines [of s i] served_unlink by simp

lemma call_sound:
  assumes "sound_store view fr s" "sound_store view fr (snd (f s))" "call l f s = (r, s')"
  shows "sound_store view fr s'"
  using assms by (cases l) auto

lemma finish_sound:
  assumes "0 < iq_job_ttl_seconds Q" "sound_store view fr s"
  shows "sound_store view fr (snd (finish R fr Q l i status result error s))"
proof -
  note f = finish_refines [OF conjunct1 [OF assms(2)] assms(1), where fr = fr and i = i and l = l
      and status = status and result = result and error = error]
  show ?thesis
    using f(1,3) assms(2) served_update(2) [OF _ finish_fields_keys, of fr] by auto
qed

lemma process_sound:
  "0 < iq_job_ttl_seconds Q \<Longrightarrow> sound_store view fr s \<Longrightarrow>
     sound_store view fr (snd (process_job R fr Q l post job s))"
  using process_job_cases [of R fr Q l post job s] finish_sound [of Q s fr l "cj_job_id job"] by metis

lemma recover_sound:
  assumes "0 < iq_recovery_lock_seconds Q" "float_codec F" "sound_store view fr s"
  shows "sound_store view fr (snd (recover_processing R F Q l1 l2 now s))"
  using recover_processing_refines [OF conjunct1 [OF assms(3)] assms(1,2), of l1 l2 now]
    served_recover [of fr "qabs (view s)"] assms(3) by metis

lemma other_sound:
  assumes "0 < iq_job_ttl_seconds Q" "0 < iq_recovery_lock_seconds Q" "float_codec F"
    and "sound_store view fr s" "other_step R F fr Q s s'"
  shows "sound_store view fr s'"
  using assms(5)
proof cases
  case pops
  then show ?thesis using pop_sound [OF assms(4)] by simp
next
  case (discards i)
  then show ?thesis using discard_sound [OF assms(4)] by simp
next
  case (stamps i t)
  then show ?thesis using stamp_sound [OF assms(4)] by simp
next
  case (finishes l i status result error)
  then show ?thesis using finish_sound [OF assms(1,4)] by simp
next
  case (sweeps l1 l2 now)
  then show ?thesis using recover_sound [OF assms(2,3,4)] by simp
next
  case (submits l i ns n e x)
  have "api_text fr (json_dumps fr (job_payload ns n e x))" unfolding api_text_def by blast
  then show ?thesis
    using enqueue_refines [OF conjunct1 [OF assms(4)] assms(1), where fr = fr and i = i and l = l
        and payload = "job_payload ns n e x"] served_enqueue [of fr "qabs (view s)"] assms(4) submits
    by auto
next
  case (passes d)
  then show ?thesis
    using assms(4) well_typed_age [of "view s" d] qabs_age [of "view s" d] served_age [of fr "qabs (view s)" d]
    by (simp add: tick_law)
qed

end

text \<open>What a consumer holds when every payload is an API process's, and why it may have ended.\<close>

fun consumer_ok :: "(string \<Rightarrow> string) \<Rightarrow> bool \<Rightarrow> consumer \<Rightarrow> bool" where
  "consumer_ok fr stop (Stamping i job) = (\<forall>p. map_of job ''payload'' = Some p \<longrightarrow> api_text fr p)"
| "consumer_ok fr stop (Processing job) = (\<exists>ns n e x. cj_payload job = job_payload ns n e x)"
| "consumer_ok fr stop Returned = stop"
| "consumer_ok fr stop (Raised e) = (\<not> caught e)"
| "consumer_ok fr stop _ = True"

lemma consumer_ok_stop: "consumer_ok fr stop c \<Longrightarrow> consumer_ok fr True c"
  by (cases c) auto

lemma api_claim:
  assumes "\<forall>p. map_of job ''payload'' = Some p \<longrightarrow> api_text fr p" "claimed_payload job = Some v"
  shows "\<exists>ns n e x. v = job_payload ns n e x"
proof -
  obtain p where p: "map_of job ''payload'' = Some p" "json_loads p = Some v"
    using assms(2) by (auto simp: claimed_payload_def split: option.splits)
  then obtain ns n e x where "p = json_dumps fr (job_payload ns n e x)"
    using assms(1) by (auto simp: api_text_def)
  then show ?thesis using p(2) json_loads_dumps [OF job_payload_simps(1), of fr ns n e x]
    by (auto simp del: json_dumps.simps)
qed

text \<open>Processing an API process's job raises nothing but an exception that is not in the handler's list.\<close>

lemma api_job_raised:
  assumes "cj_payload job = job_payload ns n e x" "fst (process_job R fr Q l post job s) = Inl (Uncaught err)"
  shows "\<not> caught err"
  using assms by (auto simp: process_job_def lift_finish_def split: sum.splits if_splits)

context redis_server
begin

lemma read_api:
  assumes "sound_store view fr s" "map_of (r_hgetall R (job_key i) s) ''payload'' = Some p"
  shows "api_text fr p"
proof -
  obtain h t where "q_jobs (qabs (view s)) i = Some (h, t)" "h ''payload'' = Some p"
    using hgetall_job [OF conjunct1 [OF assms(1)], of i] assms(2) by (auto split: option.splits)
  then show ?thesis using served_job assms(1) by blast
qed

lemma consumer_sound:
  assumes "0 < iq_job_ttl_seconds Q" "sound_store view fr s" "consumer_ok fr stop c"
    and "consumer_step R F fr Q stop (s, c) (s', c')"
  shows "sound_store view fr s' \<and> consumer_ok fr stop c'"
  using assms(4)
proof cases
  case (pop l r)
  then show ?thesis using call_sound [OF assms(2) pop_sound [OF assms(2)] pop(3)]
    by (auto split: option.splits)
next
  case (read l i r)
  have "s' = s" using read(3) by (cases l) (auto simp: claim_read_def)
  moreover have "consumer_ok fr stop (Stamping i job)" if "r = Some job" for job
    using that read(3) read_api [OF assms(2)] by (cases l) (auto simp: claim_read_def)
  ultimately show ?thesis using read assms(2) by (auto split: option.splits)
next
  case (discard l i r)
  then show ?thesis using call_sound [OF assms(2) discard_sound [OF assms(2)] discard(3)]
    by (auto split: option.splits)
next
  case (stamp l i now r job)
  then show ?thesis
    using call_sound [OF assms(2) stamp_sound [OF assms(2)] stamp(3)] assms(3) api_claim [of job fr]
    by (auto split: option.splits)
next
  case (process l post job r)
  then have "sound_store view fr s'" using process_sound [OF assms(1,2), of l post job] by simp
  moreover have "\<not> caught e" if "r = Inl (Uncaught e)" for e
    using process assms(3) that api_job_raised [of job _ _ _ _ R fr Q l post s e] by auto
  ultimately show ?thesis using process by (auto split: sum.splits worker_error.splits)
qed (use assms in auto)

lemma sweeper_sound:
  assumes "0 < iq_recovery_lock_seconds Q" "float_codec F" "sound_store view fr s"
    and "sweeper_step R F Q stop (s, w) (s', w')"
  shows "sound_store view fr s' \<and> w' \<noteq> SweepCancelled \<and> (w' = SweepReturned \<longrightarrow> stop)"
  using assms(4)
  by cases (use assms(3) recover_sound [OF assms(1-3)] in auto)

end

definition proc_ok :: "('s \<Rightarrow> keyspace) \<Rightarrow> (string \<Rightarrow> string) \<Rightarrow> 's worker_proc \<Rightarrow> bool" where
  "proc_ok view fr \<sigma> \<longleftrightarrow> sound_store view fr (wp_store \<sigma>) \<and>
     (\<forall>c \<in> set (wp_consumers \<sigma>). consumer_ok fr (wp_stop \<sigma>) c) \<and>
     (wp_sweeper \<sigma> = SweepCancelled \<longrightarrow> task_errors \<sigma> \<noteq> []) \<and>
     (wp_sweeper \<sigma> = SweepReturned \<longrightarrow> wp_stop \<sigma>) \<and>
     (\<forall>o'. wp_phase \<sigma> = Closing o' \<or> wp_phase \<sigma> = Closed o' \<longrightarrow>
        o' = Clean \<and> wp_stop \<sigma> \<or> (\<exists>e. o' = StartFailed e) \<or>
        (\<exists>es. o' = TaskErrors es \<and> es \<noteq> [] \<and> (\<forall>e \<in> set es. \<not> caught e)))"

lemma task_errors_iff: "e \<in> set (task_errors \<sigma>) \<longleftrightarrow> Raised e \<in> set (wp_consumers \<sigma>)"
proof -
  have r: "raised_error c = Some e \<longleftrightarrow> c = Raised e" for c e by (cases c) auto
  have "e \<in> set (task_errors \<sigma>) \<longleftrightarrow> (\<exists>c \<in> set (wp_consumers \<sigma>). raised_error c = Some e)"
    by (force simp: task_errors_def List.map_filter_def image_iff)
  then show ?thesis by (simp add: r)
qed

lemma ok_errors: "proc_ok view fr \<sigma> \<Longrightarrow> e \<in> set (task_errors \<sigma>) \<Longrightarrow> \<not> caught e"
  unfolding task_errors_iff proc_ok_def by fastforce

lemma consumers_ok_update:
  "\<forall>c \<in> set cs. consumer_ok fr stop c \<Longrightarrow> consumer_ok fr stop d \<Longrightarrow>
     \<forall>c \<in> set (cs[i := d]). consumer_ok fr stop c"
  using set_update_subset_insert [of cs i d] by blast

context redis_server
begin

lemma ok_step:
  assumes ttl: "0 < iq_job_ttl_seconds Q" and lock: "0 < iq_recovery_lock_seconds Q" and F: "float_codec F"
    and ok: "proc_ok view fr \<sigma>" and step: "worker_step R F fr Q n \<sigma> \<sigma>'"
  shows "proc_ok view fr \<sigma>'"
  using step
proof (cases rule: worker_step.cases)
  case (start l1 l2 now m s')
  then show ?thesis using recover_sound [OF lock F, of "wp_store \<sigma>" fr l1 l2 now] ok
    by (simp add: proc_ok_def)
next
  case (start_fails l1 l2 now e s')
  then show ?thesis using recover_sound [OF lock F, of "wp_store \<sigma>" fr l1 l2 now] ok
    by (simp add: proc_ok_def task_errors_def)
next
  case (consumes i s' c)
  have "consumer_ok fr (wp_stop \<sigma>) (wp_consumers \<sigma> ! i)" using ok consumes(3) by (simp add: proc_ok_def)
  from consumer_sound [OF ttl _ this consumes(4)] ok
  have "sound_store view fr s'" "consumer_ok fr (wp_stop \<sigma>) c" by (simp_all add: proc_ok_def)
  moreover have "task_errors \<sigma>' \<noteq> []" if "task_errors \<sigma> \<noteq> []"
    using errors_kept [OF that consumes(3), of \<sigma>' c] consumer_step_running [OF consumes(4)] consumes(1) by simp
  ultimately show ?thesis using consumes ok consumers_ok_update [of "wp_consumers \<sigma>" fr "wp_stop \<sigma>" c i]
    by (simp add: proc_ok_def)
next
  case (recovers s' w)
  then show ?thesis using sweeper_sound [OF lock F _ recovers(3)] ok by (auto simp: proc_ok_def task_errors_def)
next
  case (cancel i s' c)
  have "consumer_ok fr (wp_stop \<sigma>) (wp_consumers \<sigma> ! i)" using ok cancel(4) by (simp add: proc_ok_def)
  then have "sound_store view fr s'"
    using consumer_sound [OF ttl, where fr = fr and s = "wp_store \<sigma>" and s' = s' and c' = c and F = F] cancel(6) ok
    unfolding proc_ok_def by blast
  moreover have "task_errors \<sigma>' \<noteq> []" using errors_kept [OF cancel(3-5), of \<sigma>' Cancelled] cancel(1) by simp
  ultimately show ?thesis using cancel ok consumers_ok_update [of "wp_consumers \<sigma>" fr "wp_stop \<sigma>" Cancelled i]
    by (simp add: proc_ok_def)
next
  case (cancel_sweeper s' w)
  then have "sound_store view fr s'"
    using sweeper_sound [OF lock F, where fr = fr and s = "wp_store \<sigma>" and s' = s'] ok unfolding proc_ok_def by blast
  then show ?thesis using cancel_sweeper ok by (auto simp: proc_ok_def task_errors_def)
next
  case group_ends
  then show ?thesis using ok ok_errors [OF ok]
    by (cases "wp_sweeper \<sigma>") (auto simp: proc_ok_def task_errors_def)
next
  case (close o')
  then show ?thesis using ok by (auto simp: proc_ok_def task_errors_def)
qed

lemma ok_run:
  assumes "0 < iq_job_ttl_seconds Q" and "0 < iq_recovery_lock_seconds Q" and "float_codec F"
  shows "worker_run R F fr Q n k \<sigma> \<sigma>' \<Longrightarrow> proc_ok view fr \<sigma> \<Longrightarrow> proc_ok view fr \<sigma>'"
proof (induction rule: worker_run.induct)
  case (own k \<sigma> \<sigma>' \<sigma>'')
  then show ?case using ok_step [OF assms] by blast
next
  case (signal k \<sigma> \<sigma>')
  then show ?case by (auto simp: proc_ok_def consumer_ok_stop task_errors_def)
next
  case (others k \<sigma> \<sigma>' s')
  then show ?case using other_sound [OF assms, of "wp_store \<sigma>'" fr s'] by (simp add: proc_ok_def task_errors_def)
qed

end

section \<open>Properties\<close>

text \<open>
  (C7) The worker stops when told to. Once the stop event is set, wherever its tasks are and whatever
  Redis, the runtime and other processes do, the process has at most six steps left per consumer and
  five more, is never stuck before it has closed its queue, and closes it exactly once; if it ends
  normally then every consumer has left its loop by itself, none in the middle of a job.
\<close>

theorem shutdown_terminates:
  assumes "worker_run R F fr Q n j (run_worker s) \<sigma>" and "wp_stop \<sigma>"
    and "worker_run R F fr Q n k \<sigma> \<sigma>'"
  shows "k \<le> 6 * n + 5 \<and>
    (case wp_phase \<sigma>' of
       Closed o' \<Rightarrow> wp_closes \<sigma>' = 1 \<and> (o' = Clean \<longrightarrow> wp_consumers \<sigma>' = replicate n Returned)
     | _ \<Rightarrow> wp_closes \<sigma>' = 0 \<and> (\<exists>\<sigma>''. worker_step R F fr Q n \<sigma>' \<sigma>''))"
proof -
  have shape: "proc_shape n \<sigma>" using shape_run [OF assms(1) shape_initial] .
  have "k \<le> 6 * n + 5" using run_steps_left [OF assms(3,2)] steps_left_bound [OF shape] by simp
  moreover have "proc_shape n \<sigma>'" using shape_run [OF assms(3) shape] .
  moreover have "\<exists>\<sigma>''. worker_step R F fr Q n \<sigma>' \<sigma>''" if "\<And>o'. wp_phase \<sigma>' \<noteq> Closed o'"
    using worker_progress [of \<sigma>'] that by blast
  ultimately show ?thesis
    by (auto simp: proc_shape_def split: worker_phase.splits intro!: replicate_eqI)
qed

text \<open>A worker with one consumer that is stopped before its first step, and its whole run.\<close>

definition default_queue :: inference_queue where
  "default_queue = worker_queue 1000 3600 30"

definition swept_store :: mem where
  "swept_store = snd (recover_processing mem_redis frac_text default_queue Delivered Delivered 0 Map.empty)"

definition ended_worker :: "mem worker_proc" where
  "ended_worker =
     \<lparr> wp_phase = Closed Clean, wp_store = swept_store, wp_stop = True, wp_consumers = [Returned],
       wp_sweeper = SweepReturned, wp_closes = 1 \<rparr>"

lemma stopped_run:
  "worker_run mem_redis frac_text id default_queue 1 5 ((run_worker Map.empty)\<lparr> wp_stop := True \<rparr>) ended_worker"
proof -
  let ?W = "worker_step mem_redis frac_text id default_queue 1"
  let ?s1 = "\<lparr> wp_phase = Serving, wp_store = swept_store, wp_stop = True, wp_consumers = [AtLoop],
    wp_sweeper = SweepAtLoop, wp_closes = 0 \<rparr>"
  have "fst (recover_processing mem_redis frac_text default_queue Delivered Delivered 0 Map.empty) = Inr 0"
    by code_simp
  then have "?W ((run_worker Map.empty)\<lparr> wp_stop := True \<rparr>) ?s1"
    using worker_step.start [of "(run_worker Map.empty)\<lparr> wp_stop := True \<rparr>" mem_redis frac_text default_queue
        Delivered Delivered 0 0 swept_store id 1]
    by (simp add: run_worker_def swept_store_def prod_eq_iff)
  moreover have "?W ?s1 (?s1\<lparr> wp_consumers := [Returned] \<rparr>)"
    using worker_step.consumes [of ?s1 0 mem_redis frac_text id default_queue swept_store Returned]
    by (simp add: consumer_step.leave)
  moreover have "?W (?s1\<lparr> wp_consumers := [Returned] \<rparr>)
      (?s1\<lparr> wp_consumers := [Returned], wp_sweeper := SweepReturned \<rparr>)"
    using worker_step.recovers [of "?s1\<lparr> wp_consumers := [Returned] \<rparr>" mem_redis frac_text default_queue
        swept_store SweepReturned id 1]
    by (simp add: sweeper_step.sweep_leave)
  moreover have "?W (?s1\<lparr> wp_consumers := [Returned], wp_sweeper := SweepReturned \<rparr>)
      (?s1\<lparr> wp_phase := Closing Clean, wp_consumers := [Returned], wp_sweeper := SweepReturned \<rparr>)"
    using worker_step.group_ends [of "?s1\<lparr> wp_consumers := [Returned], wp_sweeper := SweepReturned \<rparr>"]
    by (simp add: task_errors_empty)
  moreover have "?W (?s1\<lparr> wp_phase := Closing Clean, wp_consumers := [Returned], wp_sweeper := SweepReturned \<rparr>)
      ended_worker"
    using worker_step.close
      [of "?s1\<lparr> wp_phase := Closing Clean, wp_consumers := [Returned], wp_sweeper := SweepReturned \<rparr>" Clean]
    by (simp add: ended_worker_def)
  ultimately show ?thesis
    using worker_run.own [OF worker_run.own [OF worker_run.own [OF worker_run.own [OF worker_run.own
      [OF worker_run.none]]]]] by (simp add: eval_nat_numeral)
qed

theorem shutdown_terminates_witness:
  "worker_run mem_redis frac_text id default_queue 1 5 ((run_worker Map.empty)\<lparr> wp_stop := True \<rparr>) ended_worker \<and>
   (5::nat) \<le> 6 * 1 + 5 \<and> wp_closes ended_worker = 1 \<and> wp_consumers ended_worker = replicate 1 Returned"
proof -
  have "worker_run mem_redis frac_text id default_queue 1 0 (run_worker Map.empty)
      ((run_worker Map.empty)\<lparr> wp_stop := True \<rparr>)"
    by (rule worker_run.signal [OF worker_run.none])
  from shutdown_terminates [OF this _ stopped_run] show ?thesis
    using stopped_run by (simp add: ended_worker_def)
qed


definition one_consumer_env :: environ where
  "one_consumer_env = [''KERNEXYS_ASYNC_WORKER_CONCURRENCY'' \<mapsto> ''1'']"

definition quiet_logging :: logging_state where
  "quiet_logging = \<lparr> root_handlers = [], root_level = ''WARNING'', context_aware_class = False,
     named_loggers = [] \<rparr>"


section \<open>An answer that ends the worker\<close>

lemma cancel_all:
  assumes "wp_phase \<sigma> = Serving" "task_errors \<sigma> \<noteq> []"
  shows "\<exists>k \<sigma>'. worker_run R F fr Q n k \<sigma> \<sigma>' \<and> wp_phase \<sigma>' = Serving \<and> list_all consumer_done (wp_consumers \<sigma>') \<and>
    set (task_errors \<sigma>) \<subseteq> set (task_errors \<sigma>') \<and> wp_stop \<sigma>' = wp_stop \<sigma> \<and> wp_store \<sigma>' = wp_store \<sigma>"
  using assms
proof (induction "sum_list (map consumer_left (wp_consumers \<sigma>))" arbitrary: \<sigma> rule: less_induct)
  case less
  show ?case
  proof (cases "list_all consumer_done (wp_consumers \<sigma>)")
    case True
    then show ?thesis using less.prems worker_run.none by blast
  next
    case False
    then obtain i where i: "i < length (wp_consumers \<sigma>)" "\<not> consumer_done (wp_consumers \<sigma> ! i)"
      by (auto simp: list_all_iff in_set_conv_nth)
    let ?t = "\<sigma>\<lparr> wp_store := wp_store \<sigma>, wp_consumers := (wp_consumers \<sigma>)[i := Cancelled] \<rparr>"
    have step: "worker_step R F fr Q n \<sigma> ?t"
      by (rule worker_step.cancel [OF less.prems i]) simp
    have "consumer_left Cancelled < consumer_left (wp_consumers \<sigma> ! i)"
      using consumer_left_done i(2) by (metis consumer_left_done consumer_done.simps(3) gr0I)
    from sum_list_update_less [OF i(1) this]
    have "sum_list (map consumer_left (wp_consumers ?t)) < sum_list (map consumer_left (wp_consumers \<sigma>))" by simp
    moreover have "task_errors ?t \<noteq> []" by (rule errors_kept [OF less.prems(2) i]) simp
    moreover have "set (task_errors \<sigma>) \<subseteq> set (task_errors ?t)"
    proof
      fix e assume "e \<in> set (task_errors \<sigma>)"
      then obtain j where j: "j < length (wp_consumers \<sigma>)" "wp_consumers \<sigma> ! j = Raised e"
        unfolding task_errors_iff by (metis in_set_conv_nth)
      then have "j \<noteq> i" using i(2) by auto
      then show "e \<in> set (task_errors ?t)"
        using j unfolding task_errors_iff by (intro in_set_conv_nth [THEN iffD2] exI [of _ j]) simp
    qed
    ultimately show ?thesis
      using less.hyps [of ?t] less.prems(1) run_trans [OF _ worker_run.own [OF worker_run.none step]] by fastforce
  qed
qed

lemma sweeper_cancelled:
  assumes "wp_phase \<sigma> = Serving" "task_errors \<sigma> \<noteq> []"
  shows "\<exists>k w. worker_run R F fr Q n k \<sigma> (\<sigma>\<lparr> wp_sweeper := w \<rparr>) \<and> sweeper_done w"
proof (cases "sweeper_done (wp_sweeper \<sigma>)")
  case True
  then show ?thesis using worker_run.none [of R F fr Q n \<sigma>]
    by (intro exI [of _ 0] exI [of _ "wp_sweeper \<sigma>"]) simp
next
  case False
  have "worker_step R F fr Q n \<sigma> (\<sigma>\<lparr> wp_store := wp_store \<sigma>, wp_sweeper := SweepCancelled \<rparr>)"
    by (rule worker_step.cancel_sweeper [OF assms False]) simp
  then show ?thesis using worker_run.own [OF worker_run.none]
    by (intro exI [of _ "Suc 0"] exI [of _ SweepCancelled]) simp
qed

text \<open>Once a task has raised, the group can end and the process with it.\<close>

lemma errors_end:
  assumes "wp_phase \<sigma> = Serving" "e \<in> set (task_errors \<sigma>)"
  shows "\<exists>k \<sigma>' es. worker_run R F fr Q n k \<sigma> \<sigma>' \<and> wp_phase \<sigma>' = Closed (TaskErrors es) \<and> e \<in> set es \<and>
    wp_stop \<sigma>' = wp_stop \<sigma> \<and> wp_store \<sigma>' = wp_store \<sigma>"
proof -
  have ne: "task_errors \<sigma> \<noteq> []" using assms(2) by auto
  obtain k1 \<sigma>1 where c: "worker_run R F fr Q n k1 \<sigma> \<sigma>1" "wp_phase \<sigma>1 = Serving"
    "list_all consumer_done (wp_consumers \<sigma>1)" "e \<in> set (task_errors \<sigma>1)" "wp_stop \<sigma>1 = wp_stop \<sigma>"
    "wp_store \<sigma>1 = wp_store \<sigma>"
    using cancel_all [OF assms(1) ne, of R F fr Q n] assms(2) by blast
  then have ne1: "task_errors \<sigma>1 \<noteq> []" by auto
  obtain k2 w where w: "worker_run R F fr Q n k2 \<sigma>1 (\<sigma>1\<lparr> wp_sweeper := w \<rparr>)" "sweeper_done w"
    using sweeper_cancelled [OF c(2) ne1] by blast
  let ?t = "\<sigma>1\<lparr> wp_sweeper := w \<rparr>" and ?es = "task_errors \<sigma>1"
  have t: "task_errors ?t = ?es" by (simp add: task_errors_def)
  let ?u = "?t\<lparr> wp_phase := Closing (TaskErrors ?es) \<rparr>"
  have "worker_step R F fr Q n ?t ?u"
    using worker_step.group_ends [of ?t R F fr Q n] c(2,3) w(2) ne1 by (simp add: t)
  moreover have "worker_step R F fr Q n ?u (?u\<lparr> wp_phase := Closed (TaskErrors ?es), wp_closes := Suc (wp_closes ?u) \<rparr>)"
    by (rule worker_step.close) simp
  ultimately have "worker_run R F fr Q n 2 ?t
      (?u\<lparr> wp_phase := Closed (TaskErrors ?es), wp_closes := Suc (wp_closes ?u) \<rparr>)"
    using worker_run.own [OF worker_run.own [OF worker_run.none]] by (simp add: numeral_2_eq_2)
  from run_trans [OF run_trans [OF this w(1)] c(1)] show ?thesis
    using c(4-6) by (intro exI conjI) (assumption, simp_all)
qed

text \<open>
  (C16) One answer of the runtime ends the worker. \<open>response.json()\<close> decodes the body with the character
  set the answer names, and raises \<open>LookupError\<close> when that is no text encoding (base64, say), an
  exception that \<open>process_job\<close> does not handle. Whichever job of an API process a consumer is processing
  and whatever the other tasks do, on such an answer with status 200 the process can end with
  \<open>LookupError\<close> although nobody told it to stop, the job being left where it was, claimed and not finished.
\<close>

theorem charset_ends_worker:
  assumes "wp_phase \<sigma> = Serving" and "i < length (wp_consumers \<sigma>)"
    and "wp_consumers \<sigma> ! i = Processing \<lparr> cj_job_id = d, cj_payload = job_payload ns nm e x \<rparr>"
    and "post (rstrip_slash e @ ''/v1/infer'') (JDict [(''text'', JStr x)]) = HttpResponse 200 (Inl LookupError)"
  shows "process_job R fr Q l post \<lparr> cj_job_id = d, cj_payload = job_payload ns nm e x \<rparr> (wp_store \<sigma>) =
      (Inl (Uncaught LookupError), wp_store \<sigma>) \<and>
    (\<exists>k \<sigma>' es. worker_run R F fr Q n k \<sigma> \<sigma>' \<and> wp_phase \<sigma>' = Closed (TaskErrors es) \<and> LookupError \<in> set es \<and>
       wp_stop \<sigma>' = wp_stop \<sigma> \<and> wp_store \<sigma>' = wp_store \<sigma>)"
proof
  show p: "process_job R fr Q l post \<lparr> cj_job_id = d, cj_payload = job_payload ns nm e x \<rparr> (wp_store \<sigma>) =
      (Inl (Uncaught LookupError), wp_store \<sigma>)" for l
    using assms(4) by (simp add: process_job_def job_payload_def runtime_call_payload http_result_def caught_def)
  let ?t = "\<sigma>\<lparr> wp_store := wp_store \<sigma>, wp_consumers := (wp_consumers \<sigma>)[i := Raised LookupError] \<rparr>"
  have "consumer_step R F fr Q (wp_stop \<sigma>) (wp_store \<sigma>, wp_consumers \<sigma> ! i) (wp_store \<sigma>, Raised LookupError)"
    using consumer_step.process [OF p, where F = F and stop = "wp_stop \<sigma>"] assms(3) by simp
  from worker_run.own [OF worker_run.none worker_step.consumes [OF assms(1,2) this, where concurrency = n]]
  have "worker_run R F fr Q n (Suc 0) \<sigma> ?t" .
  moreover have "LookupError \<in> set (task_errors ?t)"
    using assms(2) by (simp add: task_errors_iff set_update_memI)
  then obtain k \<sigma>' es where "worker_run R F fr Q n k ?t \<sigma>'" "wp_phase \<sigma>' = Closed (TaskErrors es)"
    "LookupError \<in> set es" "wp_stop \<sigma>' = wp_stop \<sigma>" "wp_store \<sigma>' = wp_store \<sigma>"
    using errors_end [of ?t LookupError R F fr Q n] assms(1) by auto
  ultimately show "\<exists>k \<sigma>' es. worker_run R F fr Q n k \<sigma> \<sigma>' \<and> wp_phase \<sigma>' = Closed (TaskErrors es) \<and>
      LookupError \<in> set es \<and> wp_stop \<sigma>' = wp_stop \<sigma> \<and> wp_store \<sigma>' = wp_store \<sigma>"
    using run_trans by blast
qed

definition busy_worker :: "mem worker_proc" where
  "busy_worker = \<lparr> wp_phase = Serving, wp_store = swept_store, wp_stop = False,
     wp_consumers = [Claiming, Processing \<lparr> cj_job_id = ''a'', cj_payload = job_payload ''n'' ''d'' ''http://h'' ''t'' \<rparr>],
     wp_sweeper = SweepWaiting, wp_closes = 0 \<rparr>"

theorem charset_ends_worker_witness:
  "\<exists>k \<sigma>' es. worker_run mem_redis frac_text id default_queue 2 k busy_worker \<sigma>' \<and>
     wp_phase \<sigma>' = Closed (TaskErrors es) \<and> LookupError \<in> set es \<and> \<not> wp_stop \<sigma>'"
  using charset_ends_worker [of busy_worker 1 "''a''" "''n''" "''d''" "''http://h''" "''t''"
      "\<lambda>_ _. HttpResponse 200 (Inl LookupError)" mem_redis id default_queue Delivered frac_text 2]
  by (auto simp: busy_worker_def)

end
