(* ===== verification/Migration_Env.thy ===== *)
theory Migration_Env
  imports Database
begin

text \<open>
  The Alembic environment \<open>migrations/env.py\<close>: the database URL stored in and read back from the
  configuration, and the offline and online runs of the migrations as sequences of events. Alembic
  keeps its options in a \<open>ConfigParser\<close> of the standard library, whose value interpolation is
  modelled here; the migration runner of Alembic is a parameter.
\<close>

section \<open>ConfigParser\<close>

datatype config_error =
    InvalidInterpolation
  | InterpolationSyntaxError
  | InterpolationMissingOptionError
  | InterpolationDepthError

type_synonym options = "(string \<times> string) list"

text \<open>
  What \<open>BasicInterpolation.before_set\<close> accepts: \<open>remove_escaped\<close> is \<open>value.replace("%%", "")\<close>,
  \<open>match_key\<close> the pattern of an interpolation (a percent sign, a name in parentheses, an s) at the
  start of a text, with the name and the rest, and \<open>remove_keys\<close> the substitution of all of them.
\<close>

fun remove_escaped :: "string \<Rightarrow> string" where
  "remove_escaped (c # d # cs) =
     (if c = CHR ''%'' \<and> d = CHR ''%'' then remove_escaped cs else c # remove_escaped (d # cs))"
| "remove_escaped cs = cs"

definition match_key :: "string \<Rightarrow> (string \<times> string) option" where
  "match_key s =
     (if take 2 s = ''%('' then
        (let name = takeWhile (\<lambda>c. c \<noteq> CHR '')'') (drop 2 s);
             rest = dropWhile (\<lambda>c. c \<noteq> CHR '')'') (drop 2 s) in
         if name \<noteq> [] \<and> take 2 rest = '')s'' then Some (name, drop 2 rest) else None)
      else None)"

lemma match_key_shorter: "match_key s = Some (name, rest) \<Longrightarrow> length rest < length s"
proof -
  assume m: "match_key s = Some (name, rest)"
  let ?tail = "dropWhile (\<lambda>c. c \<noteq> CHR '')'') (drop 2 s)"
  from m have r: "rest = drop 2 ?tail" "s \<noteq> []" by (auto simp: match_key_def Let_def split: if_splits)
  have "length ?tail \<le> length s" using length_dropWhile_le [of "\<lambda>c. c \<noteq> CHR '')''" "drop 2 s"] by simp
  moreover have "take 2 ?tail = '')s''" using m by (simp add: match_key_def Let_def split: if_splits)
  ultimately show ?thesis unfolding r by (cases ?tail) auto
qed

function remove_keys :: "string \<Rightarrow> string" where
  "remove_keys s =
     (case match_key s of
        Some (_, rest) \<Rightarrow> remove_keys rest
      | None \<Rightarrow> (case s of [] \<Rightarrow> [] | c # cs \<Rightarrow> c # remove_keys cs))"
  by pat_completeness auto
termination by (relation "measure length") (auto dest: match_key_shorter)

definition before_set :: "string \<Rightarrow> config_error + string" where
  "before_set value =
     (if CHR ''%'' \<in> set (remove_keys (remove_escaped value)) then Inl InvalidInterpolation else Inr value)"

text \<open>
  \<open>BasicInterpolation._interpolate_some\<close>: a doubled percent sign is one, a name is replaced by its
  value, itself interpolated one level deeper, and ten levels are the most.
\<close>

definition MAX_INTERPOLATION_DEPTH :: nat where
  "MAX_INTERPOLATION_DEPTH = 10"

function interpolate :: "options \<Rightarrow> nat \<Rightarrow> string \<Rightarrow> config_error + string" where
  "interpolate opts depth s =
     (if MAX_INTERPOLATION_DEPTH < depth then Inl InterpolationDepthError
      else (case s of
        [] \<Rightarrow> Inr []
      | c # cs \<Rightarrow>
          if c \<noteq> CHR ''%'' then bind_result (interpolate opts depth cs) (\<lambda>r. Inr (c # r))
          else if take 1 cs = ''%''
          then bind_result (interpolate opts depth (drop 1 cs)) (\<lambda>r. Inr (CHR ''%'' # r))
          else if take 1 cs \<noteq> ''('' then Inl InterpolationSyntaxError
          else (case match_key s of
                  None \<Rightarrow> Inl InterpolationSyntaxError
                | Some (name, rest) \<Rightarrow>
                    (case map_of opts (py_lower name) of
                       None \<Rightarrow> Inl InterpolationMissingOptionError
                     | Some v \<Rightarrow>
                         bind_result (if CHR ''%'' \<in> set v then interpolate opts (Suc depth) v else Inr v)
                           (\<lambda>x. bind_result (interpolate opts depth rest) (\<lambda>r. Inr (x @ r)))))))"
  by pat_completeness auto
termination
  by (relation "measures [\<lambda>(_, depth, _). Suc MAX_INTERPOLATION_DEPTH - depth, \<lambda>(_, _, s). length s]")
    (auto dest: match_key_shorter)

text \<open>The options of the main section, the defaults included.\<close>

definition set_main_option :: "string \<Rightarrow> string \<Rightarrow> options \<Rightarrow> config_error + options" where
  "set_main_option name value opts =
     bind_result (before_set value) (\<lambda>v. Inr (AList.update (py_lower name) v opts))"

definition get_main_option :: "string \<Rightarrow> options \<Rightarrow> config_error + string option" where
  "get_main_option name opts =
     (case map_of opts (py_lower name) of
        None \<Rightarrow> Inr None
      | Some raw \<Rightarrow> bind_result (interpolate opts 1 raw) (\<lambda>v. Inr (Some v)))"

fun interpolate_all :: "options \<Rightarrow> options \<Rightarrow> config_error + options" where
  "interpolate_all opts [] = Inr []"
| "interpolate_all opts ((k, raw) # kvs) =
     bind_result (interpolate opts 1 raw) (\<lambda>v.
     bind_result (interpolate_all opts kvs) (\<lambda>r. Inr ((k, v) # r)))"

definition get_section :: "options \<Rightarrow> config_error + options" where
  "get_section opts = interpolate_all opts opts"

section \<open>The environment module\<close>

text \<open>
  What a run does, in order. An engine is identified by its URL. The parameters of a run: whether
  Alembic is in offline mode, whether it was given a configuration file, whether the database
  accepts the connection, and Alembic's runner, which applies the pending migrations to a catalogue.
\<close>

datatype migration_event =
    LoggingConfigured
  | OfflineConfigured "string option"
  | ScriptEmitted
  | EngineCreated "string option"
  | Connected
  | Configured
  | Begun
  | TxCommitted
  | RolledBack
  | ConnectionClosed
  | Disposed

datatype migration_error =
    SettingsError string
  | ConfigError config_error
  | ConnectFailed
  | MigrationFailed ddl_error

record alembic =
  offline_mode :: bool
  config_file_name :: "string option"
  connectable :: bool
  run_migrations :: "catalog \<Rightarrow> ddl_error + catalog"

type_synonym migration_run = "(migration_error + catalog) \<times> migration_event list"

definition lift_config :: "config_error + 'a \<Rightarrow> migration_error + 'a" where
  "lift_config r = (case r of Inl e \<Rightarrow> Inl (ConfigError e) | Inr x \<Rightarrow> Inr x)"

text \<open>Offline, the migrations are written out as a script for the configured URL; nothing connects.\<close>

definition run_migrations_offline :: "options \<Rightarrow> catalog \<Rightarrow> migration_run" where
  "run_migrations_offline opts cat =
     (case lift_config (get_main_option ''sqlalchemy.url'' opts) of
        Inl e \<Rightarrow> (Inl e, [])
      | Inr url \<Rightarrow> (Inr cat, [OfflineConfigured url, Begun, ScriptEmitted, TxCommitted]))"

definition do_run_migrations :: "alembic \<Rightarrow> catalog \<Rightarrow> migration_run" where
  "do_run_migrations A cat =
     (case run_migrations A cat of
        Inr cat' \<Rightarrow> (Inr cat', [Configured, Begun, TxCommitted])
      | Inl e \<Rightarrow> (Inl (MigrationFailed e), [Configured, Begun, RolledBack]))"

text \<open>The connection is closed on every way out of its block; the engine is disposed of after it.\<close>

definition run_async_migrations :: "alembic \<Rightarrow> options \<Rightarrow> catalog \<Rightarrow> migration_run" where
  "run_async_migrations A opts cat =
     (case lift_config (get_section opts) of
        Inl e \<Rightarrow> (Inl e, [])
      | Inr section \<Rightarrow>
          let created = [EngineCreated (map_of section ''sqlalchemy.url'')] in
          if \<not> connectable A then (Inl ConnectFailed, created)
          else
            (let (r, events) = do_run_migrations A cat in
             (r, created @ [Connected] @ events @ [ConnectionClosed] @
                 (case r of Inl _ \<Rightarrow> [] | Inr _ \<Rightarrow> [Disposed]))))"

definition run_migrations_online :: "alembic \<Rightarrow> options \<Rightarrow> catalog \<Rightarrow> migration_run" where
  "run_migrations_online A opts cat = run_async_migrations A opts cat"

definition configure_url :: "environ \<Rightarrow> options \<Rightarrow> migration_error + options" where
  "configure_url env opts =
     (case from_env env of
        Inl msg \<Rightarrow> Inl (SettingsError msg)
      | Inr st \<Rightarrow> lift_config (set_main_option ''sqlalchemy.url'' (database_url st) opts))"

definition migration_env :: "alembic \<Rightarrow> environ \<Rightarrow> options \<Rightarrow> catalog \<Rightarrow> migration_run" where
  "migration_env A env opts cat =
     (let logging = (case config_file_name A of None \<Rightarrow> [] | Some _ \<Rightarrow> [LoggingConfigured]) in
      case configure_url env opts of
        Inl e \<Rightarrow> (Inl e, logging)
      | Inr opts \<Rightarrow>
          map_prod id ((@) logging)
            (if offline_mode A then run_migrations_offline opts cat
             else run_migrations_online A opts cat))"

text \<open>The main section of \<open>alembic.ini\<close>, with the default option for its directory.\<close>

definition alembic_ini :: "string \<Rightarrow> options" where
  "alembic_ini here =
     [(''here'', here), (''script_location'', ''migrations''), (''prepend_sys_path'', ''.''),
      (''path_separator'', ''os'')]"

declare remove_keys.simps [simp del] interpolate.simps [simp del]

section \<open>Percent signs in the URL\<close>

text \<open>Text in which every percent sign starts an escape of two hexadecimal digits, as in a URL.\<close>

fun percent_encoded :: "string \<Rightarrow> bool" where
  "percent_encoded [] = True"
| "percent_encoded (c # cs) =
     (if c = CHR ''%'' then
        (case cs of a # b # r \<Rightarrow> hex_val a \<noteq> None \<and> hex_val b \<noteq> None \<and> percent_encoded r | _ \<Rightarrow> False)
      else percent_encoded cs)"

lemma hex_not_special:
  "hex_val (CHR ''%'') = None" "hex_val (CHR ''('') = None"
  by (simp_all add: hex_val_def)

lemma plain_percent_encoded: "CHR ''%'' \<notin> set s \<Longrightarrow> percent_encoded s"
  by (induction s) auto

lemma remove_escaped_Cons: "c \<noteq> CHR ''%'' \<Longrightarrow> remove_escaped (c # cs) = c # remove_escaped cs"
  by (cases cs) auto

lemma remove_keys_Cons:
  assumes "take 2 (c # cs) \<noteq> ''%(''"
  shows "remove_keys (c # cs) = c # remove_keys cs"
proof -
  have "match_key (c # cs) = None" unfolding match_key_def using assms by (rule if_not_P)
  then show ?thesis by (subst remove_keys.simps) simp
qed

lemma percent_encoded_kept: "percent_encoded s \<Longrightarrow> remove_escaped s = s \<and> remove_keys s = s"
proof (induction s rule: percent_encoded.induct)
  case 1
  show ?case by (simp add: remove_keys.simps match_key_def)
next
  case (2 c cs)
  show ?case
  proof (cases "c = CHR ''%''")
    case True
    with "2.prems" obtain a b r where cs: "cs = a # b # r"
      and h: "hex_val a \<noteq> None" "hex_val b \<noteq> None" "percent_encoded r"
      by (auto split: list.splits)
    then have "a \<noteq> CHR ''%''" "b \<noteq> CHR ''%''" "a \<noteq> CHR ''(''" using hex_not_special by auto
    moreover have "remove_escaped r = r \<and> remove_keys r = r" using "2.IH"(1) True cs h(3) by blast
    ultimately show ?thesis by (simp add: cs True remove_escaped_Cons remove_keys_Cons)
  next
    case False
    then show ?thesis using 2 by (simp add: remove_escaped_Cons remove_keys_Cons)
  qed
qed

lemma before_set_url:
  "percent_encoded s \<Longrightarrow>
     before_set s = (if CHR ''%'' \<in> set s then Inl InvalidInterpolation else Inr s)"
  by (simp add: before_set_def percent_encoded_kept)

lemma interpolate_plain:
  "CHR ''%'' \<notin> set s \<Longrightarrow> depth \<le> MAX_INTERPOLATION_DEPTH \<Longrightarrow> interpolate opts depth s = Inr s"
proof (induction s)
  case (Cons c cs)
  then show ?case by (subst interpolate.simps) auto
qed (simp add: interpolate.simps)

lemma interpolate_all_plain:
  "\<forall>(k, v) \<in> set kvs. CHR ''%'' \<notin> set v \<Longrightarrow> interpolate_all opts kvs = Inr kvs"
  by (induction kvs) (auto simp: interpolate_plain MAX_INTERPOLATION_DEPTH_def)

lemma option_name: "py_lower ''sqlalchemy.url'' = ''sqlalchemy.url''"
  by code_simp

lemma configured_options:
  assumes "from_env env = Inr st" and "percent_encoded (database_url st)"
  shows "configure_url env (alembic_ini here) =
    (if CHR ''%'' \<in> set (database_url st) then Inl (ConfigError InvalidInterpolation)
     else Inr (alembic_ini here @ [(''sqlalchemy.url'', database_url st)]))"
  using assms
  by (simp add: configure_url_def set_main_option_def before_set_url option_name lift_config_def alembic_ini_def)

lemma read_url:
  assumes "CHR ''%'' \<notin> set url" and "CHR ''%'' \<notin> set here"
  defines "opts \<equiv> alembic_ini here @ [(''sqlalchemy.url'', url)]"
  shows "get_main_option ''sqlalchemy.url'' opts = Inr (Some url)" and "get_section opts = Inr opts"
    and "map_of opts ''sqlalchemy.url'' = Some url"
proof -
  show "map_of opts ''sqlalchemy.url'' = Some url" by (simp add: opts_def alembic_ini_def)
  then show "get_main_option ''sqlalchemy.url'' opts = Inr (Some url)"
    using assms by (simp add: get_main_option_def option_name interpolate_plain MAX_INTERPOLATION_DEPTH_def)
  show "get_section opts = Inr opts"
    unfolding get_section_def by (rule interpolate_all_plain) (use assms in \<open>simp add: opts_def alembic_ini_def\<close>)
qed

section \<open>Properties\<close>

text \<open>
  (C25) The migrations run against the URL the service uses, or do not run at all. Take any environment
  the settings accept, with a URL whose percent signs are escapes. Without a percent sign, the
  offline run writes its script for exactly that URL and connects to nothing, and the online run
  creates its engine for exactly that URL, applies the pending migrations in a transaction and closes
  the connection. With one, as in an escaped password, the configuration refuses the value: no engine
  is created and every migration command fails, although the service itself starts with that URL.
\<close>

theorem migrations_use_service_url:
  assumes "from_env env = Inr st" and "percent_encoded (database_url st)" and "CHR ''%'' \<notin> set here"
    and "run = migration_env A env (alembic_ini here) cat"
  shows "fst (create_database_engine st) = database_url st \<and>
    (if CHR ''%'' \<in> set (database_url st)
     then fst run = Inl (ConfigError InvalidInterpolation) \<and> set (snd run) \<subseteq> {LoggingConfigured}
     else if offline_mode A
     then fst run = Inr cat \<and> OfflineConfigured (Some (database_url st)) \<in> set (snd run) \<and>
       Connected \<notin> set (snd run)
     else EngineCreated (Some (database_url st)) \<in> set (snd run) \<and>
       (Connected \<in> set (snd run) \<longleftrightarrow> ConnectionClosed \<in> set (snd run)) \<and>
       (Disposed \<in> set (snd run) \<longleftrightarrow> TxCommitted \<in> set (snd run)) \<and>
       fst run = (if \<not> connectable A then Inl ConnectFailed
                  else case run_migrations A cat of Inl e \<Rightarrow> Inl (MigrationFailed e) | Inr c \<Rightarrow> Inr c))"
proof (cases "CHR ''%'' \<in> set (database_url st)")
  case True
  then show ?thesis
    using assms(4) configured_options [OF assms(1,2), of here]
    by (auto simp: migration_env_def create_database_engine_def Let_def split: option.splits)
next
  case False
  note r = read_url [OF False assms(3)]
  show ?thesis
    using False configured_options [OF assms(1,2), of here] r
    by (simp add: assms(4) migration_env_def create_database_engine_def run_migrations_offline_def
        run_migrations_online_def run_async_migrations_def do_run_migrations_def lift_config_def Let_def
        split: option.split sum.split)
qed

definition demo_alembic :: alembic where
  "demo_alembic =
     \<lparr> offline_mode = False, config_file_name = Some ''alembic.ini'', connectable = True,
       run_migrations = upgrade \<rparr>"

definition escaped_url_env :: environ where
  "escaped_url_env =
     [''KERNEXYS_DATABASE_URL'' \<mapsto> ''postgresql+asyncpg://kernexys:p%40ss@db/kernexys'']"

text \<open>
  From an empty database the online run with the defaults leaves the declared tables; an escaped
  password stops it.
\<close>

theorem migrations_use_service_url_witness:
  "fst (migration_env demo_alembic (\<lambda>_. None) (alembic_ini ''/srv'') []) = Inr migrated \<and>
   fst (migration_env demo_alembic escaped_url_env (alembic_ini ''/srv'') []) =
     Inl (ConfigError InvalidInterpolation)"
proof
  have d: "from_env (\<lambda>_. None) = Inr default_settings" by code_simp
  have p: "percent_encoded (database_url default_settings)"
    "CHR ''%'' \<notin> set (database_url default_settings)" "CHR ''%'' \<notin> set ''/srv''" by code_simp+
  have a: "\<not> offline_mode demo_alembic" "connectable demo_alembic" "run_migrations demo_alembic = upgrade"
    by (simp_all add: demo_alembic_def)
  show "fst (migration_env demo_alembic (\<lambda>_. None) (alembic_ini ''/srv'') []) = Inr migrated"
    using migrations_use_service_url [OF d p(1,3) refl, of demo_alembic "[]"] p(2) a
    by (simp add: upgrade_empty)
  let ?st = "default_settings\<lparr> database_url := ''postgresql+asyncpg://kernexys:p%40ss@db/kernexys'' \<rparr>"
  have e: "from_env escaped_url_env = Inr ?st" by code_simp
  have q: "percent_encoded (database_url ?st)" "CHR ''%'' \<in> set (database_url ?st)" by code_simp+
  show "fst (migration_env demo_alembic escaped_url_env (alembic_ini ''/srv'') []) =
     Inl (ConfigError InvalidInterpolation)"
    using migrations_use_service_url [OF e q(1) p(3) refl, of demo_alembic "[]"] q(2) by simp
qed

end
