(* ===== verification/Metrics.thy ===== *)
theory Metrics
  imports Py_Values "HOL-Library.AList" "HOL-Library.Multiset"
begin

text \<open>
  The metrics collector of \<open>app/metrics.py\<close>: the dictionaries it keeps, one operation per tracking
  method, and the export in the Prometheus text format. A dictionary is an association list in
  insertion order. Durations are finite floats, carried as rational numbers; the text of a float is
  the argument \<open>repr\<close>.
\<close>

section \<open>State and tracking\<close>

type_synonym request_key = "string \<times> string \<times> string"

record collector =
  request_count :: "(request_key \<times> nat) list"
  request_latency :: "(request_key \<times> rat list) list"
  inference_latency :: "(string \<times> rat list) list"
  queue_depth :: "(string \<times> int) list"
  queue_errors :: "((string \<times> string) \<times> nat) list"
  model_deployments_total :: int
  model_versions_total :: int
  kubernetes_syncs :: "(string \<times> (rat \<times> bool) list) list"
  kubernetes_sync_errors :: "(string \<times> nat) list"

definition MetricsCollector :: collector where
  "MetricsCollector =
     \<lparr> request_count = [], request_latency = [], inference_latency = [], queue_depth = [],
       queue_errors = [], model_deployments_total = 0, model_versions_total = 0,
       kubernetes_syncs = [], kubernetes_sync_errors = [] \<rparr>"

text \<open>Setting a key that is missing, and updating the value of one that is there.\<close>

definition setdefault :: "'k \<Rightarrow> 'v \<Rightarrow> ('k \<times> 'v) list \<Rightarrow> ('k \<times> 'v) list" where
  "setdefault k v d = (if map_of d k = None then AList.update k v d else d)"

definition modify :: "'k \<Rightarrow> ('v \<Rightarrow> 'v) \<Rightarrow> ('k \<times> 'v) list \<Rightarrow> py_error + ('k \<times> 'v) list" where
  "modify k f d = (case map_of d k of None \<Rightarrow> Inl KeyError | Some v \<Rightarrow> Inr (AList.update k (f v) d))"

text \<open>
  How the body of a \<open>with\<close> block ends: it returns, it raises an exception of the named class, or it
  is left by a \<open>BaseException\<close> (a cancellation) that \<open>except Exception\<close> does not see.
\<close>

datatype body_exit = Returned | Raised string | Cancelled

fun exit_status :: "body_exit \<Rightarrow> string" where
  "exit_status Returned = ''200''"
| "exit_status (Raised cls) = cls"
| "exit_status Cancelled = ''unknown''"

definition track_request ::
  "string \<Rightarrow> string \<Rightarrow> body_exit \<Rightarrow> rat \<Rightarrow> collector \<Rightarrow> py_error + collector" where
  "track_request method path ex duration c =
     (let key = (method, path, exit_status ex);
          c = (if map_of (request_count c) key = None
               then c\<lparr> request_count := AList.update key 0 (request_count c),
                       request_latency := AList.update key [] (request_latency c) \<rparr>
               else c) in
      bind_result (modify key Suc (request_count c)) (\<lambda>counts.
      bind_result (modify key (\<lambda>ds. ds @ [duration]) (request_latency c)) (\<lambda>latencies.
      Inr (c\<lparr> request_count := counts, request_latency := latencies \<rparr>))))"

definition deployment_key :: "string \<Rightarrow> string \<Rightarrow> string" where
  "deployment_key namespace deployment_name = namespace @ ''/'' @ deployment_name"

definition track_inference :: "string \<Rightarrow> string \<Rightarrow> rat \<Rightarrow> collector \<Rightarrow> py_error + collector" where
  "track_inference namespace deployment_name duration c =
     (let key = deployment_key namespace deployment_name in
      bind_result (modify key (\<lambda>ds. ds @ [duration]) (setdefault key [] (inference_latency c))) (\<lambda>l.
      Inr (c\<lparr> inference_latency := l \<rparr>)))"

definition track_queue_depth :: "string \<Rightarrow> string \<Rightarrow> int \<Rightarrow> collector \<Rightarrow> collector" where
  "track_queue_depth namespace deployment_name depth c =
     c\<lparr> queue_depth := AList.update (deployment_key namespace deployment_name) depth (queue_depth c) \<rparr>"

definition track_queue_error :: "string \<Rightarrow> string \<Rightarrow> string \<Rightarrow> collector \<Rightarrow> py_error + collector" where
  "track_queue_error namespace deployment_name error_type c =
     (let key = (deployment_key namespace deployment_name, error_type) in
      bind_result (modify key Suc (setdefault key 0 (queue_errors c))) (\<lambda>errors.
      Inr (c\<lparr> queue_errors := errors \<rparr>)))"

definition set_model_deployments_total :: "int \<Rightarrow> collector \<Rightarrow> collector" where
  "set_model_deployments_total n c = c\<lparr> model_deployments_total := n \<rparr>"

definition set_model_versions_total :: "int \<Rightarrow> collector \<Rightarrow> collector" where
  "set_model_versions_total n c = c\<lparr> model_versions_total := n \<rparr>"

definition track_kubernetes_sync :: "string \<Rightarrow> rat \<Rightarrow> bool \<Rightarrow> collector \<Rightarrow> py_error + collector" where
  "track_kubernetes_sync deployment_name duration success c =
     bind_result (modify deployment_name (\<lambda>ss. ss @ [(duration, success)])
                    (setdefault deployment_name [] (kubernetes_syncs c))) (\<lambda>syncs.
     let c = c\<lparr> kubernetes_syncs := syncs \<rparr> in
     if success then Inr c
     else bind_result (modify deployment_name Suc
                         (setdefault deployment_name 0 (kubernetes_sync_errors c))) (\<lambda>errors.
       Inr (c\<lparr> kubernetes_sync_errors := errors \<rparr>)))"

section \<open>Export\<close>

definition index :: "'a list \<Rightarrow> nat \<Rightarrow> py_error + 'a" where
  "index xs i = (if i < length xs then Inr (xs ! i) else Inl IndexError)"

text \<open>
  \<open>int(n * 0.95)\<close> and \<open>int(n * 0.99)\<close>: the product rounds to the nearest double, and up to 2^49
  entries its integer part is that of the exact product.
\<close>

definition percentiles :: "rat list \<Rightarrow> py_error + rat \<times> rat \<times> rat" where
  "percentiles durations =
     bind_result (index (sort durations) (length durations div 2)) (\<lambda>p50.
     bind_result (index (sort durations) (95 * length durations div 100)) (\<lambda>p95.
     bind_result (index (sort durations) (99 * length durations div 100)) (\<lambda>p99.
     Inr (p50, p95, p99))))"

definition label :: "string \<Rightarrow> string \<Rightarrow> string" where
  "label name value = name @ ''=\"'' @ value @ ''\"''"

definition request_labels :: "request_key \<Rightarrow> string" where
  "request_labels k = (case k of (method, path, status) \<Rightarrow>
     ''{'' @ label ''method'' method @ '','' @ label ''path'' path @ '','' @ label ''status'' status @ ''}'')"

definition deployment_label :: "string \<Rightarrow> string" where
  "deployment_label deployment = ''{'' @ label ''deployment'' deployment @ ''}''"

definition summary_lines ::
  "(rat \<Rightarrow> string) \<Rightarrow> string \<Rightarrow> string \<Rightarrow> rat list \<Rightarrow> py_error + string list" where
  "summary_lines repr metric labels durations =
     (if durations = [] then Inr []
      else bind_result (percentiles durations) (\<lambda>(p50, p95, p99).
        Inr [metric @ ''_p50'' @ labels @ '' '' @ repr p50,
             metric @ ''_p95'' @ labels @ '' '' @ repr p95,
             metric @ ''_p99'' @ labels @ '' '' @ repr p99]))"

fun for_items :: "('a \<Rightarrow> py_error + string list) \<Rightarrow> 'a list \<Rightarrow> py_error + string list" where
  "for_items f [] = Inr []"
| "for_items f (x # xs) = bind_result (f x) (\<lambda>ls. bind_result (for_items f xs) (\<lambda>r. Inr (ls @ r)))"

definition heading :: "string \<Rightarrow> string \<Rightarrow> string \<Rightarrow> string list" where
  "heading name help kind = [''# HELP '' @ name @ '' '' @ help, ''# TYPE '' @ name @ '' '' @ kind]"

definition sync_durations :: "(rat \<times> bool) list \<Rightarrow> rat list" where
  "sync_durations syncs = map fst (filter snd syncs)"

definition export_lines :: "(rat \<Rightarrow> string) \<Rightarrow> collector \<Rightarrow> py_error + string list" where
  "export_lines repr c =
     bind_result (for_items (\<lambda>(k, ds).
       summary_lines repr ''kernexys_http_request_duration_seconds'' (request_labels k) ds)
       (request_latency c)) (\<lambda>latencies.
     bind_result (for_items (\<lambda>(d, ds).
       summary_lines repr ''kernexys_inference_latency_seconds'' (deployment_label d) ds)
       (inference_latency c)) (\<lambda>inferences.
     bind_result (for_items (\<lambda>(d, ss).
       summary_lines repr ''kernexys_kubernetes_sync_duration_seconds'' (deployment_label d)
         (sync_durations ss)) (kubernetes_syncs c)) (\<lambda>syncs.
     Inr
      (heading ''kernexys_http_requests_total'' ''Total HTTP requests processed'' ''counter'' @
       map (\<lambda>(k, n). ''kernexys_http_requests_total'' @ request_labels k @ '' '' @ show_int (int n))
         (request_count c) @
       heading ''kernexys_http_request_duration_seconds'' ''HTTP request latency'' ''histogram'' @
       latencies @
       heading ''kernexys_inference_latency_seconds'' ''Inference request latency'' ''histogram'' @
       inferences @
       heading ''kernexys_async_queue_depth'' ''Number of pending inference jobs'' ''gauge'' @
       map (\<lambda>(d, n). ''kernexys_async_queue_depth'' @ deployment_label d @ '' '' @ show_int n)
         (queue_depth c) @
       heading ''kernexys_async_queue_errors_total'' ''Async queue error count'' ''counter'' @
       map (\<lambda>((d, t), n). ''kernexys_async_queue_errors_total{'' @ label ''deployment'' d @ '','' @
              label ''type'' t @ ''} '' @ show_int (int n)) (queue_errors c) @
       heading ''kernexys_model_deployments_total'' ''Total model deployments'' ''gauge'' @
       [''kernexys_model_deployments_total '' @ show_int (model_deployments_total c)] @
       heading ''kernexys_model_versions_total'' ''Total model versions in registry'' ''gauge'' @
       [''kernexys_model_versions_total '' @ show_int (model_versions_total c)] @
       heading ''kernexys_kubernetes_sync_duration_seconds'' ''Controller sync latency'' ''histogram'' @
       syncs @
       heading ''kernexys_kubernetes_sync_errors_total'' ''Controller sync error count'' ''counter'' @
       map (\<lambda>(d, n). ''kernexys_kubernetes_sync_errors_total'' @ deployment_label d @ '' '' @
              show_int (int n)) (kubernetes_sync_errors c)))))"

fun join_lines :: "string list \<Rightarrow> string" where
  "join_lines [] = []"
| "join_lines [l] = l"
| "join_lines (l # ls) = l @ [CHR 0x0A] @ join_lines ls"

definition to_prometheus_format :: "(rat \<Rightarrow> string) \<Rightarrow> collector \<Rightarrow> py_error + string" where
  "to_prometheus_format repr c =
     bind_result (export_lines repr c) (\<lambda>lines. Inr (join_lines lines @ [CHR 0x0A]))"

section \<open>Runs of the collector\<close>

datatype event =
    RequestEnded string string body_exit rat
  | InferenceEnded string string rat
  | QueueDepth string string int
  | QueueFailed string string string
  | DeploymentsCounted int
  | VersionsCounted int
  | SyncEnded string rat bool

fun track :: "event \<Rightarrow> collector \<Rightarrow> py_error + collector" where
  "track (RequestEnded m p ex d) c = track_request m p ex d c"
| "track (InferenceEnded ns n d) c = track_inference ns n d c"
| "track (QueueDepth ns n k) c = Inr (track_queue_depth ns n k c)"
| "track (QueueFailed ns n t) c = track_queue_error ns n t c"
| "track (DeploymentsCounted k) c = Inr (set_model_deployments_total k c)"
| "track (VersionsCounted k) c = Inr (set_model_versions_total k c)"
| "track (SyncEnded n d ok) c = track_kubernetes_sync n d ok c"

fun track_all :: "event list \<Rightarrow> collector \<Rightarrow> py_error + collector" where
  "track_all [] c = Inr c"
| "track_all (e # es) c = bind_result (track e c) (track_all es)"

text \<open>What a history of events says about each key, independently of the dictionaries.\<close>

fun request_of :: "request_key \<Rightarrow> event \<Rightarrow> rat list" where
  "request_of k (RequestEnded m p ex d) = (if (m, p, exit_status ex) = k then [d] else [])"
| "request_of k _ = []"

fun inference_of :: "string \<Rightarrow> event \<Rightarrow> rat list" where
  "inference_of k (InferenceEnded ns n d) = (if deployment_key ns n = k then [d] else [])"
| "inference_of k _ = []"

fun queue_error_of :: "string \<times> string \<Rightarrow> event \<Rightarrow> unit list" where
  "queue_error_of k (QueueFailed ns n t) = (if (deployment_key ns n, t) = k then [()] else [])"
| "queue_error_of k _ = []"

fun sync_of :: "string \<Rightarrow> event \<Rightarrow> (rat \<times> bool) list" where
  "sync_of k (SyncEnded n d ok) = (if n = k then [(d, ok)] else [])"
| "sync_of k _ = []"

definition history :: "('k \<Rightarrow> event \<Rightarrow> 'v list) \<Rightarrow> event list \<Rightarrow> 'k \<Rightarrow> 'v list" where
  "history f es k = concat (map (f k) es)"

definition recorded :: "'v list \<Rightarrow> 'v list option" where
  "recorded vs = (if vs = [] then None else Some vs)"

text \<open>The collector agrees with a history: every dictionary says exactly what happened to each key.\<close>

definition tracked :: "event list \<Rightarrow> collector \<Rightarrow> bool" where
  "tracked es c \<longleftrightarrow>
     (\<forall>k. map_of (request_latency c) k = recorded (history request_of es k) \<and>
          map_of (request_count c) k = map_option length (recorded (history request_of es k))) \<and>
     (\<forall>k. map_of (inference_latency c) k = recorded (history inference_of es k)) \<and>
     (\<forall>k. map_of (queue_errors c) k = map_option length (recorded (history queue_error_of es k))) \<and>
     (\<forall>k. map_of (kubernetes_syncs c) k = recorded (history sync_of es k) \<and>
          map_of (kubernetes_sync_errors c) k =
            map_option length (recorded (filter (\<lambda>s. \<not> snd s) (history sync_of es k))))"

lemma history_simps [simp]:
  "history f [] k = []" "history f (es @ [e]) k = history f es k @ f k e"
  by (simp_all add: history_def)

lemma recorded_simps [simp]:
  "recorded [] = None" "recorded (xs @ [x]) = Some (xs @ [x])"
  by (simp_all add: recorded_def)

lemma modify_setdefault:
  "modify k f (setdefault k v0 d) =
     Inr (AList.update k (f (case map_of d k of None \<Rightarrow> v0 | Some v \<Rightarrow> v)) (setdefault k v0 d))"
  by (cases "map_of d k") (auto simp: modify_def setdefault_def update_conv')

lemma map_of_update_setdefault:
  "map_of (AList.update k v (setdefault k v0 d)) j = (if j = k then Some v else map_of d j)"
  by (simp add: setdefault_def update_conv')

lemma append_recorded: "(case recorded vs of None \<Rightarrow> [] | Some v \<Rightarrow> v) = vs"
  by (simp add: recorded_def)

lemma count_recorded:
  "(case map_option length (recorded vs) of None \<Rightarrow> 0 | Some n \<Rightarrow> n) = length vs"
  by (simp add: recorded_def)

lemma track_all_snoc: "track_all (es @ [e]) c = bind_result (track_all es c) (track e)"
  by (induction es arbitrary: c) (auto simp: bind_result_def split: sum.splits)

lemma track_request_eq:
  assumes "map_of (request_count c) (m, p, exit_status ex) = None \<longleftrightarrow>
    map_of (request_latency c) (m, p, exit_status ex) = None"
  shows "track_request m p ex d c =
    bind_result (modify (m, p, exit_status ex) Suc
      (setdefault (m, p, exit_status ex) 0 (request_count c))) (\<lambda>counts.
    bind_result (modify (m, p, exit_status ex) (\<lambda>ds. ds @ [d])
      (setdefault (m, p, exit_status ex) [] (request_latency c))) (\<lambda>latencies.
    Inr (c\<lparr> request_count := counts, request_latency := latencies \<rparr>)))"
proof (cases "map_of (request_count c) (m, p, exit_status ex) = None")
  case True
  then show ?thesis using assms by (simp add: track_request_def Let_def setdefault_def modify_def update_conv')
next
  case False
  then show ?thesis using assms by (auto simp: track_request_def Let_def setdefault_def)
qed

lemmas tracking = Let_def modify_setdefault map_of_update_setdefault append_recorded count_recorded

lemma tracked_step:
  assumes "tracked es c"
  shows "\<exists>c'. track e c = Inr c' \<and> tracked (es @ [e]) c'"
proof (cases e)
  case (RequestEnded m p ex d)
  have "map_of (request_count c) (m, p, exit_status ex) = None \<longleftrightarrow>
      map_of (request_latency c) (m, p, exit_status ex) = None"
    using assms by (simp add: tracked_def)
  from track_request_eq [OF this] show ?thesis
    using assms by (simp add: tracked_def RequestEnded tracking del: case_map_option)
next
  case (InferenceEnded ns n d)
  then show ?thesis using assms by (simp add: tracked_def track_inference_def tracking)
next
  case (QueueFailed ns n t)
  then show ?thesis using assms by (simp add: tracked_def track_queue_error_def tracking del: case_map_option)
next
  case (SyncEnded n d ok)
  then show ?thesis
    using assms by (cases ok) (simp_all add: tracked_def track_kubernetes_sync_def tracking
        del: case_map_option)
qed (use assms in \<open>simp_all add: tracked_def track_queue_depth_def set_model_deployments_total_def
      set_model_versions_total_def\<close>)

lemma tracked_run: "\<exists>c. track_all es MetricsCollector = Inr c \<and> tracked es c"
proof (induction es rule: rev_induct)
  case Nil
  then show ?case by (simp add: tracked_def MetricsCollector_def)
next
  case (snoc e es)
  then obtain c where "track_all es MetricsCollector = Inr c" "tracked es c" by blast
  then show ?case using tracked_step [of es c e] by (simp add: track_all_snoc)
qed

section \<open>Percentiles\<close>

lemma sort_rank:
  fixes xs :: "'a :: linorder list"
  assumes "i < length xs"
  shows "length (filter (\<lambda>x. x < sort xs ! i) xs) \<le> i" "i < length (filter (\<lambda>x. x \<le> sort xs ! i) xs)"
proof -
  have same: "length (filter P xs) = card {j. j < length xs \<and> P (sort xs ! j)}" for P
  proof -
    have "length (filter P xs) = length (filter P (sort xs))" by (simp add: filter_sort)
    then show ?thesis by (simp only: length_filter_conv_card length_sort)
  qed
  have "{j. j < length xs \<and> sort xs ! j < sort xs ! i} \<subseteq> {..<i}"
  proof
    fix j
    assume "j \<in> {j. j < length xs \<and> sort xs ! j < sort xs ! i}"
    then show "j \<in> {..<i}"
      using sorted_nth_mono [of "sort xs" i j] by (auto simp: not_less [symmetric])
  qed
  then show "length (filter (\<lambda>x. x < sort xs ! i) xs) \<le> i"
    unfolding same by (metis card_lessThan card_mono finite_lessThan)
  have "{..i} \<subseteq> {j. j < length xs \<and> sort xs ! j \<le> sort xs ! i}"
    using assms sorted_nth_mono [of "sort xs"] by auto
  then have "card {..i} \<le> card {j. j < length xs \<and> sort xs ! j \<le> sort xs ! i}"
    by (rule card_mono [rotated]) simp
  then show "i < length (filter (\<lambda>x. x \<le> sort xs ! i) xs)" unfolding same by simp
qed

lemma percentiles_eq:
  assumes "xs \<noteq> []"
  shows "percentiles xs = Inr (sort xs ! (length xs div 2), sort xs ! (95 * length xs div 100),
    sort xs ! (99 * length xs div 100))"
proof -
  have "length xs div 2 < length xs" "95 * length xs div 100 < length xs"
    "99 * length xs div 100 < length xs"
    using assms by (auto simp: less_mult_imp_div_less)
  then show ?thesis by (simp add: percentiles_def index_def)
qed

lemma for_items_total: "(\<And>x. \<exists>ls. f x = Inr ls) \<Longrightarrow> \<exists>ls. for_items f xs = Inr ls"
proof (induction xs)
  case (Cons x xs)
  then show ?case by (metis bind_result_simps(2) for_items.simps(2))
qed simp

lemma summary_lines_total: "\<exists>ls. summary_lines repr metric labels durations = Inr ls"
  by (simp add: summary_lines_def percentiles_eq)

lemma export_lines_total:
  "\<exists>lines. export_lines repr c = Inr lines \<and>
     (\<forall>(k, n) \<in> set (request_count c).
        ''kernexys_http_requests_total'' @ request_labels k @ '' '' @ show_int (int n) \<in> set lines)"
proof -
  have "\<exists>ls. for_items (\<lambda>(k, ds). summary_lines repr metric (g k) (h ds)) xs = Inr ls"
    for metric xs and g :: "'k \<Rightarrow> string" and h :: "'d \<Rightarrow> rat list"
    by (intro for_items_total) (simp add: summary_lines_total split: prod.splits)
  from this [of _ request_labels id] this [of _ deployment_label id] this [of _ deployment_label sync_durations]
  obtain a b d where
    "for_items (\<lambda>(k, ds). summary_lines repr ''kernexys_http_request_duration_seconds''
        (request_labels k) ds) (request_latency c) = Inr a"
    "for_items (\<lambda>(k, ds). summary_lines repr ''kernexys_inference_latency_seconds''
        (deployment_label k) ds) (inference_latency c) = Inr b"
    "for_items (\<lambda>(k, ss). summary_lines repr ''kernexys_kubernetes_sync_duration_seconds''
        (deployment_label k) (sync_durations ss)) (kubernetes_syncs c) = Inr d"
    unfolding id_apply by blast
  then show ?thesis by (auto simp: export_lines_def)
qed

section \<open>Properties\<close>

text \<open>
  (C35) The collector reports exactly what happened. For every sequence of tracking calls no call
  fails, each key of each dictionary has exactly the durations, counts and failures of the events
  with that key, in order (a key never seen is absent), the export succeeds although it indexes into
  sorted lists, and its counter line for a key shows how many requests of that method, path and
  status there were.
\<close>

theorem collector_exact:
  "\<exists>c lines. track_all es MetricsCollector = Inr c \<and> tracked es c \<and>
     export_lines repr c = Inr lines \<and>
     to_prometheus_format repr c = Inr (join_lines lines @ [CHR 0x0A]) \<and>
     (\<forall>k. history request_of es k \<noteq> [] \<longrightarrow>
        ''kernexys_http_requests_total'' @ request_labels k @ '' '' @
          show_int (int (length (history request_of es k))) \<in> set lines)"
proof -
  obtain c where c: "track_all es MetricsCollector = Inr c" "tracked es c"
    using tracked_run by blast
  obtain lines where l: "export_lines repr c = Inr lines"
    "\<forall>(k, n) \<in> set (request_count c).
        ''kernexys_http_requests_total'' @ request_labels k @ '' '' @ show_int (int n) \<in> set lines"
    using export_lines_total by blast
  have "(k, length (history request_of es k)) \<in> set (request_count c)"
    if "history request_of es k \<noteq> []" for k
  proof (rule map_of_SomeD)
    have "map_of (request_count c) k = map_option length (recorded (history request_of es k))"
      using c(2) unfolding tracked_def by blast
    then show "map_of (request_count c) k = Some (length (history request_of es k))"
      using that by (simp add: recorded_def)
  qed
  then show ?thesis using c l by (fastforce simp: to_prometheus_format_def)
qed

theorem collector_exact_witness:
  "\<exists>c lines. track_all [RequestEnded ''GET'' ''/'' Returned 1, RequestEnded ''GET'' ''/'' Returned 2]
      MetricsCollector = Inr c \<and> export_lines (\<lambda>_. ''1.0'') c = Inr lines \<and>
     ''kernexys_http_requests_total{method=\"GET\",path=\"/\",status=\"200\"} 2'' \<in> set lines"
proof -
  let ?es = "[RequestEnded ''GET'' ''/'' Returned 1, RequestEnded ''GET'' ''/'' Returned 2]"
  let ?k = "(''GET'', ''/'', ''200'')"
  have "history request_of ?es ?k = [1, 2]" by (simp add: history_def)
  moreover have "''kernexys_http_requests_total'' @ request_labels ?k @ '' '' @ show_int (int 2) =
      ''kernexys_http_requests_total{method=\"GET\",path=\"/\",status=\"200\"} 2''"
    by code_simp
  ultimately show ?thesis
    using collector_exact [of ?es "\<lambda>_. ''1.0''"]
    by (elim exE conjE allE [of _ ?k]) (auto simp del: append_Cons append.simps)
qed

text \<open>
  The exported summaries are order statistics. For a non-empty list of durations all three
  positions are in range; the values are ordered, each occurs in the list, and fewer than or exactly
  the position's number of durations are below it while more than that number are at most it.
\<close>

theorem percentiles_are_ranks:
  assumes "xs \<noteq> []"
  shows "\<exists>p50 p95 p99. percentiles xs = Inr (p50, p95, p99) \<and> p50 \<le> p95 \<and> p95 \<le> p99 \<and>
    (\<forall>(p, i) \<in> {(p50, length xs div 2), (p95, 95 * length xs div 100), (p99, 99 * length xs div 100)}.
       p \<in> set xs \<and> length (filter (\<lambda>x. x < p) xs) \<le> i \<and> i < length (filter (\<lambda>x. x \<le> p) xs))"
proof -
  let ?n = "length xs"
  have i: "?n div 2 < ?n" "95 * ?n div 100 < ?n" "99 * ?n div 100 < ?n"
    using assms by (auto simp: less_mult_imp_div_less)
  have "sort xs ! (?n div 2) \<le> sort xs ! (95 * ?n div 100)"
    "sort xs ! (95 * ?n div 100) \<le> sort xs ! (99 * ?n div 100)"
    using i by (auto intro!: sorted_nth_mono)
  moreover have "sort xs ! k \<in> set xs" if "k < ?n" for k
    using that by (metis length_sort nth_mem set_sort)
  ultimately show ?thesis
    using i sort_rank [OF i(1)] sort_rank [OF i(2)] sort_rank [OF i(3)]
    by (simp add: percentiles_eq [OF assms])
qed

theorem percentiles_are_ranks_witness:
  "percentiles [3, 1, 2] = Inr (2, 3, 3) \<and> length (filter (\<lambda>x. x < (2 :: rat)) [3, 1, 2]) \<le> 1"
proof -
  have "percentiles [3, 1, 2] = Inr (2, 3, 3)" by code_simp
  then show ?thesis using percentiles_are_ranks [of "[3, 1, 2]"] by simp
qed

end
