(* ===== verification/App.thy ===== *)
theory App
  imports Middleware Config Logs Metrics
begin

text \<open>
  The application factory of \<open>app/main.py\<close>: what \<open>create_app\<close> decides from the settings, the life
  cycle of the resources it owns, the access log it writes, and the metrics endpoint. The gateway
  and queue objects are type parameters; each creation and each closing may fail.
\<close>

section \<open>The factory\<close>

text \<open>
  The module-level loggers that importing the application creates, and the logging set-up at the
  start of \<open>create_app\<close>, which runs after the imports.
\<close>

definition import_app :: "logging_state \<Rightarrow> logging_state" where
  "import_app ls = fold get_logger [''kernexys.dependencies'', ''kernexys.http'', ''kernexys.readiness''] ls"

definition create_app_logging :: "settings \<Rightarrow> logging_state \<Rightarrow> logging_state" where
  "create_app_logging st ls =
     (let ls = configure_logging (log_level st) ls in
      if logging_format st = ''json'' then configure_structured_logging (log_level st) True ls else ls)"

definition metrics_route :: "(rat \<Rightarrow> string) \<Rightarrow> settings \<Rightarrow> collector \<Rightarrow> (py_error + string) option" where
  "metrics_route repr st metrics =
     (if metrics_enabled st then Some (to_prometheus_format repr metrics) else None)"

section \<open>The life cycle\<close>

record ('g, 'q) app_state =
  st_gateway :: "'g option"
  st_queue :: "'q option"

datatype ('g, 'q) life_event =
    GatewayCreated
  | QueueCreated
  | Serving "('g, 'q) app_state"
  | QueueClosed
  | GatewayClosed
  | EngineDisposed

datatype life_error =
    GatewayCreateFailed | QueueCreateFailed | ServerFailed | QueueCloseFailed | GatewayCloseFailed
  | DisposeFailed

text \<open>What happens to each call: the object a creation gives (or none), and whether the rest succeed.\<close>

record ('g, 'q) life_world =
  lw_gateway :: "'g option"
  lw_queue :: "'q option"
  lw_server_ok :: bool
  lw_queue_close_ok :: bool
  lw_gateway_close_ok :: bool
  lw_dispose_ok :: bool

text \<open>A \<open>finally\<close> block: it always runs, and what it raises replaces what was raised before.\<close>

definition and_finally ::
  "life_error option \<times> ('g, 'q) life_event list \<Rightarrow> life_error option \<times> ('g, 'q) life_event list
     \<Rightarrow> life_error option \<times> ('g, 'q) life_event list" where
  "and_finally a b = (case fst b of None \<Rightarrow> fst a | Some e \<Rightarrow> Some e, snd a @ snd b)"

definition failing :: "bool \<Rightarrow> life_error \<Rightarrow> life_error option" where
  "failing ok e = (if ok then None else Some e)"

text \<open>The body of the \<open>try\<close>: the exception, the two local variables at its end, and the events.\<close>

definition lifespan_body ::
  "settings \<Rightarrow> 'g option \<Rightarrow> 'q option \<Rightarrow> ('g, 'q) life_world
     \<Rightarrow> (life_error option \<times> ('g, 'q) life_event list) \<times> 'g option \<times> 'q option" where
  "lifespan_body st deployment_gateway async_queue w =
     (let create_gateway = Option.is_none deployment_gateway \<and> kubernetes_enabled st;
          create_queue = Option.is_none async_queue \<and> async_inference_enabled st in
      if create_gateway \<and> lw_gateway w = None
      then ((Some GatewayCreateFailed, []), deployment_gateway, async_queue)
      else
        (let gateway = (if create_gateway then lw_gateway w else deployment_gateway);
             events = (if create_gateway then [GatewayCreated] else []) in
         if create_queue \<and> lw_queue w = None
         then ((Some QueueCreateFailed, events), gateway, async_queue)
         else
           (let queue = (if create_queue then lw_queue w else async_queue);
                events = events @ (if create_queue then [QueueCreated] else []) @
                  [Serving \<lparr> st_gateway = gateway, st_queue = queue \<rparr>] in
            ((failing (lw_server_ok w) ServerFailed, events), gateway, queue))))"

definition lifespan ::
  "settings \<Rightarrow> bool \<Rightarrow> 'g option \<Rightarrow> 'q option \<Rightarrow> ('g, 'q) life_world
     \<Rightarrow> life_error option \<times> ('g, 'q) life_event list" where
  "lifespan st owns_engine deployment_gateway async_queue w =
     (let owns_gateway = Option.is_none deployment_gateway \<and> kubernetes_enabled st;
          owns_queue = Option.is_none async_queue \<and> async_inference_enabled st;
          (body, gateway, queue) = lifespan_body st deployment_gateway async_queue w;
          close_queue = (if owns_queue \<and> \<not> Option.is_none queue
             then (failing (lw_queue_close_ok w) QueueCloseFailed, [QueueClosed]) else (None, []));
          close_gateway = (if owns_gateway \<and> \<not> Option.is_none gateway
             then (failing (lw_gateway_close_ok w) GatewayCloseFailed, [GatewayClosed]) else (None, []));
          dispose = (if owns_engine
             then (failing (lw_dispose_ok w) DisposeFailed, [EngineDisposed]) else (None, [])) in
      and_finally body (and_finally (and_finally close_queue close_gateway) dispose))"

section \<open>The access log\<close>

text \<open>The call the request context makes when a request is complete, and the lines it writes.\<close>

definition access_record :: log_record where
  "access_record =
     \<lparr> lr_levelname = ''INFO'', lr_name = ''kernexys.http'', lr_message = ''request_complete'',
       lr_exception = None, lr_attributes = [] \<rparr>"

definition access_extra :: "json \<Rightarrow> access_log \<Rightarrow> (string \<times> json) list" where
  "access_extra duration_ms l =
     [(''method'', JStr (al_method l)), (''path'', JStr (al_path l)),
      (''status_code'', JInt (al_status_code l)), (''duration_ms'', duration_ms)]"

definition access_lines ::
  "(string \<Rightarrow> string) \<Rightarrow> (log_record \<Rightarrow> string) \<Rightarrow> settings \<Rightarrow> logging_state \<Rightarrow> string \<Rightarrow> string option \<Rightarrow> string
     \<Rightarrow> json \<Rightarrow> access_log \<Rightarrow> string list" where
  "access_lines fr plain st ls timestamp request_id correlation_id duration_ms l =
     log_lines fr plain timestamp request_id correlation_id ''kernexys.http''
       (access_extra duration_ms l) access_record (create_app_logging st (import_app ls))"

text \<open>A process in which nothing of the application has been imported yet.\<close>

definition fresh_logging :: "logging_state \<Rightarrow> bool" where
  "fresh_logging ls \<longleftrightarrow> \<not> context_aware_class ls \<and> map_of (named_loggers ls) ''kernexys.http'' = None"

lemma get_logger_other:
  "n \<noteq> name \<Longrightarrow> map_of (named_loggers (get_logger name ls)) n = map_of (named_loggers ls) n"
  by (simp add: get_logger_def update_conv' split: option.splits)

lemma get_logger_new:
  "map_of (named_loggers ls) name = None \<Longrightarrow> map_of (named_loggers (get_logger name ls)) name =
     Some \<lparr> nl_context_aware = context_aware_class ls, nl_handlers = [], nl_propagate = True \<rparr>"
  by (simp add: get_logger_def update_conv')

lemma get_logger_class [simp]: "context_aware_class (get_logger name ls) = context_aware_class ls"
  by (simp add: get_logger_def split: option.splits)

lemma http_logger_plain:
  assumes "fresh_logging ls"
  shows "map_of (named_loggers (create_app_logging st (import_app ls))) ''kernexys.http'' =
    Some \<lparr> nl_context_aware = False, nl_handlers = [], nl_propagate = True \<rparr>"
  using assms
  by (simp add: create_app_logging_def configure_structured_logging_def configure_logging_effect
      import_app_def fresh_logging_def get_logger_other get_logger_new Let_def)

lemma access_lines_eq:
  assumes "fresh_logging ls"
    and "log_level st \<in> set [''CRITICAL'', ''ERROR'', ''WARNING'', ''INFO'', ''DEBUG'']"
  shows "access_lines fr plain st ls ts rid cid d l =
    (let r = access_record\<lparr> lr_attributes := access_extra d l \<rparr> in
     if log_level st \<notin> {''INFO'', ''DEBUG''} then []
     else if logging_format st = ''json'' then [StructuredFormatter_format fr ts cid r]
     else [JsonFormatter_format fr ts rid r])"
proof -
  have u: "py_upper ''CRITICAL'' = ''CRITICAL''" "py_upper ''ERROR'' = ''ERROR''" "py_upper ''WARNING'' = ''WARNING''"
    "py_upper ''INFO'' = ''INFO''" "py_upper ''DEBUG'' = ''DEBUG''" by code_simp+
  have "root_level (create_app_logging st (import_app ls)) = log_level st"
    using assms(2) u
    by (auto simp: create_app_logging_def configure_structured_logging_def configure_logging_level Let_def)
  then have lv: "level_number ''INFO'' < level_number (root_level (create_app_logging st (import_app ls))) \<longleftrightarrow>
      log_level st \<notin> {''INFO'', ''DEBUG''}"
    using assms(2) by (auto simp: level_number_def)
  have "dict_update [] (access_extra d l) = access_extra d l" by (simp add: access_extra_def)
  moreover have "lr_attributes access_record = []" by (simp add: access_record_def)
  moreover have "root_handlers (create_app_logging st (import_app ls)) =
      [if logging_format st = ''json'' then StructuredFormatter else JsonFormatter]"
    by (simp add: create_app_logging_def configure_structured_logging_def configure_logging_effect Let_def)
  moreover have "lr_levelname access_record = ''INFO''" by (simp add: access_record_def)
  ultimately show ?thesis
    using lv by (simp add: access_lines_def log_lines_def http_logger_plain [OF assms(1)] logged_record_def
        format_record_def Let_def)
qed

section \<open>Properties\<close>

fun closes :: "('g, 'q) life_event \<Rightarrow> bool" where
  "closes QueueClosed = True"
| "closes GatewayClosed = True"
| "closes EngineDisposed = True"
| "closes _ = False"

lemma body_events:
  "filter closes (snd (fst (lifespan_body st g q w))) = [] \<and>
   (GatewayCreated \<in> set (snd (fst (lifespan_body st g q w))) \<longrightarrow> g = None \<and> kubernetes_enabled st) \<and>
   (QueueCreated \<in> set (snd (fst (lifespan_body st g q w))) \<longrightarrow> q = None \<and> async_inference_enabled st) \<and>
   (\<forall>s. Serving s \<in> set (snd (fst (lifespan_body st g q w))) \<longrightarrow>
      (st_gateway s = None \<longleftrightarrow> g = None \<and> \<not> kubernetes_enabled st) \<and>
      (st_queue s = None \<longleftrightarrow> q = None \<and> \<not> async_inference_enabled st)) \<and>
   (fst (fst (lifespan_body st g q w)) = None \<longrightarrow>
      (\<exists>s. Serving s \<in> set (snd (fst (lifespan_body st g q w)))))"
  by (auto simp: lifespan_body_def Let_def Option.is_none_def)

lemma lifespan_closing:
  "snd (lifespan st owns_engine g q w) = snd (fst (lifespan_body st g q w)) @
     (if QueueCreated \<in> set (snd (fst (lifespan_body st g q w))) then [QueueClosed] else []) @
     (if GatewayCreated \<in> set (snd (fst (lifespan_body st g q w))) then [GatewayClosed] else []) @
     (if owns_engine then [EngineDisposed] else [])"
  by (auto simp: lifespan_def lifespan_body_def and_finally_def Let_def Option.is_none_def)

lemma lifespan_clean:
  "fst (lifespan st owns_engine g q w) = None \<Longrightarrow> fst (fst (lifespan_body st g q w)) = None"
  by (auto simp: lifespan_def and_finally_def case_prod_beta Let_def split: option.splits)

text \<open>
  (C36) The application releases what it owns, once and in order, whatever fails. In every run of the
  life cycle the closing calls come after everything else and are exactly: the queue if this run
  created it, then the gateway if this run created it, then the database engine if the factory
  created it; objects handed in are never closed. While requests are served the routes find a gateway
  (a queue) exactly when one was handed in or the feature is enabled, and a life cycle that ends
  without an exception has served.
\<close>

theorem lifespan_releases:
  fixes g :: "'g option" and q :: "'q option"
  shows "\<exists>opens closing. snd (lifespan st owns_engine g q w) = opens @ closing \<and>
    filter closes opens = [] \<and>
    closing = (if QueueCreated \<in> set opens then [QueueClosed] else []) @
      (if GatewayCreated \<in> set opens then [GatewayClosed] else []) @
      (if owns_engine then [EngineDisposed] else []) \<and>
    (GatewayCreated \<in> set opens \<longrightarrow> g = None \<and> kubernetes_enabled st) \<and>
    (QueueCreated \<in> set opens \<longrightarrow> q = None \<and> async_inference_enabled st) \<and>
    (\<forall>s. Serving s \<in> set opens \<longrightarrow>
      (st_gateway s = None \<longleftrightarrow> g = None \<and> \<not> kubernetes_enabled st) \<and>
      (st_queue s = None \<longleftrightarrow> q = None \<and> \<not> async_inference_enabled st)) \<and>
    (fst (lifespan st owns_engine g q w) = None \<longrightarrow> (\<exists>s. Serving s \<in> set opens))"
proof -
  let ?opens = "snd (fst (lifespan_body st g q w))"
  note b = body_events [of st g q w] and clean = lifespan_clean [of st owns_engine g q w]
  show ?thesis
    by (intro exI [of _ ?opens] exI conjI, rule lifespan_closing)
      (use b clean in \<open>simp_all only: simp_thms, blast+\<close>)
qed

definition failing_world :: "(nat, nat) life_world" where
  "failing_world =
     \<lparr> lw_gateway = Some 1, lw_queue = None, lw_server_ok = True, lw_queue_close_ok = True,
       lw_gateway_close_ok = False, lw_dispose_ok = True \<rparr>"

definition full_settings :: settings where
  "full_settings = default_settings\<lparr> kubernetes_enabled := True, async_inference_enabled := True \<rparr>"

theorem lifespan_releases_witness:
  "snd (lifespan full_settings True None None failing_world) =
     [GatewayCreated, GatewayClosed, EngineDisposed] \<and>
   (\<exists>opens closing. [GatewayCreated, GatewayClosed, EngineDisposed :: (nat, nat) life_event] =
      opens @ closing \<and> filter closes opens = [] \<and>
      (GatewayCreated \<in> set opens \<longrightarrow> GatewayClosed \<in> set closing))"
proof -
  have e: "snd (lifespan full_settings True None None failing_world) =
     [GatewayCreated, GatewayClosed, EngineDisposed]" by code_simp
  show ?thesis
    using lifespan_releases [of full_settings True None None failing_world] unfolding e by force
qed

section \<open>The default log\<close>

lemma from_env_logging_format:
  assumes "from_env env = Inr st"
  shows "logging_format st = py_lower (getenv env ''KERNEXYS_LOGGING_FORMAT'' ''json'')"
  using assms unfolding from_env_def Let_def
  by (elim guard_InrE bind_InrE; simp only: post_init_Inr_iff settings.simps)

lemma json_lower: "py_lower ''json'' = ''json''"
  by code_simp

text \<open>
  (C40) With the default format the access log tells requests apart by nothing. Unless the logging
  format is set, what a completed request writes depends neither on its method, path, status or
  duration nor on the request id: the extra attributes are not under \<open>extra_fields\<close>, which is all
  that the structured formatter reads, because the logger was made before the context-aware class was
  installed, and the correlation id is the context's. It is one line when the log level is INFO or
  DEBUG and nothing when it is higher, under any format; under a format other than \<open>json\<close> the line is
  an object with the request id, method, path and status.
\<close>

theorem default_access_log_anonymous:
  assumes "fresh_logging ls" and "from_env env = Inr st" and "jwf fr d"
  shows "(env ''KERNEXYS_LOGGING_FORMAT'' = None \<longrightarrow>
      access_lines fr plain st ls ts rid cid d l = access_lines fr plain st ls ts rid' cid d' l') \<and>
    length (access_lines fr plain st ls ts rid cid d l) = (if log_level st \<in> {''INFO'', ''DEBUG''} then 1 else 0) \<and>
    (logging_format st \<noteq> ''json'' \<and> rid = Some (c # r) \<longrightarrow>
      (\<forall>line \<in> set (access_lines fr plain st ls ts rid cid d l).
        \<exists>kvs. json_loads line = Some (JDict kvs) \<and>
          map_of kvs ''request_id'' = Some (JStr (c # r)) \<and>
          map_of kvs ''method'' = Some (JStr (al_method l)) \<and>
          map_of kvs ''path'' = Some (JStr (al_path l)) \<and>
          map_of kvs ''status_code'' = Some (JInt (al_status_code l))))"
proof (intro conjI impI)
  have lv: "log_level st \<in> set [''CRITICAL'', ''ERROR'', ''WARNING'', ''INFO'', ''DEBUG'']"
    using from_env_ok [OF assms(2)] by (simp add: settings_ok_def)
  note eq = access_lines_eq [OF assms(1) lv, unfolded Let_def]
  show "length (access_lines fr plain st ls ts rid cid d l) = (if log_level st \<in> {''INFO'', ''DEBUG''} then 1 else 0)"
    by (simp add: eq)
  show "access_lines fr plain st ls ts rid cid d l = access_lines fr plain st ls ts rid' cid d' l'"
    if "env ''KERNEXYS_LOGGING_FORMAT'' = None"
  proof -
    have "logging_format st = ''json''"
      using from_env_logging_format [OF assms(2)] that by (simp add: getenv_def json_lower)
    then show ?thesis
      by (simp add: eq StructuredFormatter_format_def structured_payload_def access_record_def access_extra_def)
  qed
  assume a: "logging_format st \<noteq> ''json'' \<and> rid = Some (c # r)"
  let ?rec = "access_record\<lparr> lr_attributes := access_extra d l \<rparr>"
  have "wf_items fr (lr_attributes ?rec)" and u: "distinct (map fst (lr_attributes ?rec))"
    using assms(3) by (simp_all add: access_extra_def)
  then have "json_loads (JsonFormatter_format fr ts rid ?rec) = Some (JDict (json_payload ts rid ?rec))"
    by (intro json_line_loads)
  moreover have "map_of (json_payload ts rid ?rec) ''request_id'' = Some (JStr (c # r))"
    "map_of (json_payload ts rid ?rec) ''method'' = Some (JStr (al_method l))"
    "map_of (json_payload ts rid ?rec) ''path'' = Some (JStr (al_path l))"
    "map_of (json_payload ts rid ?rec) ''status_code'' = Some (JInt (al_status_code l))"
    by (subst json_payload_lookup [OF u],
        simp add: a access_record_def access_extra_def is_extra_def standard_fields_def)+
  ultimately show "\<forall>line \<in> set (access_lines fr plain st ls ts rid cid d l).
        \<exists>kvs. json_loads line = Some (JDict kvs) \<and>
          map_of kvs ''request_id'' = Some (JStr (c # r)) \<and>
          map_of kvs ''method'' = Some (JStr (al_method l)) \<and>
          map_of kvs ''path'' = Some (JStr (al_path l)) \<and>
          map_of kvs ''status_code'' = Some (JInt (al_status_code l))"
    using a by (simp add: eq)
qed

definition empty_logging :: logging_state where
  "empty_logging = \<lparr> root_handlers = [], root_level = ''WARNING'', context_aware_class = False,
     named_loggers = [] \<rparr>"

theorem default_access_log_anonymous_witness:
  "access_lines id (\<lambda>_. []) default_settings empty_logging ''t'' (Some ''a'') ''c'' JNull
      \<lparr> al_method = ''GET'', al_path = ''/'', al_status_code = 200 \<rparr> =
   access_lines id (\<lambda>_. []) default_settings empty_logging ''t'' (Some ''b'') ''c'' JNull
      \<lparr> al_method = ''PUT'', al_path = ''/x'', al_status_code = 500 \<rparr>"
proof -
  have f: "fresh_logging empty_logging" by (simp add: fresh_logging_def empty_logging_def)
  have e: "from_env (\<lambda>_. None) = Inr default_settings" by code_simp
  have "jwf id JNull" by simp
  from default_access_log_anonymous [OF f e this] show ?thesis by blast
qed

end
