(* ===== verification/Control_Api.thy ===== *)
theory Control_Api
  imports Routing App Async_Properties
begin

text \<open>
  The control API as one function: a request passes the request context and the body limit, is routed
  to an endpoint, decoded, handled over the database, the cluster and the queue, and answered; every
  exception of a handler is serialised by the installed handlers or leaves the application. The
  endpoints are the functions of \<open>Registry\<close>, \<open>Deployments\<close> and \<open>Async_Routes\<close>.
\<close>

section \<open>What responses say\<close>

text \<open>The serialisation of the response models; \<open>ts\<close> gives the text of a time of the database.\<close>

fun opt_json :: "('a \<Rightarrow> json) \<Rightarrow> 'a option \<Rightarrow> json" where
  "opt_json f None = JNull"
| "opt_json f (Some x) = f x"

definition model_json :: "(rat \<Rightarrow> string) \<Rightarrow> model_read \<Rightarrow> json" where
  "model_json ts m =
     JDict [(''name'', JStr (mr_name m)), (''description'', opt_json JStr (mr_description m)),
            (''created_at'', JStr (ts (mr_created_at m))), (''updated_at'', JStr (ts (mr_updated_at m)))]"

definition version_json :: "(rat \<Rightarrow> string) \<Rightarrow> version_read \<Rightarrow> json" where
  "version_json ts v =
     JDict [(''model_name'', JStr (vr_model_name v)), (''version'', JStr (vr_version v)),
            (''runtime_image'', JStr (vr_runtime_image v)),
            (''artifact_digest'', opt_json JStr (vr_artifact_digest v)),
            (''metadata'', JDict (vr_metadata v)), (''created_at'', JStr (ts (vr_created_at v)))]"

definition page_json :: "('a \<Rightarrow> json) \<Rightarrow> 'a page \<Rightarrow> json" where
  "page_json f p =
     JDict [(''items'', JList (map f (pg_items p))), (''limit'', JInt (pg_limit p)),
            (''offset'', JInt (pg_offset p))]"

definition condition_json :: "deployment_condition \<Rightarrow> json" where
  "condition_json c =
     JDict [(''type'', JStr (co_type c)), (''status'', JStr (co_status c)),
            (''observedGeneration'', JInt (co_observed_generation c)), (''reason'', JStr (co_reason c)),
            (''message'', JStr (co_message c)),
            (''lastTransitionTime'', opt_json JStr (co_last_transition_time c))]"

definition status_json :: "deployment_status \<Rightarrow> json" where
  "status_json s =
     JDict [(''observedGeneration'', JInt (ds_observed_generation s)),
            (''desiredReplicas'', JInt (ds_desired_replicas s)),
            (''readyReplicas'', JInt (ds_ready_replicas s)), (''activeModel'', JStr (ds_active_model s)),
            (''activeVersion'', JStr (ds_active_version s)), (''endpoint'', JStr (ds_endpoint s)),
            (''conditions'', JList (map condition_json (ds_conditions s)))]"

definition spec_json :: "deployment_spec_read \<Rightarrow> json" where
  "spec_json s =
     JDict [(''model'', JStr (sr_model s)), (''version'', JStr (sr_version s)),
            (''runtime_image'', JStr (sr_runtime_image s)), (''replicas'', JInt (sr_replicas s)),
            (''port'', JInt (sr_port s)), (''resources'', dump_resources (sr_resources s))]"

definition deployment_json :: "deployment_read \<Rightarrow> json" where
  "deployment_json d =
     JDict [(''name'', JStr (rd_name d)), (''namespace'', JStr (rd_namespace d)),
            (''generation'', JInt (rd_generation d)), (''resource_version'', JStr (rd_resource_version d)),
            (''created_at'', opt_json JStr (rd_created_at d)), (''spec'', spec_json (rd_spec d)),
            (''status'', status_json (rd_status d))]"

definition job_json :: "async_inference_job \<Rightarrow> json" where
  "job_json j =
     JDict [(''job_id'', JStr (aj_job_id j)), (''status'', JStr (aj_status j)),
            (''result'', opt_json JDict (aj_result j)), (''error'', opt_json JStr (aj_error j))]"

section \<open>The application\<close>

text \<open>
  What the running application holds: its settings, the framework with the routes it adds, the
  libraries that are parameters, the collector, and the database, gateway and queue of its state.
\<close>

record ('s, 'k, 'r) api =
  ax_settings :: settings
  ax_framework :: "endpoint framework"
  ax_docs :: "endpoint route list"
  ax_pydantic :: pydantic
  ax_feq :: "json \<Rightarrow> json \<Rightarrow> bool"
  ax_float :: "string \<Rightarrow> string"
  ax_time :: "rat \<Rightarrow> string"
  ax_repr :: "rat \<Rightarrow> string"
  ax_str :: "json \<Rightarrow> string"
  ax_render :: "violation \<Rightarrow> dict"
  ax_sha256 :: "string \<Rightarrow> string"
  ax_metrics :: collector
  ax_db :: "'s sql"
  ax_gateway :: "'k k8s option"
  ax_queue :: "'r queue_handle option"

text \<open>
  What happens around one request: the awaits on the database and the cluster, the round trip to
  Redis, how the readiness checks end, the answer of the runtime, and the two UUIDs.
\<close>

record ('s, 'k) surroundings =
  su_db :: "'s awaits"
  su_cluster :: "nat \<Rightarrow> 'k step"
  su_redis :: link
  su_checks :: "(exc + unit) \<times> (exc + unit) \<times> (exc + unit)"
  su_post :: "string \<Rightarrow> json \<Rightarrow> http_outcome"
  su_job_uuid :: string
  su_request_uuid :: string

text \<open>An endpoint's value as status and body, and the parts of the state it works on.\<close>

definition answer :: "('a \<Rightarrow> int \<times> reply_body) \<Rightarrow> (exc + 'a) \<times> 'w \<Rightarrow> (exc + int \<times> reply_body) \<times> 'w" where
  "answer f r = (case fst r of Inl e \<Rightarrow> Inl e | Inr x \<Rightarrow> Inr (f x), snd r)"

definition json_ok :: "('a \<Rightarrow> json) \<Rightarrow> 'a \<Rightarrow> int \<times> reply_body" where
  "json_ok f x = (200, JsonBody (f x))"

definition json_with :: "('a \<Rightarrow> json) \<Rightarrow> int \<times> 'a \<Rightarrow> int \<times> reply_body" where
  "json_with f p = (fst p, JsonBody (f (snd p)))"

definition db_part :: "'a \<times> 's \<Rightarrow> 'k \<times> 'r \<Rightarrow> 'a \<times> 's \<times> 'k \<times> 'r" where
  "db_part p w = (fst p, snd p, w)"

definition cluster_part :: "'s \<Rightarrow> 'a \<times> 'k \<Rightarrow> 'r \<Rightarrow> 'a \<times> 's \<times> 'k \<times> 'r" where
  "cluster_part s p r = (fst p, s, snd p, r)"

definition both_part :: "'a \<times> 's \<times> 'k \<Rightarrow> 'r \<Rightarrow> 'a \<times> 's \<times> 'k \<times> 'r" where
  "both_part p r = (fst p, fst (snd p), snd (snd p), r)"

definition arg :: "(string \<times> string) list \<Rightarrow> string \<Rightarrow> string" where
  "arg ps name = (case map_of ps name of Some v \<Rightarrow> v | None \<Rightarrow> [])"

definition metrics_answer :: "(py_error + string) option \<Rightarrow> exc + int \<times> reply_body" where
  "metrics_answer m =
     (case m of
        None \<Rightarrow> Inl (HttpExc 404 (JStr ''Not Found''))
      | Some (Inl e) \<Rightarrow> Inl (PyExc e)
      | Some (Inr text) \<Rightarrow> Inr (200, TextBody text))"

definition endpoint_call ::
  "('s, 'k, 'r) api \<Rightarrow> ('s, 'k) surroundings \<Rightarrow> endpoint \<Rightarrow> (string \<times> string) list \<Rightarrow> (string \<Rightarrow> string option)
     \<Rightarrow> string option \<Rightarrow> json \<Rightarrow> 's \<times> 'k \<times> 'r \<Rightarrow> (exc + int \<times> reply_body) \<times> 's \<times> 'k \<times> 'r" where
  "endpoint_call A N e ps query key body w =
     (case w of (s, k, r) \<Rightarrow>
      case e of
        Live \<Rightarrow> (Inr (200, JsonBody live), w)
      | Ready \<Rightarrow>
          answer (json_ok id)
            (ready (ax_settings A) (fst (su_checks N)) (map_option (\<lambda>_. fst (snd (su_checks N))) (ax_gateway A))
               (map_option (\<lambda>_. snd (snd (su_checks N))) (ax_queue A)), w)
      | PutModel \<Rightarrow>
          db_part (answer (json_with (model_json (ax_time A)))
            (put_model_route (ax_db A) (su_db N) (arg ps ''model_name'') body s)) (k, r)
      | ListModels \<Rightarrow>
          db_part (answer (json_ok (page_json (model_json (ax_time A))))
            (list_models_route (ax_pydantic A) (ax_db A) (su_db N) (query ''limit'') (query ''offset'') s)) (k, r)
      | GetModel \<Rightarrow>
          db_part (answer (json_ok (model_json (ax_time A)))
            (get_model_route (ax_db A) (su_db N) (arg ps ''model_name'') s)) (k, r)
      | PutVersion \<Rightarrow>
          db_part (answer (json_with (version_json (ax_time A)))
            (put_version_route (ax_feq A) (ax_db A) (su_db N) (arg ps ''model_name'') (arg ps ''version'') body s))
            (k, r)
      | ListVersions \<Rightarrow>
          db_part (answer (json_ok (page_json (version_json (ax_time A))))
            (list_versions_route (ax_pydantic A) (ax_db A) (su_db N) (arg ps ''model_name'') (query ''limit'')
               (query ''offset'') s)) (k, r)
      | GetVersion \<Rightarrow>
          db_part (answer (json_ok (version_json (ax_time A)))
            (get_version_route (ax_db A) (su_db N) (arg ps ''model_name'') (arg ps ''version'') s)) (k, r)
      | PutDeployment \<Rightarrow>
          both_part (answer (json_ok deployment_json)
            (put_deployment (ax_pydantic A) (ax_db A) (ax_gateway A) (su_db N 0) (su_cluster N)
               (arg ps ''namespace'') (arg ps ''name'') body (s, k))) r
      | GetDeployment \<Rightarrow>
          cluster_part s (answer (json_ok deployment_json)
            (get_deployment (ax_pydantic A) (ax_gateway A) (su_cluster N 0) (arg ps ''namespace'')
               (arg ps ''name'') k)) r
      | DeleteDeployment \<Rightarrow>
          cluster_part s (answer (\<lambda>status. (status, NoBody))
            (delete_deployment (ax_gateway A) (su_cluster N 0) (arg ps ''namespace'') (arg ps ''name'') k)) r
      | RollbackDeployment \<Rightarrow>
          both_part (answer (json_ok deployment_json)
            (rollback_deployment (ax_pydantic A) (ax_db A) (ax_gateway A) (su_db N 0) (su_cluster N 0)
               (\<lambda>i. su_cluster N (Suc i)) (arg ps ''namespace'') (arg ps ''name'') body (s, k))) r
      | Infer \<Rightarrow>
          cluster_part s (answer (json_ok JDict)
            (infer (ax_gateway A) (su_cluster N 0) (su_post N) (arg ps ''namespace'') (arg ps ''name'') body k)) r
      | EnqueueJob \<Rightarrow>
          map_prod id (Pair s) (answer (json_with job_json)
            (enqueue_job (ax_float A) (ax_sha256 A) (ax_gateway A) (ax_queue A) (su_cluster N 0) (su_redis N)
               (su_job_uuid N) (arg ps ''namespace'') (arg ps ''name'') body key (k, r)))
      | GetJob \<Rightarrow>
          map_prod id (\<lambda>r. (s, k, r)) (answer (json_ok job_json)
            (get_job (ax_queue A) (su_redis N) (arg ps ''job_id'') r))
      | Dashboard \<Rightarrow> (Inr (200, FileBody ''static/index.html''), w)
      | GetMetrics \<Rightarrow> (metrics_answer (metrics_route (ax_repr A) (ax_settings A) (ax_metrics A)), w)
      | Documentation \<Rightarrow> (Inr (200, TextBody []), w))"

text \<open>The endpoints with a request body; the framework decodes it before the handler runs.\<close>

definition has_body :: "endpoint \<Rightarrow> bool" where
  "has_body e \<longleftrightarrow> e \<in> {PutModel, PutVersion, PutDeployment, RollbackDeployment, Infer, EnqueueJob}"

definition plain_reply :: "int \<Rightarrow> reply_body \<Rightarrow> reply" where
  "plain_reply status b = \<lparr> rp_status = status, rp_headers = [], rp_body = b \<rparr>"

text \<open>An exception becomes a response by the installed handlers; any other leaves the application.\<close>

definition respond :: "('s, 'k, 'r) api \<Rightarrow> string option \<Rightarrow> exc + int \<times> reply_body \<Rightarrow> exc + reply" where
  "respond A rid result =
     (case result of
        Inr (status, b) \<Rightarrow> Inr (plain_reply status b)
      | Inl e \<Rightarrow>
          (case handle_exception (ax_str A) (ax_render A) rid e of
             Inr (status, b) \<Rightarrow> Inr (plain_reply status (JsonBody b))
           | Inl p \<Rightarrow> Inl (PyExc p)))"

definition control_app ::
  "('s, 'k, 'r) api \<Rightarrow> ('s, 'k) surroundings \<Rightarrow> string \<Rightarrow> string \<Rightarrow> (string \<Rightarrow> string option) \<Rightarrow> scope
     \<Rightarrow> ('s \<times> 'k \<times> 'r) application" where
  "control_app A N verb path query sc messages rid w =
     (case fw_select (ax_framework A) (app_routes (ax_docs A) (ax_settings A)) verb path of
        Unrouted status b \<Rightarrow> (Inr (plain_reply status (JsonBody b)), w)
      | Matched e ps \<Rightarrow>
          (case (if has_body e
                 then fw_body (ax_framework A) (sc_headers sc) (concat (map body_bytes messages))
                 else Inr JNull) of
             Inl vs \<Rightarrow> (respond A rid (Inl (ValidationExc vs)), w)
           | Inr body \<Rightarrow>
               (let (result, w') = endpoint_call A N e ps query (header sc ''idempotency-key'') body w in
                (respond A rid result, w'))))"

definition control_api ::
  "('s, 'k, 'r) api \<Rightarrow> ('s, 'k) surroundings \<Rightarrow> scope \<Rightarrow> string \<Rightarrow> string \<Rightarrow> (string \<Rightarrow> string option)
     \<Rightarrow> asgi_message list \<Rightarrow> 's \<times> 'k \<times> 'r
     \<Rightarrow> ((exc + reply) \<times> access_log option \<times> string option \<times> 's \<times> 'k \<times> 'r) option" where
  "control_api A N sc verb path query incoming w =
     serve (max_request_bytes (ax_settings A)) (control_app A N verb path query sc) sc (su_request_uuid N)
       verb (fw_url_path (ax_framework A) (sc_headers sc) path) incoming (None, w)"

section \<open>Statuses\<close>

lemma answer_Inr_iff: "answer f r = (Inr y, w) \<longleftrightarrow> (\<exists>x. r = (Inr x, w) \<and> y = f x)"
  by (cases r) (auto simp: answer_def split: sum.splits)

lemma written_status:
  "put_model_route D aw n body s = (Inr (status, m), s') \<Longrightarrow> status \<in> {200, 201}"
  "put_version_route feq D aw n v body s = (Inr (status, r), s') \<Longrightarrow> status \<in> {200, 201}"
  "delete_deployment g a ns n k = (Inr status, k') \<Longrightarrow> status = 204"
  by (auto simp: put_model_route_def put_version_route_def delete_deployment_def and_then_Inr_iff
      split: if_splits prod.splits)

lemma enqueue_answer_status: "enqueue_answer i r = Inr (status, j) \<Longrightarrow> status \<in> {200, 202}"
  by (auto simp: enqueue_answer_def split: if_splits)

lemma queue_case_Inr:
  "(case m of (Inl _, r) \<Rightarrow> (Inl e, k, r) | (Inr x, r) \<Rightarrow> (f x, k, r)) = (Inr y, w') \<Longrightarrow> \<exists>x. f x = Inr y"
  by (auto split: prod.splits sum.splits)

lemma enqueued_status:
  assumes "enqueue_job fr sha g q a l uuid ns n body key w = (Inr (status, j), w')"
  shows "status \<in> {200, 202}"
proof -
  obtain i x where "enqueue_answer i x = Inr (status, j)"
    using assms unfolding enqueue_job_def
    by (cases w) (auto simp: and_then_Inr_iff Let_def dest!: queue_case_Inr)
  then show ?thesis by (rule enqueue_answer_status)
qed

lemma part_iffs:
  "db_part p v = (x, w) \<longleftrightarrow> (\<exists>s. p = (x, s) \<and> w = (s, v))"
  "cluster_part s q r = (x, w) \<longleftrightarrow> (\<exists>k. q = (x, k) \<and> w = (s, k, r))"
  "both_part b r = (x, w) \<longleftrightarrow> (\<exists>s k. b = (x, s, k) \<and> w = (s, k, r))"
  "map_prod id f c = (x, w) \<longleftrightarrow> (\<exists>v. c = (x, v) \<and> w = f v)"
  by (cases p; cases q; cases b; cases c; auto simp: db_part_def cluster_part_def both_part_def)+

lemma success_status:
  assumes "endpoint_call A N e ps query key body (s, k, r) = (Inr (status, b), w')"
  shows "status < 400"
  using assms
  by (cases e)
    (auto simp: endpoint_call_def part_iffs answer_Inr_iff json_ok_def json_with_def metrics_answer_def
      dest!: written_status enqueued_status split: option.splits sum.splits)

section \<open>Errors\<close>

text \<open>The body of an error: the object \<open>ErrorResponse\<close> of \<open>app/schemas.py\<close>.\<close>

definition envelope :: "string \<Rightarrow> reply_body \<Rightarrow> bool" where
  "envelope rid b \<longleftrightarrow> (\<exists>code message details. b = JsonBody (JDict [(''error'', JDict
     [(''code'', JStr code), (''message'', JStr message), (''request_id'', JStr rid), (''details'', details)])]))"

lemma handled_envelope:
  "handle_exception str render (Some rid) e = Inr (status, b) \<Longrightarrow> envelope rid (JsonBody b)"
  by (cases e) (auto simp: handle_exception_def handle_api_error_def handle_validation_error_def
      handle_http_error_def handle_database_error_def error_response_def envelope_def Let_def split: if_splits)

lemma rejected_envelope: "envelope rid (JsonBody (snd (reject_response n (Some rid))))"
  by (simp add: envelope_def reject_response_def)

text \<open>A routed request: an answer below 400, an envelope, or an exception nobody handles.\<close>

definition orderly :: "string \<Rightarrow> exc + reply \<Rightarrow> bool" where
  "orderly rid res \<longleftrightarrow>
     (case res of
        Inr rep \<Rightarrow> rp_headers rep = [] \<and> (rp_status rep < 400 \<or> envelope rid (rp_body rep))
      | Inl err \<Rightarrow> \<exists>p. err = PyExc p)"

lemma respond_orderly:
  assumes "\<And>status b. result = Inr (status, b) \<Longrightarrow> status < 400"
  shows "orderly rid (respond A (Some rid) result)"
  using assms handled_envelope [of "ax_str A" "ax_render A" rid]
  by (fastforce simp: orderly_def respond_def plain_reply_def split: sum.split option.split)

lemma routed_orderly:
  assumes "fw_select (ax_framework A) (app_routes (ax_docs A) (ax_settings A)) verb path = Matched e ps"
    and "control_app A N verb path query sc ms (Some rid) (s, k, r) = (res, w')"
  shows "orderly rid res"
proof -
  obtain result where "res = respond A (Some rid) result"
    "\<And>status b. result = Inr (status, b) \<Longrightarrow> status < 400"
  proof (cases "if has_body e
      then fw_body (ax_framework A) (sc_headers sc) (concat (map body_bytes ms)) else Inr JNull")
    case (Inl vs)
    then show ?thesis using assms(2) that [of "Inl (ValidationExc vs)"]
      unfolding control_app_def assms(1) by simp
  next
    case (Inr body)
    obtain result v where c: "endpoint_call A N e ps query (header sc ''idempotency-key'') body (s, k, r) =
        (result, v)" by (meson surj_pair)
    then have "status < 400" if "result = Inr (status, b)" for status b
      using that by (auto intro: success_status)
    then show ?thesis using assms(2) that [of result] Inr c unfolding control_app_def assms(1) by simp
  qed
  then show ?thesis using respond_orderly [of result rid A] by blast
qed

text \<open>
  A request that is answered was rejected for its size or has passed through the application; if the
  URL cannot be read for the access log, that exception takes the place of the answer.
\<close>

definition unread :: "exc + reply \<Rightarrow> bool" where
  "unread res \<longleftrightarrow> (\<exists>p. res = Inl (PyExc p))"

lemma control_api_eq:
  fixes A N sc
  defines "rid \<equiv> choose_request_id (header sc ''x-request-id'') (su_request_uuid N)"
  shows "control_api A N sc verb path query incoming w =
    (case limited (max_request_bytes (ax_settings A)) sc incoming (control_app A N verb path query sc) (Some rid) w of
       (None, w') \<Rightarrow> None
     | (Some res, w') \<Rightarrow>
         (case fw_url_path (ax_framework A) (sc_headers sc) path of
            Inl p \<Rightarrow> Some (Inl (PyExc p), None, Some rid, w')
          | Inr q \<Rightarrow> Some (map_sum id (with_id rid) res,
              Some \<lparr> al_method = verb, al_path = q,
                     al_status_code = (case res of Inl _ \<Rightarrow> 500 | Inr rep \<Rightarrow> rp_status rep) \<rparr>, None, w')))"
  unfolding control_api_def serve_def dispatch_def Let_def rid_def
  by (auto simp: with_id_def map_sum_def split: prod.split option.split sum.split)

lemma control_api_cases:
  assumes "control_api A N sc verb path query incoming w = Some (res, entry, ctx, w')"
  defines "rid \<equiv> choose_request_id (header sc ''x-request-id'') (su_request_uuid N)"
  obtains (rejected) b rep where "body_limit (max_request_bytes (ax_settings A)) sc incoming = Reject b"
      "w' = w" "unread res \<or> res = Inr (with_id rid rep)" "rp_status rep = 413" "envelope rid (rp_body rep)"
  | (passed) ms res' where "control_app A N verb path query sc ms (Some rid) w = (res', w')"
      "\<And>b. body_limit (max_request_bytes (ax_settings A)) sc incoming \<noteq> Reject b"
      "unread res \<or> res = map_sum id (with_id rid) res'"
proof -
  obtain res' where l: "limited (max_request_bytes (ax_settings A)) sc incoming
      (control_app A N verb path query sc) (Some rid) w = (Some res', w')"
    and res: "unread res \<or> res = map_sum id (with_id rid) res'"
    using assms(1) unfolding control_api_eq rid_def [symmetric]
    by (auto simp: unread_def split: prod.splits option.splits sum.splits)
  show ?thesis
  proof (cases "body_limit (max_request_bytes (ax_settings A)) sc incoming")
    case (Reject b)
    let ?rej = "reject_response (max_request_bytes (ax_settings A)) (Some rid)"
    have "res' = Inr (plain_reply (fst ?rej) (JsonBody (snd ?rej)))" "w' = w"
      using l Reject by (simp_all add: limited_def plain_reply_def)
    moreover have "fst ?rej = 413" by (simp add: reject_response_def)
    ultimately show ?thesis
      using rejected [OF Reject, of "plain_reply (fst ?rej) (JsonBody (snd ?rej))"] res rejected_envelope [of rid]
      by (simp add: plain_reply_def)
  next
    case Untouched
    then have "control_app A N verb path query sc incoming (Some rid) w = (res', w')"
      using l by (cases "control_app A N verb path query sc incoming (Some rid) w") (simp add: limited_def)
    then show ?thesis using passed [OF _ _ res] Untouched by simp
  next
    case (Forward b rest)
    then have "control_app A N verb path query sc (b @ rest) (Some rid) w = (res', w')"
      using l by (cases "control_app A N verb path query sc (b @ rest) (Some rid) w") (simp add: limited_def)
    then show ?thesis using passed [OF _ _ res] Forward by simp
  next
    case (Waiting b)
    then show ?thesis using l by (simp add: limited_def)
  qed
qed

section \<open>Reading\<close>

text \<open>The endpoints that change something, and those reached by GET.\<close>

definition writes :: "endpoint \<Rightarrow> bool" where
  "writes e \<longleftrightarrow> e \<in> {PutModel, PutVersion, PutDeployment, DeleteDeployment, RollbackDeployment, Infer, EnqueueJob}"

lemma own_get_routes: "list_all (\<lambda>r. ro_verb r = ''GET'' \<longrightarrow> \<not> writes (ro_endpoint r)) own_routes"
  by code_simp

lemma get_endpoint:
  assumes "docs_only docs" "r \<in> set (app_routes docs st)" "ro_verb r = ''GET''"
  shows "\<not> writes (ro_endpoint r)"
  using app_routes_own [OF assms(2)]
proof
  assume "r \<in> set docs"
  then show ?thesis using assms(1) by (simp add: docs_only_def list_all_iff writes_def)
next
  assume "r \<in> set own_routes"
  then show ?thesis using own_get_routes assms(3) by (simp add: list_all_iff)
qed

lemma calm_read: "fst a = id \<Longrightarrow> snd (await a (reading f) s) = s"
  by (cases "snd a") (simp_all add: await_def reading_def)

lemma then_keeps:
  "snd m = s \<Longrightarrow> (\<And>x. fst m = Inr x \<Longrightarrow> snd (f x s) = s) \<Longrightarrow> snd (and_then m f) = s"
  by (auto simp: and_then_def split: prod.splits sum.splits)

lemma read_case: "snd (case p of (None, s) \<Rightarrow> (Inl e, s) | (Some x, s) \<Rightarrow> (Inr x, s)) = snd p"
  by (simp split: prod.split option.split)

lemma rows_kept:
  assumes "fst a = id"
  shows "snd (get_model D a n s) = s" "snd (list_models D a l k s) = s" "snd (find_version D a n v s) = s"
    "snd (get_version D a n v s) = s" "snd (list_versions D a n l k s) = s"
  by (simp_all add: get_model_def list_models_def find_version_def get_version_def list_versions_def
      read_case calm_read [OF assms])

lemma registry_reads_kept:
  assumes "\<And>i. fst (aw i) = id"
  shows "snd (list_models_route P D aw li off s) = s" "snd (get_model_route D aw n s) = s"
    "snd (list_versions_route P D aw n li off s) = s" "snd (get_version_route D aw n v s) = s"
  by (auto simp: list_models_route_def get_model_route_def list_versions_route_def get_version_route_def
      rows_kept [OF assms] split: prod.splits option.splits intro!: then_keeps)

lemma gateway_read_kept:
  assumes "k8s_server K objs" "fst a = id"
  shows "snd (gw_get K a ns n k) = k"
proof -
  have "snd (k_get K ns n k) = k"
    using k8s_server.get_present [OF assms(1), of k ns n] k8s_server.get_absent [OF assms(1), of k ns n]
    by (cases "objs k (ns, n)") auto
  then show ?thesis using assms(2) by (cases "snd a") (simp_all add: gw_get_def await_def case_prod_beta)
qed

lemma deployment_read_kept:
  assumes "k8s_server K objs" "gateway = None \<or> gateway = Some K" "fst a = id"
  shows "snd (get_deployment P gateway a ns n k) = k"
  using assms(2) gateway_read_kept [OF assms(1,3)]
  by (auto simp: get_deployment_def get_deployment_gateway_def via_gateway_def split: prod.splits
      intro!: then_keeps)

lemma record_kept: "snd (get_record R l i r) = r"
  by (cases l) (simp_all add: get_record_def)

lemma job_read_kept: "snd (get_job q l i r) = r"
proof -
  have "snd (get_record R l i r) = r" for R :: "'a redis" by (rule record_kept)
  then show ?thesis
    by (auto simp: get_job_def split: prod.split sum.split option.split intro!: then_keeps) (metis snd_conv)+
qed

lemma answer_state [simp]: "snd (answer f r) = snd r"
  by (simp add: answer_def)

lemma read_endpoint_kept:
  assumes "k8s_server K objs" "ax_gateway A = None \<or> ax_gateway A = Some K" "\<not> writes e"
    and "\<And>i. fst (su_db N i) = id" "\<And>i. fst (su_cluster N i) = id"
  shows "snd (endpoint_call A N e ps query key body (s, k, r)) = (s, k, r)"
  using assms(3) registry_reads_kept [of "su_db N", OF assms(4)] job_read_kept
    deployment_read_kept [OF assms(1,2), of "su_cluster N 0", OF assms(5)]
  by (cases e) (simp_all add: endpoint_call_def writes_def db_part_def cluster_part_def)

section \<open>Properties\<close>


definition demo_api :: "(mem_db, mem_cluster, mem) api" where
  "demo_api =
     \<lparr> ax_settings = full_settings, ax_framework = plain_framework, ax_docs = [],
       ax_pydantic = plain_pydantic, ax_feq = (=), ax_float = id, ax_time = (\<lambda>_. ''t''),
       ax_repr = (\<lambda>_. ''r''), ax_str = (\<lambda>_. ''s''), ax_render = (\<lambda>_. []), ax_sha256 = id,
       ax_metrics = MetricsCollector, ax_db = mem_sql, ax_gateway = Some mem_k8s,
       ax_queue = Some demo_handle \<rparr>"

definition demo_around :: "(mem_db, mem_cluster) surroundings" where
  "demo_around =
     \<lparr> su_db = undisturbed, su_cluster = calm, su_redis = Delivered,
       su_checks = (Inr (), Inr (), Inr ()), su_post = demo_post, su_job_uuid = demo_job_id,
       su_request_uuid = ''u'' \<rparr>"

definition json_scope :: scope where
  "json_scope = \<lparr> sc_type = ''http'', sc_headers = [(''content-type'', ''application/json'')] \<rparr>"

definition demo_call :: "string \<Rightarrow> ((exc + reply) \<times> access_log option \<times> string option \<times> mem_db \<times> mem_cluster \<times> mem) option" where
  "demo_call path =
     control_api demo_api demo_around json_scope ''GET'' path (\<lambda>_. None) [HttpRequest None None]
       (demo_db_v1, empty_cluster, Map.empty)"

lemma demo_web: "web_framework (ax_framework demo_api)"
  using plain_web.web_framework_axioms by (simp add: demo_api_def)

lemma map_sum_InrE: "map_sum f g x = Inr y \<Longrightarrow> (\<And>z. x = Inr z \<Longrightarrow> y = g z \<Longrightarrow> P) \<Longrightarrow> P"
  by (cases x) auto

lemma demo_lost:
  "map_option (map_sum id (\<lambda>rep. (rp_status rep, rp_body rep)) \<circ> fst) (demo_call ''/nowhere'') =
     Some (Inr (404, JsonBody (detail_body ''Not Found'')))"
  by code_simp


text \<open>
  (C23) Reading changes nothing. While no other client acts, a GET request for any path, with any
  headers, query and body, whatever round trips are lost, leaves the registry database, the cluster
  and the queue exactly as they were.
\<close>

theorem get_requests_are_safe:
  assumes "web_framework (ax_framework A)" and "docs_only (ax_docs A)" and "CHR 0x0A \<notin> set path"
    and "k8s_server K objs" and "ax_gateway A = None \<or> ax_gateway A = Some K"
    and "\<forall>i. fst (su_db N i) = id \<and> fst (su_cluster N i) = id"
    and "control_api A N sc ''GET'' path query incoming (s, k, r) = Some (res, entry, ctx, w')"
  shows "w' = (s, k, r)"
proof (rule control_api_cases [OF assms(7)], goal_cases)
  case (2 ms res')
  note outer = 2
  show ?case
  proof (rule web_framework.select_cases [OF assms(1,3), of "app_routes (ax_docs A) (ax_settings A)" "''GET''"],
      goal_cases)
    case (1 ro ps)
    have "\<not> writes (ro_endpoint ro)" using get_endpoint [OF assms(2) 1(1)] 1(2) by simp
    moreover have "\<And>i. fst (su_db N i) = id" "\<And>i. fst (su_cluster N i) = id" using assms(6) by blast+
    ultimately have "snd (endpoint_call A N (ro_endpoint ro) ps query key body (s, k, r)) = (s, k, r)"
      for key body using read_endpoint_kept [OF assms(4,5)] by blast
    then show ?case
      using outer(1) unfolding control_app_def 1(4) by (auto simp: case_prod_beta split: sum.splits)
  next
    case (2 status b)
    then show ?case using outer(1) by (simp add: control_app_def)
  qed
qed

lemma demo_answered: "demo_call ''/v1/models/sentiment'' \<noteq> None"
  by code_simp

theorem get_requests_are_safe_witness:
  "\<exists>res entry ctx. demo_call ''/v1/models/sentiment'' =
     Some (res, entry, ctx, demo_db_v1, empty_cluster, Map.empty)"
proof -
  obtain res entry ctx w' where c: "demo_call ''/v1/models/sentiment'' = Some (res, entry, ctx, w')"
    using demo_answered by (metis not_None_eq prod_cases4)
  have "docs_only (ax_docs demo_api)" "CHR 0x0A \<notin> set ''/v1/models/sentiment''"
    "ax_gateway demo_api = None \<or> ax_gateway demo_api = Some mem_k8s"
    "\<forall>i. fst (su_db demo_around i) = id \<and> fst (su_cluster demo_around i) = id"
    by (simp_all add: demo_api_def demo_around_def docs_only_def undisturbed_def calm_def)
  from get_requests_are_safe [OF demo_web this(1,2) mem_k8s.k8s_server_axioms this(3,4)
      c [unfolded demo_call_def]] c show ?thesis by blast
qed

end
