(* ===== verification/Cli_Api.thy ===== *)
theory Cli_Api
  imports Control_Api
begin

text \<open>
  The client against the API: the request that \<open>kernexysctl\<close> builds travels over HTTP into the control
  API, and the response travels back. The client's \<open>opener\<close> is the API itself, so that a command has
  an effect on the database and the cluster and an outcome on the terminal.
\<close>

section \<open>The exchange\<close>

text \<open>
  The headers of the client that the API reads; the body is ASCII, one byte per character. The \<open>Host\<close>
  header, which is the host of \<open>api_url\<close> and only enters the path in the access log, is left out.
\<close>

definition cli_scope :: "cli_request \<Rightarrow> scope" where
  "cli_scope rq =
     \<lparr> sc_type = ''http'',
       sc_headers =
         [(''accept'', ''application/json''), (''content-type'', ''application/json''),
          (''x-request-id'', rq_request_id rq)] @
         (case rq_data rq of None \<Rightarrow> [] | Some t \<Rightarrow> [(''content-length'', show_int (int (length t)))]) \<rparr>"

text \<open>
  What the client sees of a response: the server turns an exception into a bare status 500, and
  \<open>urlopen\<close> raises \<open>HTTPError\<close> for any status outside 200 to 299. \<open>files\<close> reads a file.
\<close>

fun body_text :: "(string \<Rightarrow> string) \<Rightarrow> endpoint framework \<Rightarrow> reply_body \<Rightarrow> string" where
  "body_text files W (JsonBody v) = fw_json W v"
| "body_text files W (TextBody t) = t"
| "body_text files W (FileBody f) = files f"
| "body_text files W NoBody = []"

definition opened_of :: "(string \<Rightarrow> string) \<Rightarrow> endpoint framework \<Rightarrow> exc + reply \<Rightarrow> opened" where
  "opened_of files W res =
     (case res of
        Inl e \<Rightarrow> HttpError 500 (Text ''Internal Server Error'')
      | Inr rep \<Rightarrow>
          (let c = Text (body_text files W (rp_body rep)) in
           if 200 \<le> rp_status rep \<and> rp_status rep < 300 then Response c else HttpError (rp_status rep) c))"

text \<open>
  The server decodes the path before it routes the request. The API is mounted at \<open>origin\<close>, a URL of
  scheme, host and perhaps a path, without query and fragment; another URL does not reach it.
\<close>

definition http_call ::
  "('s, 'k, 'r) api \<Rightarrow> ('s, 'k) surroundings \<Rightarrow> (string \<Rightarrow> string) \<Rightarrow> string \<Rightarrow> cli_request \<Rightarrow> 's \<times> 'k \<times> 'r
     \<Rightarrow> opened \<times> 's \<times> 'k \<times> 'r" where
  "http_call A N files origin rq w =
     (if take (length origin) (rq_url rq) \<noteq> origin then (UrlError ''unreachable'', w)
      else
        (case control_api A N (cli_scope rq) (rq_method rq) (unquote (drop (length origin) (rq_url rq)))
             (\<lambda>_. None) [HttpRequest (rq_data rq) (Some False)] w of
           None \<Rightarrow> (UrlError ''timed out'', w)
         | Some (res, entry, ctx, w') \<Rightarrow> (opened_of files (ax_framework A) res, w')))"

text \<open>A run of the client: its outcome, and the state it leaves when it gets as far as the request.\<close>

definition cli_session ::
  "(string \<Rightarrow> string) \<Rightarrow> (json \<Rightarrow> string) \<Rightarrow> ('s, 'k, 'r) api \<Rightarrow> ('s, 'k) surroundings \<Rightarrow> (string \<Rightarrow> string)
     \<Rightarrow> string \<Rightarrow> string \<Rightarrow> cli_arguments \<Rightarrow> 's \<times> 'k \<times> 'r \<Rightarrow> cli_result \<times> 's \<times> 'k \<times> 'r" where
  "cli_session fr py_str A N files origin uuid a w =
     (cli_run fr py_str uuid a (\<lambda>rq. fst (http_call A N files origin rq w)),
      (case cli_build fr uuid a of Inl _ \<Rightarrow> w | Inr rq \<Rightarrow> snd (http_call A N files origin rq w)))"

section \<open>The path\<close>

lemma unpercent_quote_append:
  assumes "\<forall>b \<in> set bs. b < 256"
  shows "unpercent (concat (map quote_byte bs) @ r) = bs @ unpercent r"
  using assms by (induction bs) (simp_all add: unpercent_quote_byte)

lemma unpercent_plain_append: "CHR ''%'' \<notin> set p \<Longrightarrow> unpercent (p @ r) = map cp p @ unpercent r"
  by (induction p) (auto simp: unpercent_plain)

lemma decode_utf8_append: "decode_utf8 (concat (map utf8 s) @ bs) = s @ decode_utf8 bs"
  by (induction s) (simp_all add: decode_utf8_char)

lemma decode_ascii_append: "\<forall>c \<in> set p. cp c < 128 \<Longrightarrow> decode_utf8 (map cp p @ bs) = p @ decode_utf8 bs"
  by (induction p) auto

definition plain_ascii :: "string \<Rightarrow> bool" where
  "plain_ascii p \<longleftrightarrow> list_all (\<lambda>c. c \<noteq> CHR ''%'' \<and> cp c < 128) p"

lemma unquote_plain_append: "plain_ascii p \<Longrightarrow> unquote (p @ r) = p @ unquote r"
proof -
  assume "plain_ascii p"
  then have p: "CHR ''%'' \<notin> set p" "\<forall>c \<in> set p. cp c < 128" unfolding plain_ascii_def list_all_iff by blast+
  show ?thesis unfolding unquote_def unpercent_plain_append [OF p(1)] decode_ascii_append [OF p(2)] ..
qed

lemma unquote_quote_append: "unquote (quote s @ r) = s @ unquote r"
proof -
  have "\<forall>b \<in> set (concat (map utf8 s)). b < 256" using utf8_bytes by auto
  then show ?thesis by (simp add: quote_def unquote_def unpercent_quote_append decode_utf8_append)
qed

definition served_path :: "cli_arguments \<Rightarrow> string" where
  "served_path a = ''/v1/deployments/'' @ arg_namespace a @ ''/'' @ arg_name a @
     (case cmd a of Rollback _ \<Rightarrow> ''/rollback'' | _ \<Rightarrow> [])"

lemma unquote_cli_path: "unquote (cli_path a) = served_path a"
proof -
  have p: "plain_ascii ''/v1/deployments/''" "plain_ascii ''/''" "plain_ascii ''/rollback''" by code_simp+
  have e: "unquote [] = []" by (simp add: unquote_def)
  note steps = unquote_plain_append [OF p(1)] unquote_plain_append [OF p(2)] unquote_quote_append
  have "unquote ''/rollback'' = ''/rollback''" using unquote_plain_append [OF p(3), of "[]"] e by simp
  then show ?thesis
    unfolding cli_path_def deployment_path_def served_path_def append_assoc steps
    by (simp add: e split: cli_command.split)
qed

section \<open>The route\<close>

definition cli_endpoint :: "cli_command \<Rightarrow> endpoint" where
  "cli_endpoint c = (case c of Deploy _ _ _ _ _ _ \<Rightarrow> PutDeployment | Delete \<Rightarrow> DeleteDeployment
     | Rollback _ \<Rightarrow> RollbackDeployment | Status \<Rightarrow> GetDeployment)"

definition cli_route :: "cli_command \<Rightarrow> endpoint route" where
  "cli_route c = route (cli_method c)
     (case c of Rollback _ \<Rightarrow> ''/v1/deployments/{namespace}/{name}/rollback''
      | _ \<Rightarrow> ''/v1/deployments/{namespace}/{name}'') (cli_endpoint c)"

lemma cli_route_known: "cli_route c \<in> set (app_routes docs st)"
  by (cases c) (simp_all add: app_routes_def cli_route_def cli_method_def cli_endpoint_def
      deployment_router_def prefixed_def route_def)

text \<open>A name that can stand as one segment of a path.\<close>

definition segment_name :: "string \<Rightarrow> bool" where
  "segment_name s \<longleftrightarrow> s \<noteq> [] \<and> list_all (\<lambda>c. c \<noteq> CHR ''/'' \<and> c \<noteq> CHR 0x0A) s"

lemma served_segments:
  assumes "segment_name (arg_namespace a)" "segment_name (arg_name a)"
  shows "segments (served_path a) = [[], ''v1'', ''deployments'', arg_namespace a, arg_name a] @
     (case cmd a of Rollback v \<Rightarrow> [''rollback''] | _ \<Rightarrow> [])"
proof -
  have s: "segments (arg_namespace a) = [arg_namespace a]" "segments (arg_name a) = [arg_name a]"
    using assms by (auto simp: segment_name_def list_all_iff intro: segments_plain)
  have e: "served_path a = [] @ CHR ''/'' # ''v1'' @ CHR ''/'' # ''deployments'' @ CHR ''/'' #
      arg_namespace a @ CHR ''/'' #
      (case cmd a of Rollback _ \<Rightarrow> arg_name a @ CHR ''/'' # ''rollback'' | _ \<Rightarrow> arg_name a)"
    by (simp add: served_path_def split: cli_command.split)
  show ?thesis
    unfolding e segments_append s by (simp add: segments_append s split: cli_command.split)
qed

lemma cli_templates:
  "template ''/v1/deployments/{namespace}/{name}'' =
     [Lit [], Lit ''v1'', Lit ''deployments'', Param ''namespace'', Param ''name'']"
  "template ''/v1/deployments/{namespace}/{name}/rollback'' =
     [Lit [], Lit ''v1'', Lit ''deployments'', Param ''namespace'', Param ''name'', Lit ''rollback'']"
  by code_simp+

definition identity_params :: "cli_arguments \<Rightarrow> (string \<times> string) list" where
  "identity_params a = [(''namespace'', arg_namespace a), (''name'', arg_name a)]"

lemma cli_path_match:
  assumes "segment_name (arg_namespace a)" "segment_name (arg_name a)"
  shows "path_match (cli_route (cmd a)) (served_path a) = Some (identity_params a)"
  using assms unfolding path_match_def served_segments [OF assms]
  by (cases "cmd a")
    (simp_all add: cli_route_def route_def cli_templates identity_params_def segment_name_def)

lemma served_one_line:
  "segment_name (arg_namespace a) \<Longrightarrow> segment_name (arg_name a) \<Longrightarrow> CHR 0x0A \<notin> set (served_path a)"
  by (auto simp: served_path_def segment_name_def list_all_iff split: cli_command.splits)

lemma cli_select:
  assumes "web_framework (ax_framework A)" "docs_only (ax_docs A)"
    and "segment_name (arg_namespace a)" "segment_name (arg_name a)"
  shows "fw_select (ax_framework A) (app_routes (ax_docs A) (ax_settings A)) (cli_method (cmd a))
    (served_path a) = Matched (cli_endpoint (cmd a)) (identity_params a)"
proof -
  have r: "ro_verb (cli_route c) = cli_method c" "ro_endpoint (cli_route c) = cli_endpoint c"
    "cli_endpoint c \<noteq> Documentation" for c
    by (simp_all add: cli_route_def route_def cli_endpoint_def split: cli_command.split)
  show ?thesis
    using select_unique [OF assms(1) served_one_line [OF assms(3,4)] assms(2) cli_route_known
        [of "cmd a"], of "cli_method (cmd a)"] cli_path_match [OF assms(3,4)] r by simp
qed

section \<open>The results of the endpoints\<close>

text \<open>Errors without details and with an error status; answers that are JSON.\<close>

fun plain_error :: "exc \<Rightarrow> bool" where
  "plain_error (ApiExc e) \<longleftrightarrow> ae_details e = JNull \<and> 400 \<le> ae_status_code e"
| "plain_error (HttpExc status details) \<longleftrightarrow> False"
| "plain_error _ \<longleftrightarrow> True"

definition sound :: "('a \<Rightarrow> bool) \<Rightarrow> (exc + 'a) \<times> 'w \<Rightarrow> bool" where
  "sound Q m \<longleftrightarrow> (case fst m of Inl e \<Rightarrow> plain_error e | Inr x \<Rightarrow> Q x)"

lemma sound_and_then:
  "sound (\<lambda>_. True) m \<Longrightarrow> (\<And>x w. sound Q (f x w)) \<Longrightarrow> sound Q (and_then m f)"
  unfolding and_then_def by (cases m; cases "fst m") (simp_all add: sound_def)

lemma sound_pair: "sound Q (Inl e, w) \<longleftrightarrow> plain_error e" "sound Q (Inr x, w) \<longleftrightarrow> Q x"
  by (simp_all add: sound_def)

lemma sound_py: "sound (\<lambda>_. True) (lift_py r, w)"
  by (cases r) (simp_all add: sound_def lift_py_def)

lemma sound_checked: "sound (\<lambda>_. True) (checked c, w)"
  by (cases c) (simp_all add: sound_def)

lemma sound_gateway: "sound (\<lambda>_. True) (get_deployment_gateway g, w)"
  by (cases g) (simp_all add: sound_def get_deployment_gateway_def kubernetes_disabled_def)

lemma sound_via: "sound (\<lambda>_. True) (via_gateway ns n r)"
  by (auto simp: sound_def via_gateway_def gateway_failure_def deployment_error_def
      split: sum.splits gateway_exc.splits)

lemma sound_on: "sound Q (on_cluster s r) \<longleftrightarrow> sound Q r" "sound Q (on_db q k) \<longleftrightarrow> sound Q q"
  by (simp_all add: sound_def on_cluster_def on_db_def)

lemma sound_version: "sound (\<lambda>_. True) (get_version D a m v s)"
  by (auto simp: sound_def get_version_def find_version_def split: prod.splits option.splits)

lemma sound_missing: "plain_error (version_not_found m v)"
  by (simp add: version_not_found_def)

lemma sound_bind:
  "sound (\<lambda>_. True) (lift_py r, w) \<Longrightarrow> (\<And>x. sound Q (f x, w)) \<Longrightarrow> sound Q (bind_result (lift_py r) f, w)"
  by (cases "lift_py r") (simp_all add: sound_def)

lemma sound_rollback_parts:
  "sound (\<lambda>_. True) (current_model_name v, w)"
  "sound (\<lambda>_. True) (rollback_desired P v m t, w)"
  unfolding current_model_name_def rollback_desired_def
  by (auto simp: sound_pair invalid_deployment_def split: json.split sum.split
      intro!: sound_bind sound_py)

definition readable :: "deployment_read \<Rightarrow> bool" where
  "readable r \<longleftrightarrow> resources_ok (sr_resources (rd_spec r))"

lemma resource_to_read_readable:
  assumes "resource_to_read P obj = Inr r"
  shows "readable r"
proof -
  have "resource_fields P (JDict obj) = Inr r"
    using assms by (auto simp: resource_to_read_def split: sum.splits if_splits)
  then show ?thesis unfolding resource_fields_def readable_def
    by (elim bind_InrE) (auto simp: validated_Inr_iff map_checked_Inr_iff dest: DeploymentResources_ok
        split: prod.splits)
qed

lemma sound_read: "sound readable (resource_to_read P obj, w)"
  using resource_to_read_Inl [of P obj] resource_to_read_readable [of P obj]
  by (auto simp: sound_def resource_to_read_def invalid_deployment_def split: sum.splits if_splits)

lemmas sound_rules = sound_py sound_checked sound_gateway sound_via sound_version sound_missing
  sound_rollback_parts sound_read

lemma deployments_sound:
  "sound readable (put_deployment P D g d aw ns n body w)"
  "sound readable (get_deployment P g a ns n k)"
  "sound (\<lambda>status. status = 204) (delete_deployment g a ns n k)"
  "sound readable (rollback_deployment P D g d a aw ns n body w)"
  unfolding put_deployment_def get_deployment_def delete_deployment_def rollback_deployment_def
    apply_and_read_def
  by (auto simp: sound_on sound_rules sound_pair split: option.split intro!: sound_and_then sound_rules)

definition json_answer :: "int \<times> reply_body \<Rightarrow> bool" where
  "json_answer p \<longleftrightarrow> 200 \<le> fst p \<and> fst p < 300 \<and>
     (case snd p of JsonBody v \<Rightarrow> jwf id v | NoBody \<Rightarrow> True | _ \<Rightarrow> False)"

lemma sound_answer: "sound Q m \<Longrightarrow> (\<And>x. Q x \<Longrightarrow> R (f x)) \<Longrightarrow> sound R (answer f m)"
  by (cases "fst m") (simp_all add: sound_def answer_def)

lemma condition_json_wf: "jwf fr (condition_json c)"
  by (cases "co_last_transition_time c") (simp_all add: condition_json_def)

lemma deployment_json_wf: "readable r \<Longrightarrow> jwf fr (deployment_json r)"
  by (cases "rd_created_at r")
    (auto simp: deployment_json_def spec_json_def status_json_def readable_def dump_resources_def
      resources_ok_def valid_resources_def dump_map_wf condition_json_wf)

lemma sound_part:
  "sound Q (cluster_part s q r) \<longleftrightarrow> sound Q q" "sound Q (both_part b r) \<longleftrightarrow> sound Q b"
  by (simp_all add: sound_def cluster_part_def both_part_def)

lemma cli_endpoint_sound:
  "sound json_answer (endpoint_call A N (cli_endpoint c) ps query key body (s, k, r))"
  by (cases c)
    (auto simp: endpoint_call_def cli_endpoint_def sound_part json_answer_def json_ok_def
      deployment_json_wf intro!: sound_answer [OF deployments_sound(1)] sound_answer [OF deployments_sound(2)]
      sound_answer [OF deployments_sound(3)] sound_answer [OF deployments_sound(4)])

section \<open>The response\<close>

text \<open>What the client ends with, as a function of the result of the endpoint.\<close>

fun cli_outcome :: "(string \<Rightarrow> string) \<Rightarrow> cli_arguments \<Rightarrow> exc + int \<times> reply_body \<Rightarrow> cli_result" where
  "cli_outcome fr a (Inr (status, JsonBody v)) = Exit 0 [json_print fr indented_layout 0 v] []"
| "cli_outcome fr a (Inr (status, _)) =
     Exit 0 [json_print fr default_layout 0 (JDict
       [(''deleted'', JBool True), (''name'', JStr (arg_name a)), (''namespace'', JStr (arg_namespace a))])] []"
| "cli_outcome fr a (Inl (PyExc e)) = Exit 1 [] [''control API returned HTTP 500'']"
| "cli_outcome fr a (Inl e) = Exit 1 [] [api_message e]"

definition renders_json :: "('s, 'k, 'r) api \<Rightarrow> bool" where
  "renders_json A \<longleftrightarrow> (\<forall>v. jwf id (JDict (ax_render A v)))"

lemma normalize_wf:
  assumes "jwf fr (JDict error)"
  shows "jwf fr (JDict (normalize_error str error))"
proof -
  have v: "v \<in> set (map snd xs) \<or> v = y" if "(k, v) \<in> set (AList.update x y xs)" for k v x y and xs :: dict
    using that by (induction xs) (force split: if_splits)+
  show ?thesis
    using assms v [of _ _ "''ctx''"]
    by (fastforce simp: normalize_error_def distinct_update comp_def case_prod_beta
        dest: map_of_SomeD split: option.splits json.splits)
qed

lemma error_response_wf: "jwf fr (snd (error_response rid st cd m details)) \<longleftrightarrow> jwf fr details"
  by (simp add: error_response_def)

lemma violations_wf:
  "renders_json A \<Longrightarrow> jwf id (JList (map (\<lambda>e. JDict (normalize_error (ax_str A) (ax_render A e))) vs))"
  using normalize_wf [of id] unfolding renders_json_def jwf.simps(2) by (auto simp del: jwf.simps)

lemma wf_encodable: "jwf id v \<Longrightarrow> encodable v"
proof (induction v)
  case (JFloat t)
  have "parse_number ''nan'' = None" "parse_number ''inf'' = None" "parse_number ''-inf'' = None" by code_simp+
  then show ?case using JFloat by auto
qed (auto simp: encodable.simps)

lemma handled_wf:
  assumes "renders_json A" "plain_error e" "handle_exception (ax_str A) (ax_render A) rid e = Inr p"
  shows "jwf id (snd p) \<and> \<not> (200 \<le> fst p \<and> fst p < 300)"
proof (cases e)
  case (ValidationExc vs)
  then show ?thesis using assms(3) error_response_wf violations_wf [OF assms(1)]
    by (auto simp: handle_exception_def handle_validation_error_def Let_def split: if_splits)
      (simp add: error_response_def)
qed (use assms(2,3) in \<open>auto simp: handle_exception_def handle_api_error_def handle_database_error_def
    error_response_def\<close>)

section \<open>One command\<close>

text \<open>The request fits into the limit on bodies.\<close>

definition body_fits :: "int \<Rightarrow> cli_request \<Rightarrow> bool" where
  "body_fits max_bytes rq \<longleftrightarrow> (case rq_data rq of None \<Rightarrow> 0 \<le> max_bytes | Some t \<Rightarrow> int (length t) \<le> max_bytes)"

lemma cli_forwarded:
  assumes "body_fits max_bytes rq"
  shows "body_limit max_bytes (cli_scope rq) [HttpRequest (rq_data rq) (Some False)] =
    Forward [HttpRequest (rq_data rq) (Some False)] []"
  using assms
  by (auto simp: body_limit_def declared_too_large_def header_def cli_scope_def body_fits_def py_int_show_if
      split: option.splits)

lemma cli_url_read:
  assumes "web_framework W"
  shows "\<exists>q. fw_url_path W (sc_headers (cli_scope rq)) (served_path a) = Inr q"
proof (rule web_framework.url_read [OF assms])
  show "plain_host (sc_headers (cli_scope rq))"
    by (auto simp: plain_host_def cli_scope_def split: option.split)
  show "take 1 (served_path a) = ''/''" by (simp add: served_path_def)
qed

lemma cli_endpoint_body: "cli_payload c = Inr payload \<Longrightarrow> has_body (cli_endpoint c) \<longleftrightarrow> payload \<noteq> None"
  by (cases c) (auto simp: cli_payload_def has_body_def cli_endpoint_def bind_result_Inr_iff)

text \<open>The body an endpoint is called with.\<close>

definition command_body :: "cli_command \<Rightarrow> json" where
  "command_body c = (case cli_payload c of Inr (Some v) \<Rightarrow> v | _ \<Rightarrow> JNull)"

lemma cli_build_fields:
  assumes "cli_build fr uuid a = Inr rq"
  shows "rq_url rq = rstrip_slash (api_url a) @ cli_path a" "rq_method rq = cli_method (cmd a)"
    "\<exists>payload. cli_payload (cmd a) = Inr payload \<and> (rq_data rq = None \<longleftrightarrow> payload = None)"
  using assms by (auto simp: cli_build_def bind_result_Inr_iff split: if_splits)

lemma cli_app:
  assumes "web_framework (ax_framework A)" "docs_only (ax_docs A)"
    and "segment_name (arg_namespace a)" "segment_name (arg_name a)"
    and "cli_build fr uuid a = Inr rq"
    and "endpoint_call A N (cli_endpoint (cmd a)) (identity_params a) query None (command_body (cmd a)) w =
      (result, w')"
  shows "control_app A N (cli_method (cmd a)) (served_path a) query (cli_scope rq)
    [HttpRequest (rq_data rq) (Some False)] rid w = (respond A rid result, w')"
proof -
  obtain payload where p: "cli_payload (cmd a) = Inr payload" using cli_build_fields(3) [OF assms(5)] by blast
  have h: "header (cli_scope rq) ''idempotency-key'' = None"
    by (simp add: header_def cli_scope_def split: option.split)
  have "(if has_body (cli_endpoint (cmd a)) then fw_body (ax_framework A) (sc_headers (cli_scope rq))
      (concat (map body_bytes [HttpRequest (rq_data rq) (Some False)])) else Inr JNull) =
      Inr (command_body (cmd a))"
  proof (cases payload)
    case None
    then show ?thesis using p cli_endpoint_body [OF p] by (simp add: command_body_def)
  next
    case (Some v)
    then obtain t where "rq_data rq = Some t" "json_loads t = Some v"
      using cli_build_data [OF assms(5)] p by blast
    then show ?thesis using p Some cli_endpoint_body [OF p] web_framework.json_body [OF assms(1)]
      by (simp add: command_body_def cli_scope_def)
  qed
  then show ?thesis unfolding control_app_def cli_select [OF assms(1-4)] by (simp add: h assms(6))
qed

lemma http_call_reaches:
  assumes "web_framework (ax_framework A)" "docs_only (ax_docs A)"
    and "segment_name (arg_namespace a)" "segment_name (arg_name a)"
    and "cli_build fr uuid a = Inr rq" "body_fits (max_request_bytes (ax_settings A)) rq"
    and "endpoint_call A N (cli_endpoint (cmd a)) (identity_params a) (\<lambda>_. None) None (command_body (cmd a)) w =
      (result, w')"
  obtains rid where "http_call A N files (rstrip_slash (api_url a)) rq w =
    (opened_of files (ax_framework A) (map_sum id (with_id rid) (respond A (Some rid) result)), w')"
proof -
  let ?rid = "choose_request_id (header (cli_scope rq) ''x-request-id'') (su_request_uuid N)"
  let ?sent = "respond A (Some ?rid) result"
  have path: "unquote (drop (length (rstrip_slash (api_url a))) (rq_url rq)) = served_path a"
    "take (length (rstrip_slash (api_url a))) (rq_url rq) = rstrip_slash (api_url a)"
    using cli_build_fields(1) [OF assms(5)] by (simp_all add: unquote_cli_path)
  note app = cli_app [OF assms(1-5,7), of "Some ?rid"]
  have "\<exists>entry. control_api A N (cli_scope rq) (cli_method (cmd a)) (served_path a) (\<lambda>_. None)
      [HttpRequest (rq_data rq) (Some False)] w = Some (map_sum id (with_id ?rid) ?sent, entry, None, w')"
    using cli_url_read [OF assms(1), of rq a]
    unfolding control_api_eq limited_def cli_forwarded [OF assms(6)] by (auto simp: app)
  then show ?thesis
    using that [of ?rid] path cli_build_fields(2) [OF assms(5)] by (auto simp: http_call_def)
qed

lemma server_error_text: "json_loads ''Internal Server Error'' = None"
  by code_simp

lemma show_500: "show_int 500 = ''500''"
  by code_simp

lemma cli_shows:
  assumes "web_framework (ax_framework A)" "renders_json A" "cli_build fr uuid a = Inr rq"
    and "sound json_answer (result, w')"
  shows "cli_run fr py_str uuid a (\<lambda>rq. opened_of files (ax_framework A)
      (map_sum id (with_id rid) (respond A (Some rid) result))) = cli_outcome fr a result"
proof (cases result)
  case (Inr p)
  obtain status b where p: "p = (status, b)" by (cases p)
  have "json_loads (fw_json (ax_framework A) v) = Some v" if "b = JsonBody v" for v
    using that assms(4) Inr p web_framework.json_text [OF assms(1)] by (simp add: sound_pair json_answer_def)
  moreover have "json_loads [] = None" by (rule json_loads_empty)
  ultimately show ?thesis using assms(3,4) Inr p
    by (cases b) (auto simp: cli_run_def opened_of_def respond_def plain_reply_def sound_pair json_answer_def
        loads_content_def)
next
  case (Inl e)
  show ?thesis
  proof (cases "handle_exception (ax_str A) (ax_render A) (Some rid) e")
    case h: (Inl p)
    then have "e = PyExc p"
      using handle_exception_Inl [OF h] wf_encodable [OF violations_wf [OF assms(2)]] by blast
    then show ?thesis using assms(3) Inl server_error_text
      by (simp add: cli_run_def opened_of_def respond_def handle_exception_def error_message_def
          loads_content_def show_500)
  next
    case Some: (Inr p)
    have wf: "jwf id (snd p)" "\<not> (200 \<le> fst p \<and> fst p < 300)"
      using handled_wf [OF assms(2) _ Some] assms(4) Inl by (auto simp: sound_pair)
    obtain cd dt where "snd p = snd (error_response (Some rid) (fst p) cd (api_message e) dt)"
      using handled_body [of "ax_str A" "ax_render A" "Some rid" e "fst p" "snd p"] Some by auto
    then have m: "error_message py_str (Text (fw_json (ax_framework A) (snd p))) fb = api_message e" for fb
      using error_response_message web_framework.json_text [OF assms(1) wf(1)] by metis
    have "cli_outcome fr a result = Exit 1 [] [api_message e]"
      using Some Inl by (cases e) (auto simp: handle_exception_def)
    then show ?thesis using assms(3) Inl Some wf(2) m
      by (cases p) (auto simp: cli_run_def opened_of_def respond_def plain_reply_def Let_def)
  qed
qed

lemma session_is_call:
  assumes "web_framework (ax_framework A)" "docs_only (ax_docs A)" "renders_json A"
    and "segment_name (arg_namespace a)" "segment_name (arg_name a)"
    and "cli_build fr uuid a = Inr rq" "body_fits (max_request_bytes (ax_settings A)) rq"
    and "endpoint_call A N (cli_endpoint (cmd a)) (identity_params a) (\<lambda>_. None) None (command_body (cmd a))
      (s, k, r) = (result, w')"
  shows "cli_session fr py_str A N files (rstrip_slash (api_url a)) uuid a (s, k, r) =
    (cli_outcome fr a result, w')"
proof -
  obtain rid where h: "http_call A N files (rstrip_slash (api_url a)) rq (s, k, r) =
    (opened_of files (ax_framework A) (map_sum id (with_id rid) (respond A (Some rid) result)), w')"
    using http_call_reaches [OF assms(1,2,4-8)] by blast
  have "sound json_answer (result, w')"
    using cli_endpoint_sound [of A N "cmd a" "identity_params a" "\<lambda>_. None" None "command_body (cmd a)" s k r]
      assms(8) by simp
  from cli_shows [OF assms(1,3,6) this] show ?thesis
    using assms(6) h by (simp add: cli_session_def cli_run_def)
qed

section \<open>Deploying\<close>

text \<open>The command that asks for a given deployment.\<close>

definition deploy_command :: "deployment_upsert \<Rightarrow> cli_command" where
  "deploy_command d = Deploy (du_model d) (du_version d) (du_replicas d) (du_port d)
     (map flag (dr_requests (du_resources d))) (map flag (dr_limits (du_resources d)))"

lemma deploy_command_body:
  assumes "upsert_ok d"
  shows "command_body (deploy_command d) = JDict [(''model'', JStr (du_model d)),
    (''version'', JStr (du_version d)), (''replicas'', JInt (du_replicas d)), (''port'', JInt (du_port d)),
    (''resources'', dump_resources (du_resources d))]"
  using assms
  by (simp add: command_body_def deploy_command_def cli_payload_def key_values_flags upsert_ok_def
      resources_ok_def dump_resources_def)

lemma deploy_body_upsert:
  assumes "pydantic_lax P" "upsert_ok d"
  shows "DeploymentUpsert P (command_body (deploy_command d)) = Inr d"
proof -
  have "resources_ok (du_resources d)" using assms(2) by (simp add: upsert_ok_def)
  from DeploymentResources_dump [OF this] show ?thesis
    using assms(2) pydantic_lax.lax_int_int [OF assms(1)]
    unfolding deploy_command_body [OF assms(2)]
    by (simp add: DeploymentUpsert_def upsert_ok_def checked_iffs field_str_def ResourceName_iff
        VersionName_iff dns_label_trim version_label_trim)
qed

lemma label_segment: "dns_label s \<Longrightarrow> segment_name s"
proof -
  assume "dns_label s"
  then have s: "s \<noteq> []" "\<forall>c \<in> set s. label_char c" by (auto simp: dns_label_def)
  have "\<not> label_char (CHR ''/'')" "\<not> label_char (CHR 0x0A)" by code_simp+
  then show ?thesis using s unfolding segment_name_def list_all_iff by metis
qed

lemma label_name: "dns_label s \<Longrightarrow> ResourceName s = Inr s"
  by (simp add: ResourceName_iff dns_label_trim)

lemma outcome_error: "\<exists>message. cli_outcome fr a (Inl e) = Exit 1 [] [message]"
  by (cases e) simp_all

lemma put_unregistered:
  assumes "DeploymentUpsert P body = Inr d" "ResourceName ns = Inr ns" "ResourceName n = Inr n"
    and "sel_version D (du_model d) (du_version d) s = None"
  shows "put_deployment P D (Some K) (id, Delivered) aw ns n body (s, k) =
    (Inl (version_not_found (du_model d) (du_version d)), s, k)"
proof -
  have "get_version D (id, Delivered) (du_model d) (du_version d) s = (Inr None, s)"
    using assms(4) by (simp add: get_version_def find_version_def await_def reading_def)
  moreover have "identity_args ns n = Inr (ns, n)" using assms(2,3) by (simp add: identity_args_Inr_iff)
  ultimately show ?thesis
    using assms(1) by (simp add: put_deployment_def and_then_def get_deployment_gateway_def on_db_def both_def
        under_def)
qed

lemma deploy_session:
  assumes "web_framework (ax_framework A)" "docs_only (ax_docs A)" "renders_json A" "ax_gateway A = Some K"
    and "dns_label (arg_namespace a)" "dns_label (arg_name a)" "cmd a = deploy_command d"
    and "cli_build fr uuid a = Inr rq" "body_fits (max_request_bytes (ax_settings A)) rq"
    and "put_deployment (ax_pydantic A) (ax_db A) (Some K) (su_db N 0) (su_cluster N) (arg_namespace a)
      (arg_name a) (command_body (cmd a)) (s, k) = (result, s', k')"
  shows "cli_session fr py_str A N files (rstrip_slash (api_url a)) uuid a (s, k, r) =
    (cli_outcome fr a (map_sum id (json_ok deployment_json) result), s', k', r)"
proof -
  have "endpoint_call A N (cli_endpoint (cmd a)) (identity_params a) (\<lambda>_. None) None (command_body (cmd a))
      (s, k, r) = (map_sum id (json_ok deployment_json) result, s', k', r)"
    using assms(10)
    by (cases result) (simp_all add: endpoint_call_def assms(4,7) cli_endpoint_def deploy_command_def
        identity_params_def arg_def both_part_def answer_def)
  from session_is_call [OF assms(1-3) label_segment [OF assms(5)] label_segment [OF assms(6)] assms(8,9) this]
  show ?thesis .
qed

section \<open>Properties\<close>

text \<open>
  (C9) A command of the client is a call of its endpoint. For every command whose namespace and name
  can be path segments and whose body body_fits the limit, a run of \<open>kernexysctl\<close> against the API does to
  the database, the cluster and the queue exactly what the endpoint of the command does when it is
  called with the given namespace, name and body, and it ends with that endpoint's result: the
  answer printed on standard output with exit status 0, or the error's own message on standard
  error with exit status 1.
\<close>

theorem cli_command_is_endpoint_call:
  assumes "web_framework (ax_framework A)" and "docs_only (ax_docs A)" and "renders_json A"
    and "segment_name (arg_namespace a)" and "segment_name (arg_name a)"
    and "cli_build fr uuid a = Inr rq" and "body_fits (max_request_bytes (ax_settings A)) rq"
  shows "cli_session fr py_str A N files (rstrip_slash (api_url a)) uuid a (s, k, r) =
    map_prod (cli_outcome fr a) id
      (endpoint_call A N (cli_endpoint (cmd a))
         [(''namespace'', arg_namespace a), (''name'', arg_name a)] (\<lambda>_. None) None (command_body (cmd a))
         (s, k, r))"
  using session_is_call [OF assms] unfolding identity_params_def
  by (cases "endpoint_call A N (cli_endpoint (cmd a))
         [(''namespace'', arg_namespace a), (''name'', arg_name a)] (\<lambda>_. None) None (command_body (cmd a))
         (s, k, r)") simp

definition demo_arguments :: "cli_command \<Rightarrow> cli_arguments" where
  "demo_arguments c =
     \<lparr> api_url = ''http://api.example/'', timeout = 4, cmd = c, arg_name = ''demo'', arg_namespace = ''default'' \<rparr>"

definition demo_deployment :: deployment_upsert where
  "demo_deployment = sample_upsert\<lparr> du_version := ''v1'', du_port := 80 \<rparr>"

definition demo_session :: "cli_command \<Rightarrow> cli_result \<times> mem_db \<times> mem_cluster \<times> mem" where
  "demo_session c = cli_session id (\<lambda>_. []) demo_api demo_around id
     (rstrip_slash (api_url (demo_arguments c))) ''u'' (demo_arguments c) (demo_db_v1, empty_cluster, Map.empty)"

lemma demo_fits:
  "case cli_build id ''u'' (demo_arguments Delete) of Inl _ \<Rightarrow> False
   | Inr rq \<Rightarrow> body_fits (max_request_bytes full_settings) rq"
  "case cli_build id ''u'' (demo_arguments (deploy_command demo_deployment)) of Inl _ \<Rightarrow> False
   | Inr rq \<Rightarrow> body_fits (max_request_bytes full_settings) rq"
  by code_simp+

lemma demo_request:
  assumes "c \<in> {Delete, deploy_command demo_deployment}"
  obtains rq where "cli_build id ''u'' (demo_arguments c) = Inr rq"
    "body_fits (max_request_bytes (ax_settings demo_api)) rq"
  using assms demo_fits that by (auto simp: demo_api_def split: sum.splits)

lemma demo_settled:
  "docs_only (ax_docs demo_api)" "renders_json demo_api"
  by (simp_all add: demo_api_def docs_only_def renders_json_def)

lemma demo_labels: "dns_label (arg_namespace (demo_arguments c))" "dns_label (arg_name (demo_arguments c))"
  by (simp_all add: demo_arguments_def) code_simp+

theorem cli_command_is_endpoint_call_witness:
  "demo_session Delete = map_prod (cli_outcome id (demo_arguments Delete)) id
     (endpoint_call demo_api demo_around DeleteDeployment
        [(''namespace'', ''default''), (''name'', ''demo'')] (\<lambda>_. None) None JNull
        (demo_db_v1, empty_cluster, Map.empty)) \<and>
   fst (demo_session Delete) =
     Exit 0 [''{'' @ [CHR 0x22] @ ''deleted'' @ [CHR 0x22] @ '': true, '' @ [CHR 0x22] @ ''name'' @ [CHR 0x22] @
       '': '' @ [CHR 0x22] @ ''demo'' @ [CHR 0x22] @ '', '' @ [CHR 0x22] @ ''namespace'' @ [CHR 0x22] @
       '': '' @ [CHR 0x22] @ ''default'' @ [CHR 0x22] @ ''}''] []"
proof
  obtain rq where rq: "cli_build id ''u'' (demo_arguments Delete) = Inr rq"
    "body_fits (max_request_bytes (ax_settings demo_api)) rq"
    using demo_request [of Delete] by auto
  note seg = label_segment [OF demo_labels(1)] label_segment [OF demo_labels(2)]
  show "demo_session Delete = map_prod (cli_outcome id (demo_arguments Delete)) id
     (endpoint_call demo_api demo_around DeleteDeployment
        [(''namespace'', ''default''), (''name'', ''demo'')] (\<lambda>_. None) None JNull
        (demo_db_v1, empty_cluster, Map.empty))"
    using cli_command_is_endpoint_call [OF demo_web demo_settled(1,2) seg rq]
    unfolding demo_session_def
    by (simp add: demo_arguments_def cli_endpoint_def command_body_def cli_payload_def)
next
  show "fst (demo_session Delete) =
     Exit 0 [''{'' @ [CHR 0x22] @ ''deleted'' @ [CHR 0x22] @ '': true, '' @ [CHR 0x22] @ ''name'' @ [CHR 0x22] @
       '': '' @ [CHR 0x22] @ ''demo'' @ [CHR 0x22] @ '', '' @ [CHR 0x22] @ ''namespace'' @ [CHR 0x22] @
       '': '' @ [CHR 0x22] @ ''default'' @ [CHR 0x22] @ ''}''] []"
    by code_simp
qed

text \<open>
  (C6) From the command line to the cluster. When \<open>kernexysctl deploy\<close> asks for a deployment that the
  API accepts, under valid names, it ends in one of two ways. With exit status 0 the named version is
  registered, right after the patch request the object of that name in the cluster carries its image
  and everything that was asked for, and what is printed is the object the cluster has at the end. That
  object carries the request too, with the registered image and the requested replicas, unless another
  process changed it between the patch that created it and the read that follows such a patch. With
  exit status 1 nothing is printed but one message. A version that is not registered is reported as
  such and leaves everything as it was.
\<close>

theorem cli_deploy_end_to_end:
  assumes "web_framework (ax_framework A)" and "docs_only (ax_docs A)" and "renders_json A"
    and "k8s_server K objs" and "pydantic_lax (ax_pydantic A)" and "ax_gateway A = Some K"
    and "dns_label (arg_namespace a)" and "dns_label (arg_name a)"
    and "upsert_ok d" and "cmd a = deploy_command d"
    and "cli_build fr uuid a = Inr rq" and "body_fits (max_request_bytes (ax_settings A)) rq"
    and "cli_session fr py_str A N files (rstrip_slash (api_url a)) uuid a (s, k, r) = (out, s', k', r')"
  shows "r' = r \<and>
    ((\<exists>row t written obj rd. out = Exit 0 [json_print fr indented_layout 0 (deployment_json rd)] [] \<and>
        sel_version (ax_db A) (du_model d) (du_version d) s' = Some row \<and>
        t = after_patch K (su_cluster N) (arg_namespace a) (arg_name a)
          (desired_resource (arg_namespace a) (arg_name a) d (v_runtime_image row) (v_artifact_digest row) JNull) k \<and>
        objs t (arg_namespace a, arg_name a) = Some written \<and>
        carries written (desired_resource (arg_namespace a) (arg_name a) d (v_runtime_image row)
          (v_artifact_digest row) JNull) \<and>
        (k' = t \<or> k' = fst (su_cluster N 1) t) \<and>
        objs k' (arg_namespace a, arg_name a) = Some obj \<and> resource_to_read (ax_pydantic A) obj = Inr rd \<and>
        (objs (fst (su_cluster N 1) t) (arg_namespace a, arg_name a) = objs t (arg_namespace a, arg_name a) \<longrightarrow>
           carries obj (desired_resource (arg_namespace a) (arg_name a) d (v_runtime_image row)
             (v_artifact_digest row) JNull) \<and>
           sr_runtime_image (rd_spec rd) = v_runtime_image row \<and> sr_replicas (rd_spec rd) = du_replicas d)) \<or>
     (\<exists>message. out = Exit 1 [] [message])) \<and>
    (su_db N 0 = (id, Delivered) \<and> sel_version (ax_db A) (du_model d) (du_version d) s = None \<longrightarrow>
       out = Exit 1 [] [api_message (version_not_found (du_model d) (du_version d))] \<and>
       (s', k', r') = (s, k, r))"
proof -
  have body: "DeploymentUpsert (ax_pydantic A) (command_body (cmd a)) = Inr d"
    using deploy_body_upsert [OF assms(5,9)] assms(10) by simp
  note names = label_name [OF assms(7)] label_name [OF assms(8)]
  obtain result s1 k1 where put: "put_deployment (ax_pydantic A) (ax_db A) (Some K) (su_db N 0) (su_cluster N)
      (arg_namespace a) (arg_name a) (command_body (cmd a)) (s, k) = (result, s1, k1)"
    by (metis prod.collapse)
  from deploy_session [OF assms(1-3,6-8,10-12) put, of py_str files r] assms(13)
  have out: "out = cli_outcome fr a (map_sum id (json_ok deployment_json) result)" "s' = s1" "k' = k1" "r' = r"
    by simp_all
  have failed: "\<exists>message. out = Exit 1 [] [message]" if "result = Inl e" for e
    using that outcome_error out(1) by simp
  have missing: "out = Exit 1 [] [api_message (version_not_found (du_model d) (du_version d))] \<and>
      (s', k', r') = (s, k, r)"
    if "su_db N 0 = (id, Delivered)" "sel_version (ax_db A) (du_model d) (du_version d) s = None"
    using put_unregistered [OF body names that(2), of K "su_cluster N" k] put out that(1)
    by (auto simp: version_not_found_def)
  show ?thesis
  proof (cases result)
    case (Inl e)
    then show ?thesis using failed missing out(4) by blast
  next
    case (Inr rd)
    obtain row obj where v: "get_version (ax_db A) (su_db N 0) (du_model d) (du_version d) s = (Inr (Some row), s1)"
      and ap: "gw_apply K (su_cluster N) (arg_namespace a) (arg_name a) (desired_resource (arg_namespace a)
        (arg_name a) d (v_runtime_image row) (v_artifact_digest row) JNull) k = (Inr obj, k1)"
      and rd: "resource_to_read (ax_pydantic A) obj = Inr rd"
      using put_deployment_success [OF put [unfolded Inr] names] body by auto
    note g = k8s_server.gw_apply_Inr [OF assms(4) ap]
    have "out = Exit 0 [json_print fr indented_layout 0 (deployment_json rd)] []"
      using out(1) Inr by (simp add: json_ok_def)
    moreover have "carries obj (desired_resource (arg_namespace a) (arg_name a) d (v_runtime_image row)
        (v_artifact_digest row) JNull) \<longrightarrow>
        sr_runtime_image (rd_spec rd) = v_runtime_image row \<and> sr_replicas (rd_spec rd) = du_replicas d"
      using carries_read [OF _ rd assms(5)] by blast
    ultimately show ?thesis
      using get_version_Some [OF v] g rd missing out(2-4) by blast
  qed
qed

definition demo_put :: "(exc + deployment_read) \<times> mem_db \<times> mem_cluster" where
  "demo_put = put_deployment plain_pydantic mem_sql (Some mem_k8s) (id, Delivered) calm ''default'' ''demo''
     (command_body (deploy_command demo_deployment)) (demo_db_v1, empty_cluster)"

lemma demo_deployed: "case fst demo_put of Inl _ \<Rightarrow> False | Inr rd \<Rightarrow> rd_name rd = ''demo''"
  by code_simp

theorem cli_deploy_end_to_end_witness:
  "\<exists>out s' k' r' row obj. demo_session (deploy_command demo_deployment) = (out, s', k', r') \<and>
     (\<exists>text. out = Exit 0 [text] []) \<and> sel_version mem_sql ''sentiment'' ''v1'' s' = Some row \<and>
     map_of (cl_objects k') (''default'', ''demo'') = Some obj \<and>
     carries obj (desired_resource ''default'' ''demo'' demo_deployment (v_runtime_image row)
       (v_artifact_digest row) JNull)"
proof -
  let ?a = "demo_arguments (deploy_command demo_deployment)"
  obtain rq where rq: "cli_build id ''u'' ?a = Inr rq" "body_fits (max_request_bytes (ax_settings demo_api)) rq"
    using demo_request [of "deploy_command demo_deployment"] by auto
  obtain rd s1 k1 where put: "demo_put = (Inr rd, s1, k1)"
    using demo_deployed by (metis (no_types, lifting) old.sum.exhaust prod.collapse sum.case(1))
  have c: "cmd ?a = deploy_command demo_deployment" "arg_namespace ?a = ''default''" "arg_name ?a = ''demo''"
    by (simp_all add: demo_arguments_def)
  have g: "ax_gateway demo_api = Some mem_k8s" "pydantic_lax (ax_pydantic demo_api)"
    "fst (su_cluster demo_around 1) = id" "su_db demo_around 0 = (id, Delivered)" "ax_db demo_api = mem_sql"
    "su_cluster demo_around = calm" "ax_pydantic demo_api = plain_pydantic"
    using plain.pydantic_lax_axioms by (simp_all add: demo_api_def demo_around_def calm_def undisturbed_def)
  have d: "upsert_ok demo_deployment" by code_simp
  have out: "demo_session (deploy_command demo_deployment) =
      (cli_outcome id ?a (map_sum id (json_ok deployment_json) (Inr rd)), s1, k1, Map.empty)"
    using deploy_session [OF demo_web demo_settled(1,2) g(1) demo_labels c(1) rq, of demo_around demo_db_v1
        empty_cluster "Inr rd" s1 k1] put
    unfolding demo_session_def demo_put_def c g by blast
  obtain row obj where "sel_version mem_sql ''sentiment'' ''v1'' s1 = Some row"
    "map_of (cl_objects k1) (''default'', ''demo'') = Some obj"
    "carries obj (desired_resource ''default'' ''demo'' demo_deployment (v_runtime_image row)
       (v_artifact_digest row) JNull)"
    using cli_deploy_end_to_end [OF demo_web demo_settled(1,2) mem_k8s.k8s_server_axioms g(2,1) demo_labels d c(1) rq
        out [unfolded demo_session_def]] g(3) unfolding c g
    by (auto simp: json_ok_def demo_deployment_def sample_upsert_def)
  then show ?thesis using out by (auto simp: json_ok_def)
qed

end
