(* ===== verification/Processes.thy ===== *)
theory Processes
  imports Worker_Tasks Migration_Env Cli_Api Runtime_App
begin

text \<open>
  How the processes start: the control API (\<open>app/__main__.py\<close>, which serves \<open>create_app()\<close> of
  \<open>app/main.py\<close>), the worker (\<open>app/worker.py\<close>), the migrations (\<open>migrations/env.py\<close>) and the
  runtime (\<open>runtime_app/__main__.py\<close>). The server, the Redis client and the Kubernetes client are
  what they are constructed with.
\<close>

section \<open>Connections\<close>

text \<open>What \<open>RedisInferenceQueue.create\<close> passes to the Redis client, and the queue object it builds.\<close>

record redis_options =
  rc_url :: string
  rc_decode_responses :: bool
  rc_socket_connect_timeout :: int
  rc_socket_timeout :: int
  rc_health_check_interval :: int

definition create_queue :: "string \<Rightarrow> int \<Rightarrow> int \<Rightarrow> int \<Rightarrow> int \<Rightarrow> redis_options \<times> inference_queue" where
  "create_queue url capacity job_ttl_seconds socket_timeout_seconds recovery_lock_seconds =
     (\<lparr> rc_url = url, rc_decode_responses = True, rc_socket_connect_timeout = socket_timeout_seconds,
        rc_socket_timeout = socket_timeout_seconds, rc_health_check_interval = 30 \<rparr>,
      \<lparr> iq_capacity = capacity, iq_job_ttl_seconds = job_ttl_seconds,
        iq_recovery_lock_seconds = recovery_lock_seconds \<rparr>)"

text \<open>The queue of the control API, with the default lock time, and the queue of the worker.\<close>

definition api_queue :: "settings \<Rightarrow> redis_options \<times> inference_queue" where
  "api_queue st =
     create_queue (redis_url st) (async_queue_capacity st) (async_job_ttl_seconds st)
       (redis_socket_timeout_seconds st) 60"

definition run_worker_queue :: "settings \<Rightarrow> redis_options \<times> inference_queue" where
  "run_worker_queue st =
     create_queue (redis_url st) (async_queue_capacity st) (async_job_ttl_seconds st)
       (redis_socket_timeout_seconds st) (recovery_lease_seconds (async_inference_timeout_seconds st))"

section \<open>The control API\<close>

text \<open>
  \<open>create_app\<close> before the first request: the settings handed in or read, logging, the engine it
  creates unless one is handed in, the limit on bodies and the routes.
\<close>

record control_application =
  ca_settings :: settings
  ca_logging :: logging_state
  ca_engine :: "(string \<times> engine_option list) option"
  ca_max_bytes :: int
  ca_routes :: "endpoint route list"

definition create_app ::
  "endpoint route list \<Rightarrow> environ \<Rightarrow> settings option \<Rightarrow> bool \<Rightarrow> logging_state \<Rightarrow> string + control_application" where
  "create_app docs env given engine_given ls =
     bind_result (case given of Some st \<Rightarrow> Inr st | None \<Rightarrow> from_env env) (\<lambda>st.
     Inr \<lparr> ca_settings = st, ca_logging = create_app_logging st ls,
           ca_engine = (if engine_given then None else Some (create_database_engine st)),
           ca_max_bytes = max_request_bytes st, ca_routes = app_routes docs st \<rparr>)"

text \<open>The options of the server; \<open>uo_log_config\<close> says whether it sets up logging itself.\<close>

record uvicorn_options =
  uo_app :: string
  uo_host :: string
  uo_port :: int
  uo_limit_concurrency :: int
  uo_timeout_keep_alive :: int
  uo_timeout_graceful_shutdown :: int
  uo_log_config :: bool
  uo_access_log :: bool

definition control_options :: "settings \<Rightarrow> uvicorn_options" where
  "control_options st =
     \<lparr> uo_app = ''app.main:app'', uo_host = server_host st, uo_port = server_port st,
       uo_limit_concurrency = server_limit_concurrency st,
       uo_timeout_keep_alive = server_timeout_keep_alive_seconds st,
       uo_timeout_graceful_shutdown = server_timeout_graceful_shutdown_seconds st,
       uo_log_config = False, uo_access_log = True \<rparr>"

text \<open>
  \<open>main\<close> reads the settings for the server; importing \<open>app.main\<close> calls \<open>create_app()\<close>, which reads
  them again from the same environment.
\<close>

definition control_main ::
  "endpoint route list \<Rightarrow> environ \<Rightarrow> logging_state \<Rightarrow> string + uvicorn_options \<times> control_application" where
  "control_main docs env ls =
     bind_result (from_env env) (\<lambda>st.
     bind_result (create_app docs env None False (import_app ls)) (\<lambda>app.
     Inr (control_options st, app)))"

section \<open>The runtime\<close>

definition runtime_options :: "runtime_settings \<Rightarrow> uvicorn_options" where
  "runtime_options st =
     \<lparr> uo_app = ''runtime_app.main:app'', uo_host = rs_server_host st, uo_port = rs_server_port st,
       uo_limit_concurrency = rs_server_limit_concurrency st,
       uo_timeout_keep_alive = rs_server_timeout_keep_alive_seconds st,
       uo_timeout_graceful_shutdown = rs_server_timeout_graceful_shutdown_seconds st,
       uo_log_config = True, uo_access_log = False \<rparr>"

definition runtime_main :: "environ \<Rightarrow> string + uvicorn_options \<times> runtime_settings" where
  "runtime_main env =
     bind_result (runtime_from_env env) (\<lambda>st.
     bind_result (runtime_from_env env) (\<lambda>st'. Inr (runtime_options st, st')))"

section \<open>What the processes share\<close>

definition bounded :: "uvicorn_options \<Rightarrow> bool" where
  "bounded u \<longleftrightarrow> 0 < uo_port u \<and> 0 < uo_limit_concurrency u \<and> 0 < uo_timeout_keep_alive u \<and>
     0 < uo_timeout_graceful_shutdown u"

lemma control_main_iff:
  "control_main docs env ls = Inr (u, app) \<longleftrightarrow>
     (\<exists>st. from_env env = Inr st \<and> u = control_options st \<and>
        app = \<lparr> ca_settings = st, ca_logging = create_app_logging st (import_app ls),
          ca_engine = Some (create_database_engine st), ca_max_bytes = max_request_bytes st,
          ca_routes = app_routes docs st \<rparr>)"
  by (auto simp: control_main_def create_app_def bind_result_Inr_iff)

lemma control_bounded: "from_env env = Inr st \<Longrightarrow> bounded (control_options st)"
  using from_env_ok [of env st] by (simp add: bounded_def control_options_def settings_ok_def int_fields_def)

text \<open>The routes of the API use the capacity and the retention of their queue, not its lock.\<close>

lemma enqueue_queue:
  "iq_capacity Q = iq_capacity Q' \<Longrightarrow> iq_job_ttl_seconds Q = iq_job_ttl_seconds Q' \<Longrightarrow>
     enqueue R fr Q l i v s = enqueue R fr Q' l i v s"
  by (simp add: enqueue_def)

lemma and_then_pair: "and_then (Inr x, w) f = f x w"
  by (simp add: and_then_def)

lemma routes_ignore_lock:
  assumes "iq_capacity Q = iq_capacity Q'" "iq_job_ttl_seconds Q = iq_job_ttl_seconds Q'"
  shows "enqueue_job fr sha g (Some \<lparr> qh_redis = R, qh_queue = Q \<rparr>) a l uuid ns n body key w =
      enqueue_job fr sha g (Some \<lparr> qh_redis = R, qh_queue = Q' \<rparr>) a l uuid ns n body key w"
    and "get_job (Some \<lparr> qh_redis = R, qh_queue = Q \<rparr>) l i r = get_job (Some \<lparr> qh_redis = R, qh_queue = Q' \<rparr>) l i r"
  by (simp_all add: enqueue_job_def get_job_def queue_of_def and_then_pair enqueue_queue [OF assms(1,2)])

lemma queues_agree:
  "fst (api_queue st) = fst (run_worker_queue st)"
  "iq_capacity (snd (api_queue st)) = iq_capacity (snd (run_worker_queue st))"
  "iq_job_ttl_seconds (snd (api_queue st)) = iq_job_ttl_seconds (snd (run_worker_queue st))"
  by (simp_all add: api_queue_def run_worker_queue_def create_queue_def)

text \<open>
  One environment configures all processes alike. If the settings refuse an environment, the
  API, the worker and the migrations end with the same message before anything is started. If they
  accept it, the API and the worker start, and fit together: they connect to the same Redis with the
  same options, so that submitting and polling through the API's queue object is the same as through
  the worker's own; the worker takes a claim back only after twice the time limit of its call to
  the runtime; the API migrates and serves the same database; and the server's limits are positive.
\<close>

theorem processes_agree:
  "case from_env env of
     Inl message \<Rightarrow>
       control_main docs env ls = Inl message \<and> worker_main env ls s = Inl message \<and>
       (\<exists>events. migration_env M env opts cat = (Inl (SettingsError message), events) \<and>
          set events \<subseteq> {LoggingConfigured})
   | Inr st \<Rightarrow>
       (\<exists>u app w. control_main docs env ls = Inr (u, app) \<and> worker_main env ls s = Inr w \<and>
          bounded u \<and> map_option fst (ca_engine app) = Some (database_url st) \<and>
          fst (api_queue st) = fst (run_worker_queue st) \<and> ws_queue w = snd (run_worker_queue st) \<and>
          2 * async_inference_timeout_seconds st \<le> iq_recovery_lock_seconds (ws_queue w) \<and>
          (\<forall>R fr sha g a l uuid ns n body key v.
             enqueue_job fr sha g (Some \<lparr> qh_redis = R, qh_queue = snd (api_queue st) \<rparr>) a l uuid ns n body key v =
             enqueue_job fr sha g (Some \<lparr> qh_redis = R, qh_queue = ws_queue w \<rparr>) a l uuid ns n body key v) \<and>
          (\<forall>R l i r. get_job (Some \<lparr> qh_redis = R, qh_queue = snd (api_queue st) \<rparr>) l i r =
             get_job (Some \<lparr> qh_redis = R, qh_queue = ws_queue w \<rparr>) l i r))"
proof (cases "from_env env")
  case (Inl message)
  then show ?thesis
    by (cases "config_file_name M")
      (simp_all add: control_main_def worker_main_def migration_env_def configure_url_def Let_def)
next
  case (Inr st)
  obtain w where w: "worker_main env ls s = Inr w" "ws_queue w = snd (run_worker_queue st)"
    by (simp add: worker_main_def Inr run_worker_queue_def create_queue_def worker_queue_def)
  have "2 * async_inference_timeout_seconds st \<le> iq_recovery_lock_seconds (ws_queue w)"
    by (simp add: w run_worker_queue_def create_queue_def recovery_lease_seconds_def)
  moreover obtain u app where "control_main docs env ls = Inr (u, app)" "bounded u"
    "map_option fst (ca_engine app) = Some (database_url st)"
    using Inr control_bounded [OF Inr] by (auto simp: control_main_iff create_database_engine_def)
  ultimately show ?thesis
    using w queues_agree(1) [of st] routes_ignore_lock [OF queues_agree(2,3) [of st]]
    unfolding Inr sum.case by (metis (no_types, lifting))
qed

end
