(* ===== verification/Cli_Args.thy ===== *)
theory Cli_Args
  imports Cli Config
begin

text \<open>
  The command line of \<open>kernexysctl\<close>: the parser that \<open>build_parser\<close> of \<open>app/cli.py\<close> sets up and what
  argparse does with it. Option strings are recognised exactly, with a value after an equals sign, or
  by an unambiguous prefix; options and positionals are consumed from left to right; a subcommand
  takes everything that follows it. The behaviour is that of Python 3.13, the version of the image. The
  text of help and error messages is not modelled, and a command line with one of the few strings that
  the releases of argparse read differently has no meaning here (\<open>version_dependent\<close>). The properties say
  that a command line can express every request, and that parsing leaves nothing unset that is read.
\<close>

section \<open>Options\<close>

text \<open>The namespace that parsing fills; \<open>None\<close> is Python's \<open>None\<close>.\<close>

record cli_namespace =
  ns_api_url :: string
  ns_timeout :: rat
  ns_command :: "string option"
  ns_name :: "string option"
  ns_namespace :: string
  ns_model :: "string option"
  ns_version :: "string option"
  ns_replicas :: int
  ns_port :: int
  ns_request :: "string list"
  ns_limit :: "string list"

datatype usage_error =
    Ambiguous string
  | ExpectedOneArgument string
  | IgnoredExplicitArgument string string
  | InvalidInt string
  | InvalidFloat string
  | InvalidChoice string
  | MissingRequired "string list"
  | Unrecognized "string list"

text \<open>
  How parsing stops early: the help text is printed, or the usage with an error. The last constructor
  is no outcome of the program: it marks the command lines that are outside the model.
\<close>

datatype parse_stop = HelpShown | Usage usage_error | OutsideModel

text \<open>
  An option: its strings, whether it is required, and what its value does to the namespace; an option
  without such a function takes no value and shows the help.
\<close>

record cli_option =
  co_strings :: "string list"
  co_required :: bool
  co_store :: "(string \<Rightarrow> cli_namespace \<Rightarrow> usage_error + cli_namespace) option"

definition help_option :: cli_option where
  "help_option = \<lparr> co_strings = [''-h'', ''--help''], co_required = False, co_store = None \<rparr>"

definition stored_text :: "string \<Rightarrow> bool \<Rightarrow> (string \<Rightarrow> cli_namespace \<Rightarrow> cli_namespace) \<Rightarrow> cli_option" where
  "stored_text option_string required f =
     \<lparr> co_strings = [option_string], co_required = required, co_store = Some (\<lambda>v ns. Inr (f v ns)) \<rparr>"

definition stored_int :: "string \<Rightarrow> (int \<Rightarrow> cli_namespace \<Rightarrow> cli_namespace) \<Rightarrow> cli_option" where
  "stored_int option_string f =
     \<lparr> co_strings = [option_string], co_required = False,
       co_store = Some (\<lambda>v ns. case py_int v of None \<Rightarrow> Inl (InvalidInt v) | Some n \<Rightarrow> Inr (f n ns)) \<rparr>"

text \<open>\<open>float(text)\<close> is a parameter; texts of values that are not finite are outside the model.\<close>

definition stored_float ::
  "(string \<Rightarrow> rat option) \<Rightarrow> string \<Rightarrow> (rat \<Rightarrow> cli_namespace \<Rightarrow> cli_namespace) \<Rightarrow> cli_option" where
  "stored_float py_float option_string f =
     \<lparr> co_strings = [option_string], co_required = False,
       co_store = Some (\<lambda>v ns. case py_float v of None \<Rightarrow> Inl (InvalidFloat v) | Some t \<Rightarrow> Inr (f t ns)) \<rparr>"

section \<open>The parser\<close>

definition top_options :: "(string \<Rightarrow> rat option) \<Rightarrow> cli_option list" where
  "top_options py_float =
     [help_option,
      stored_text ''--api-url'' False (\<lambda>v ns. ns\<lparr> ns_api_url := v \<rparr>),
      stored_float py_float ''--timeout'' (\<lambda>t ns. ns\<lparr> ns_timeout := t \<rparr>)]"

definition namespace_option :: cli_option where
  "namespace_option = stored_text ''--namespace'' False (\<lambda>v ns. ns\<lparr> ns_namespace := v \<rparr>)"

definition deploy_options :: "cli_option list" where
  "deploy_options =
     [help_option, namespace_option,
      stored_text ''--model'' True (\<lambda>v ns. ns\<lparr> ns_model := Some v \<rparr>),
      stored_text ''--version'' True (\<lambda>v ns. ns\<lparr> ns_version := Some v \<rparr>),
      stored_int ''--replicas'' (\<lambda>n ns. ns\<lparr> ns_replicas := n \<rparr>),
      stored_int ''--port'' (\<lambda>n ns. ns\<lparr> ns_port := n \<rparr>),
      stored_text ''--request'' False (\<lambda>v ns. ns\<lparr> ns_request := ns_request ns @ [v] \<rparr>),
      stored_text ''--limit'' False (\<lambda>v ns. ns\<lparr> ns_limit := ns_limit ns @ [v] \<rparr>)]"

definition identity_options :: "cli_option list" where
  "identity_options = [help_option, namespace_option]"

definition rollback_options :: "cli_option list" where
  "rollback_options =
     [help_option, namespace_option, stored_text ''--version'' True (\<lambda>v ns. ns\<lparr> ns_version := Some v \<rparr>)]"

definition command_options :: "string \<Rightarrow> cli_option list option" where
  "command_options = map_of
     [(''deploy'', deploy_options), (''status'', identity_options), (''delete'', identity_options),
      (''rollback'', rollback_options)]"

text \<open>The defaults; the one of \<open>--api-url\<close> is read from the environment.\<close>

definition default_namespace :: "environ \<Rightarrow> cli_namespace" where
  "default_namespace env =
     \<lparr> ns_api_url = getenv env ''KERNEXYS_API_URL'' ''http://127.0.0.1:8000'', ns_timeout = 10,
       ns_command = None, ns_name = None, ns_namespace = ''default'', ns_model = None, ns_version = None,
       ns_replicas = 1, ns_port = 8080, ns_request = [], ns_limit = [] \<rparr>"

section \<open>Recognising options\<close>

text \<open>
  A reading of an argument as an option: the option (none when it is unknown), the option string it
  stands for, whether an equals sign separates the value, and the value in the same argument.
\<close>

type_synonym reading = "cli_option option \<times> string \<times> bool \<times> string option"

datatype arg_class = Argument | Option "reading list"

definition option_strings :: "cli_option list \<Rightarrow> (string \<times> cli_option) list" where
  "option_strings opts = concat (map (\<lambda>x. map (\<lambda>t. (t, x)) (co_strings x)) opts)"

text \<open>\<open>str.partition('=')\<close>: the text before the first equals sign, and the text after it if there is one.\<close>

definition split_equals :: "string \<Rightarrow> string \<times> string option" where
  "split_equals s =
     (let (before, sep, after) = py_partition (CHR ''='') s in
      (before, if sep = [] then None else Some after))"

definition prefix_of :: "string \<Rightarrow> string \<Rightarrow> bool" where
  "prefix_of p s \<longleftrightarrow> take (length p) s = p"

definition get_option_tuples :: "cli_option list \<Rightarrow> string \<Rightarrow> reading list" where
  "get_option_tuples opts s =
     (if take 2 s = ''--'' then
        (let (p, explicit) = split_equals s in
         map (\<lambda>(t, x). (Some x, t, explicit \<noteq> None, explicit))
           (filter (\<lambda>(t, x). prefix_of p t) (option_strings opts)))
      else
        map (\<lambda>(t, x). if t = take 2 s then (Some x, t, False, Some (drop 2 s)) else (Some x, t, False, None))
          (filter (\<lambda>(t, x). t = take 2 s \<or> prefix_of s t) (option_strings opts)))"

text \<open>\<open>^-\d+$|^-\d*\.\d+$\<close>; the end of the pattern also matches before a final line break.\<close>

definition negative_number_like :: "string \<Rightarrow> bool" where
  "negative_number_like s =
     (case s of
        [] \<Rightarrow> False
      | c # cs \<Rightarrow>
          let cs = (if cs \<noteq> [] \<and> last cs = CHR 0x0A then butlast cs else cs);
              whole = takeWhile is_digit cs; rest = dropWhile is_digit cs in
          c = CHR ''-'' \<and>
          (whole \<noteq> [] \<and> rest = [] \<or>
           take 1 rest = ''.'' \<and> drop 1 rest \<noteq> [] \<and> list_all is_digit (drop 1 rest)))"

definition parse_optional :: "cli_option list \<Rightarrow> string \<Rightarrow> arg_class" where
  "parse_optional opts s =
     (if s = [] \<or> hd s \<noteq> CHR ''-'' then Argument
      else
        (case map_of (option_strings opts) s of
           Some x \<Rightarrow> Option [(Some x, s, False, None)]
         | None \<Rightarrow>
             if length s = 1 then Argument
             else
               (case (map_of (option_strings opts) (fst (split_equals s)), snd (split_equals s)) of
                  (Some x, Some explicit) \<Rightarrow> Option [(Some x, fst (split_equals s), True, Some explicit)]
                | _ \<Rightarrow>
                    if get_option_tuples opts s \<noteq> [] then Option (get_option_tuples opts s)
                    else if negative_number_like s \<or> CHR '' '' \<in> set s then Argument
                    else Option [(None, s, False, None)])))"

text \<open>
  A flag that takes no value and stands in one argument with more characters: they are further flags,
  or the rest is unknown. The help is the only such flag, so it is shown unless an error comes first.
\<close>

fun more_flags :: "string \<Rightarrow> bool \<Rightarrow> string \<Rightarrow> parse_stop" where
  "more_flags option_string sep [] = Usage (IgnoredExplicitArgument option_string [])"
| "more_flags option_string sep (c # cs) =
     (if sep \<or> c = CHR ''-'' then Usage (IgnoredExplicitArgument option_string (c # cs))
      else if c = CHR ''h'' then
        (case cs of
           [] \<Rightarrow> HelpShown
         | d # ds \<Rightarrow> if d = CHR ''='' then more_flags ''-h'' True ds else more_flags ''-h'' False (d # ds))
      else HelpShown)"

section \<open>Consuming arguments\<close>

text \<open>What is left to be done for the positionals: nothing, one name, or the command with its rest.\<close>

datatype positional =
    NoPositional
  | NamePositional
  | CommandPositional

text \<open>The state of the loop; an option is identified by its strings in what has been seen.\<close>

record parse_state =
  ps_namespace :: cli_namespace
  ps_positional :: positional
  ps_seen :: "string list list"
  ps_extras :: "string list"

definition see :: "cli_option \<Rightarrow> cli_namespace \<Rightarrow> parse_state \<Rightarrow> parse_state" where
  "see x ns st = st\<lparr> ps_namespace := ns, ps_seen := ps_seen st @ [co_strings x] \<rparr>"

definition unknown :: "string \<Rightarrow> parse_state \<Rightarrow> parse_state" where
  "unknown s st = st\<lparr> ps_extras := ps_extras st @ [s] \<rparr>"

definition use_error :: "usage_error + 'a \<Rightarrow> parse_stop + 'a" where
  "use_error r = (case r of Inl e \<Rightarrow> Inl (Usage e) | Inr x \<Rightarrow> Inr x)"

text \<open>
  The loop over the classified arguments. An option without a value in its own argument takes the next
  one, which must not look like an option. A command hands all that follows to \<open>sub\<close>, the parser of
  the subcommand, which returns the namespace and the arguments it did not recognise.
\<close>

function consume_args ::
  "(string list \<Rightarrow> cli_namespace \<Rightarrow> parse_stop + cli_namespace \<times> string list) \<Rightarrow> (string \<times> arg_class) list
     \<Rightarrow> parse_state \<Rightarrow> parse_stop + parse_state" where
  "consume_args sub [] st = Inr st"
| "consume_args sub ((s, Argument) # r) st =
     (case ps_positional st of
        NoPositional \<Rightarrow> consume_args sub r (unknown s st)
      | NamePositional \<Rightarrow>
          consume_args sub r (st\<lparr> ps_namespace := (ps_namespace st)\<lparr> ns_name := Some s \<rparr>,
            ps_positional := NoPositional \<rparr>)
      | CommandPositional \<Rightarrow>
          bind_result (sub (s # map fst r) (ps_namespace st)) (\<lambda>(ns, extras).
          Inr (st\<lparr> ps_namespace := ns, ps_positional := NoPositional, ps_extras := ps_extras st @ extras \<rparr>)))"
| "consume_args sub ((s, Option readings) # r) st =
     (case readings of
        [(None, t, sep, explicit)] \<Rightarrow> consume_args sub r (unknown s st)
      | [(Some x, t, sep, explicit)] \<Rightarrow>
          (case (co_store x, explicit) of
             (None, None) \<Rightarrow> Inl HelpShown
           | (None, Some v) \<Rightarrow>
               Inl (if take 2 t = ''--'' then Usage (IgnoredExplicitArgument t v) else more_flags t sep v)
           | (Some store, Some v) \<Rightarrow>
               bind_result (use_error (store v (ps_namespace st))) (\<lambda>ns. consume_args sub r (see x ns st))
           | (Some store, None) \<Rightarrow>
               (case r of
                  (v, Argument) # r' \<Rightarrow>
                    bind_result (use_error (store v (ps_namespace st))) (\<lambda>ns. consume_args sub r' (see x ns st))
                | _ \<Rightarrow> Inl (Usage (ExpectedOneArgument t))))
      | _ \<Rightarrow> Inl (Usage (Ambiguous s)))"
  by pat_completeness auto
termination by (relation "measure (\<lambda>(sub, r, st). length r)") auto

text \<open>The required options and positionals that were not seen, by name.\<close>

definition missing :: "cli_option list \<Rightarrow> parse_state \<Rightarrow> string list" where
  "missing opts st =
     (case ps_positional st of NoPositional \<Rightarrow> [] | NamePositional \<Rightarrow> [''name''] | CommandPositional \<Rightarrow> [''command'']) @
     map (\<lambda>x. hd (co_strings x))
       (filter (\<lambda>x. co_required x \<and> co_strings x \<notin> set (ps_seen st)) opts)"

definition parse_known_args ::
  "(string list \<Rightarrow> cli_namespace \<Rightarrow> parse_stop + cli_namespace \<times> string list) \<Rightarrow> cli_option list \<Rightarrow> positional
     \<Rightarrow> string list \<Rightarrow> cli_namespace \<Rightarrow> parse_stop + cli_namespace \<times> string list" where
  "parse_known_args sub opts p argv ns =
     bind_result (consume_args sub (map (\<lambda>s. (s, parse_optional opts s)) argv)
         \<lparr> ps_namespace = ns, ps_positional = p, ps_seen = [], ps_extras = [] \<rparr>) (\<lambda>st.
     if missing opts st \<noteq> [] then Inl (Usage (MissingRequired (missing opts st)))
     else Inr (ps_namespace st, ps_extras st))"

definition parse_command :: "string list \<Rightarrow> cli_namespace \<Rightarrow> parse_stop + cli_namespace \<times> string list" where
  "parse_command argv ns =
     (case argv of
        [] \<Rightarrow> Inl (Usage (MissingRequired [''command'']))
      | command # rest \<Rightarrow>
          (case command_options command of
             None \<Rightarrow> Inl (Usage (InvalidChoice command))
           | Some opts \<Rightarrow>
               parse_known_args (\<lambda>_ ns. Inr (ns, [])) opts NamePositional rest
                 (ns\<lparr> ns_command := Some command \<rparr>)))"

text \<open>
  A bare double dash, and an equals sign directly after the dashes: the releases of argparse since 3.11
  differ in what they do with these.
\<close>

definition version_dependent :: "string \<Rightarrow> bool" where
  "version_dependent s \<longleftrightarrow> s = ''--'' \<or> take 2 s = ''-='' \<or> take 3 s = ''--=''"

definition parse_args :: "(string \<Rightarrow> rat option) \<Rightarrow> environ \<Rightarrow> string list \<Rightarrow> parse_stop + cli_namespace" where
  "parse_args py_float env argv =
     (if list_ex version_dependent argv then Inl OutsideModel
      else
        bind_result (parse_known_args parse_command (top_options py_float) CommandPositional argv
          (default_namespace env)) (\<lambda>(ns, extras).
        if extras \<noteq> [] then Inl (Usage (Unrecognized extras)) else Inr ns))"

section \<open>The program\<close>

text \<open>The arguments \<open>run\<close> reads from the namespace; an attribute that is not there is an error.\<close>

definition arguments_of :: "cli_namespace \<Rightarrow> cli_arguments option" where
  "arguments_of ns =
     (case (ns_command ns, ns_name ns) of
        (Some command, Some name) \<Rightarrow>
          map_option (\<lambda>c. \<lparr> api_url = ns_api_url ns, timeout = ns_timeout ns, cmd = c, arg_name = name,
              arg_namespace = ns_namespace ns \<rparr>)
            (if command = ''deploy'' then
               (case (ns_model ns, ns_version ns) of
                  (Some m, Some v) \<Rightarrow>
                    Some (Deploy m v (ns_replicas ns) (ns_port ns) (ns_request ns) (ns_limit ns))
                | _ \<Rightarrow> None)
             else if command = ''delete'' then Some Delete
             else if command = ''rollback'' then map_option Rollback (ns_version ns)
             else Some Status)
      | _ \<Rightarrow> None)"

text \<open>
  \<open>main\<close>: exit status 0 after the help, 2 after a usage error, and otherwise that of \<open>run\<close>. \<open>help\<close> and
  \<open>usage\<close> are the texts argparse prints.
\<close>

definition cli_main ::
  "(string \<Rightarrow> string) \<Rightarrow> (json \<Rightarrow> string) \<Rightarrow> (string \<Rightarrow> rat option) \<Rightarrow> (string list \<Rightarrow> string) \<Rightarrow> (usage_error \<Rightarrow> string)
     \<Rightarrow> environ \<Rightarrow> string \<Rightarrow> string list \<Rightarrow> (cli_request \<Rightarrow> opened) \<Rightarrow> cli_result option" where
  "cli_main fr py_str py_float help usage env uuid argv opener =
     (case parse_args py_float env argv of
        Inl OutsideModel \<Rightarrow> None
      | Inl HelpShown \<Rightarrow> Some (Exit 0 [help argv] [])
      | Inl (Usage e) \<Rightarrow> Some (Exit 2 [] [usage e])
      | Inr ns \<Rightarrow>
          Some (case arguments_of ns of
                  None \<Rightarrow> Traceback AttributeError
                | Some a \<Rightarrow> cli_run fr py_str uuid a opener))"

section \<open>Values after an equals sign\<close>

text \<open>The argument that gives an option its value in one string.\<close>

definition given :: "string \<Rightarrow> string \<Rightarrow> string" where
  "given t v = t @ CHR ''='' # v"

definition no_equals :: "cli_option list \<Rightarrow> bool" where
  "no_equals opts \<longleftrightarrow> list_all (\<lambda>(t, x). CHR ''='' \<notin> set t) (option_strings opts)"

lemma split_equals_given: "CHR ''='' \<notin> set t \<Longrightarrow> split_equals (given t v) = (t, Some v)"
  using py_partition_flag [of "(t, v)"] by (simp add: split_equals_def given_def flag_def)

lemma parse_optional_given:
  assumes "no_equals opts" "map_of (option_strings opts) t = Some x" "take 1 t = ''-''"
  shows "parse_optional opts (given t v) = Option [(Some x, t, True, Some v)]"
proof -
  have t: "CHR ''='' \<notin> set t"
    using assms(1) map_of_SomeD [OF assms(2)] by (auto simp: no_equals_def list_all_iff)
  have "map_of (option_strings opts) (given t v) = None"
    using assms(1) by (fastforce simp: no_equals_def list_all_iff map_of_eq_None_iff given_def)
  moreover have "given t v \<noteq> []" "hd (given t v) = CHR ''-''" "length (given t v) \<noteq> 1"
    using assms(3) by (cases t; auto simp: given_def)+
  ultimately show ?thesis
    using split_equals_given [OF t, of v] assms(2) by (simp add: parse_optional_def)
qed

lemma consume_given:
  assumes "no_equals opts" "map_of (option_strings opts) t = Some x" "take 1 t = ''-''" "co_store x = Some store"
  shows "consume_args sub ((given t v, parse_optional opts (given t v)) # r) st =
    bind_result (use_error (store v (ps_namespace st))) (\<lambda>ns. consume_args sub r (see x ns st))"
  using parse_optional_given [OF assms(1-3)] assms(4) by simp

section \<open>Writing a command line\<close>

definition command_word :: "cli_command \<Rightarrow> string" where
  "command_word c = (case c of Deploy _ _ _ _ _ _ \<Rightarrow> ''deploy'' | Status \<Rightarrow> ''status'' | Delete \<Rightarrow> ''delete''
     | Rollback _ \<Rightarrow> ''rollback'')"

text \<open>A command line for given arguments, each value after an equals sign; \<open>ft\<close> writes the time limit.\<close>

definition command_flags :: "cli_command \<Rightarrow> string list" where
  "command_flags c =
     (case c of
        Deploy m v n p requests limits \<Rightarrow>
          [given ''--model'' m, given ''--version'' v, given ''--replicas'' (show_int n),
           given ''--port'' (show_int p)] @ map (given ''--request'') requests @ map (given ''--limit'') limits
      | Rollback v \<Rightarrow> [given ''--version'' v]
      | _ \<Rightarrow> [])"

definition command_line :: "(rat \<Rightarrow> string) \<Rightarrow> cli_arguments \<Rightarrow> string list" where
  "command_line ft a =
     [given ''--api-url'' (api_url a), given ''--timeout'' (ft (timeout a)), command_word (cmd a), arg_name a,
      given ''--namespace'' (arg_namespace a)] @ command_flags (cmd a)"

abbreviation classified :: "cli_option list \<Rightarrow> string list \<Rightarrow> (string \<times> arg_class) list" where
  "classified opts argv \<equiv> map (\<lambda>s. (s, parse_optional opts s)) argv"

lemmas table_defs = no_equals_def option_strings_def help_option_def namespace_option_def stored_text_def
  stored_int_def stored_float_def

lemma tables_plain:
  "no_equals (top_options py_float)" "no_equals deploy_options" "no_equals identity_options"
  "no_equals rollback_options"
  by (simp_all add: table_defs top_options_def deploy_options_def identity_options_def rollback_options_def)

lemma plain_argument: "s \<noteq> [] \<Longrightarrow> hd s \<noteq> CHR ''-'' \<Longrightarrow> parse_optional opts s = Argument"
  by (simp add: parse_optional_def)

text \<open>Giving an option the value in one argument changes the namespace by a function.\<close>

definition gives :: "cli_option list \<Rightarrow> string \<Rightarrow> string \<Rightarrow> (cli_namespace \<Rightarrow> cli_namespace) \<Rightarrow> bool" where
  "gives opts t v f \<longleftrightarrow> no_equals opts \<and> take 1 t = ''-'' \<and>
     (\<exists>x store. map_of (option_strings opts) t = Some x \<and> co_strings x = [t] \<and> co_store x = Some store \<and>
        (\<forall>ns. store v ns = Inr (f ns)))"

definition take_option :: "string \<Rightarrow> (cli_namespace \<Rightarrow> cli_namespace) \<Rightarrow> parse_state \<Rightarrow> parse_state" where
  "take_option t f st = st\<lparr> ps_namespace := f (ps_namespace st), ps_seen := ps_seen st @ [[t]] \<rparr>"

lemma gives_step:
  "gives opts t v f \<Longrightarrow>
     consume_args sub (classified opts (given t v # argv)) st = consume_args sub (classified opts argv) (take_option t f st)"
  by (auto simp: gives_def consume_given see_def take_option_def use_error_def)

lemma gives_all:
  assumes "\<And>v. gives opts t v (f v)"
  shows "consume_args sub (classified opts (map (given t) vs @ argv)) st =
    consume_args sub (classified opts argv) (fold (\<lambda>v. take_option t (f v)) vs st)"
proof (induction vs arbitrary: st)
  case (Cons v vs)
  then show ?case using gives_step [OF assms] by (simp only: list.map append_Cons fold_simps)
qed simp

lemma gives_top:
  "gives (top_options pf) ''--api-url'' v (\<lambda>ns. ns\<lparr> ns_api_url := v \<rparr>)"
  "pf u = Some t \<Longrightarrow> gives (top_options pf) ''--timeout'' u (\<lambda>ns. ns\<lparr> ns_timeout := t \<rparr>)"
  using tables_plain(1) [of pf] by (simp_all add: gives_def table_defs top_options_def)

lemma gives_deploy:
  "gives deploy_options ''--namespace'' v (\<lambda>ns. ns\<lparr> ns_namespace := v \<rparr>)"
  "gives deploy_options ''--model'' v (\<lambda>ns. ns\<lparr> ns_model := Some v \<rparr>)"
  "gives deploy_options ''--version'' v (\<lambda>ns. ns\<lparr> ns_version := Some v \<rparr>)"
  "py_int u = Some n \<Longrightarrow> gives deploy_options ''--replicas'' u (\<lambda>ns. ns\<lparr> ns_replicas := n \<rparr>)"
  "py_int u = Some n \<Longrightarrow> gives deploy_options ''--port'' u (\<lambda>ns. ns\<lparr> ns_port := n \<rparr>)"
  "gives deploy_options ''--request'' v (\<lambda>ns. ns\<lparr> ns_request := ns_request ns @ [v] \<rparr>)"
  "gives deploy_options ''--limit'' v (\<lambda>ns. ns\<lparr> ns_limit := ns_limit ns @ [v] \<rparr>)"
  using tables_plain(2) by (simp_all add: gives_def table_defs deploy_options_def)

lemma gives_identity:
  "gives identity_options ''--namespace'' v (\<lambda>ns. ns\<lparr> ns_namespace := v \<rparr>)"
  "gives rollback_options ''--namespace'' v (\<lambda>ns. ns\<lparr> ns_namespace := v \<rparr>)"
  "gives rollback_options ''--version'' v (\<lambda>ns. ns\<lparr> ns_version := Some v \<rparr>)"
  using tables_plain(3,4) by (simp_all add: gives_def table_defs identity_options_def rollback_options_def)

lemma take_lists:
  "fold (\<lambda>v. take_option t (\<lambda>ns. ns\<lparr> ns_request := ns_request ns @ [v] \<rparr>)) vs st =
     st\<lparr> ps_namespace := (ps_namespace st)\<lparr> ns_request := ns_request (ps_namespace st) @ vs \<rparr>,
         ps_seen := ps_seen st @ replicate (length vs) [t] \<rparr>"
  "fold (\<lambda>v. take_option t (\<lambda>ns. ns\<lparr> ns_limit := ns_limit ns @ [v] \<rparr>)) vs st =
     st\<lparr> ps_namespace := (ps_namespace st)\<lparr> ns_limit := ns_limit (ps_namespace st) @ vs \<rparr>,
         ps_seen := ps_seen st @ replicate (length vs) [t] \<rparr>"
  by (induction vs arbitrary: st) (simp_all add: take_option_def)

lemma name_step:
  assumes "s \<noteq> []" "hd s \<noteq> CHR ''-''" "ps_positional st = NamePositional"
  shows "consume_args sub (classified opts (s # argv)) st = consume_args sub (classified opts argv)
    (st\<lparr> ps_namespace := (ps_namespace st)\<lparr> ns_name := Some s \<rparr>, ps_positional := NoPositional \<rparr>)"
  using assms by (simp add: plain_argument)

lemma parse_deploy:
  assumes "name \<noteq> []" "hd name \<noteq> CHR ''-''" "py_int (show_int n) = Some n" "py_int (show_int p) = Some p"
  shows "parse_command (''deploy'' # name # given ''--namespace'' ns # command_flags (Deploy m v n p rq li)) N =
    Inr (N\<lparr> ns_command := Some ''deploy'', ns_name := Some name, ns_namespace := ns, ns_model := Some m,
      ns_version := Some v, ns_replicas := n, ns_port := p, ns_request := ns_request N @ rq,
      ns_limit := ns_limit N @ li \<rparr>, [])"
proof -
  have "consume_args (\<lambda>_ ns. Inr (ns, [])) (classified deploy_options
      (name # given ''--namespace'' ns # command_flags (Deploy m v n p rq li)))
      \<lparr> ps_namespace = N\<lparr> ns_command := Some ''deploy'' \<rparr>, ps_positional = NamePositional, ps_seen = [],
         ps_extras = [] \<rparr> =
    Inr \<lparr> ps_namespace = N\<lparr> ns_command := Some ''deploy'', ns_name := Some name, ns_namespace := ns,
        ns_model := Some m, ns_version := Some v, ns_replicas := n, ns_port := p,
        ns_request := ns_request N @ rq, ns_limit := ns_limit N @ li \<rparr>,
      ps_positional = NoPositional,
      ps_seen = [[''--namespace''], [''--model''], [''--version''], [''--replicas''], [''--port'']] @
        replicate (length rq) [''--request''] @ replicate (length li) [''--limit''], ps_extras = [] \<rparr>"
    unfolding command_flags_def cli_command.case append_Cons append_Nil
    apply (subst name_step [OF assms(1,2)], simp)
    apply (subst gives_step [OF gives_deploy(1)] gives_step [OF gives_deploy(2)]
        gives_step [OF gives_deploy(3)] gives_step [OF gives_deploy(4) [OF assms(3)]]
        gives_step [OF gives_deploy(5) [OF assms(4)]])+
    apply (subst gives_all [OF gives_deploy(6)])
    apply (subst append_Nil2 [of "map (given ''--limit'') li", symmetric], subst gives_all [OF gives_deploy(7)])
    apply (simp add: take_lists take_option_def)
    done
  then show ?thesis
    by (simp add: parse_command_def command_options_def parse_known_args_def missing_def deploy_options_def
        table_defs)
qed

lemma parse_identity:
  assumes "name \<noteq> []" "hd name \<noteq> CHR ''-''" "c = ''status'' \<or> c = ''delete''"
  shows "parse_command [c, name, given ''--namespace'' ns] N =
    Inr (N\<lparr> ns_command := Some c, ns_name := Some name, ns_namespace := ns \<rparr>, [])"
proof -
  have "consume_args (\<lambda>_ ns. Inr (ns, [])) (classified identity_options [name, given ''--namespace'' ns])
      \<lparr> ps_namespace = N\<lparr> ns_command := Some c \<rparr>, ps_positional = NamePositional, ps_seen = [], ps_extras = [] \<rparr> =
    Inr \<lparr> ps_namespace = N\<lparr> ns_command := Some c, ns_name := Some name, ns_namespace := ns \<rparr>,
      ps_positional = NoPositional, ps_seen = [[''--namespace'']], ps_extras = [] \<rparr>"
    by (subst name_step [OF assms(1,2)], simp, subst gives_step [OF gives_identity(1)])
      (simp add: take_option_def)
  moreover have "command_options c = Some identity_options" using assms(3) by (auto simp: command_options_def)
  ultimately show ?thesis
    by (simp add: parse_command_def parse_known_args_def missing_def identity_options_def table_defs)
qed

lemma parse_rollback:
  assumes "name \<noteq> []" "hd name \<noteq> CHR ''-''"
  shows "parse_command [''rollback'', name, given ''--namespace'' ns, given ''--version'' v] N =
    Inr (N\<lparr> ns_command := Some ''rollback'', ns_name := Some name, ns_namespace := ns, ns_version := Some v \<rparr>, [])"
proof -
  have "consume_args (\<lambda>_ ns. Inr (ns, [])) (classified rollback_options
      [name, given ''--namespace'' ns, given ''--version'' v])
      \<lparr> ps_namespace = N\<lparr> ns_command := Some ''rollback'' \<rparr>, ps_positional = NamePositional, ps_seen = [],
        ps_extras = [] \<rparr> =
    Inr \<lparr> ps_namespace = N\<lparr> ns_command := Some ''rollback'', ns_name := Some name, ns_namespace := ns,
        ns_version := Some v \<rparr>,
      ps_positional = NoPositional, ps_seen = [[''--namespace''], [''--version'']], ps_extras = [] \<rparr>"
    by (subst name_step [OF assms], simp, subst gives_step [OF gives_identity(2)],
        subst gives_step [OF gives_identity(3)]) (simp add: take_option_def)
  then show ?thesis
    by (simp add: parse_command_def command_options_def parse_known_args_def missing_def rollback_options_def
        table_defs)
qed

text \<open>The namespace of a command line, apart from the options before the command.\<close>

definition command_namespace :: "cli_arguments \<Rightarrow> cli_namespace \<Rightarrow> cli_namespace" where
  "command_namespace a N =
     (let N = N\<lparr> ns_command := Some (command_word (cmd a)), ns_name := Some (arg_name a),
            ns_namespace := arg_namespace a \<rparr> in
      case cmd a of
        Deploy m v n p rq li \<Rightarrow>
          N\<lparr> ns_model := Some m, ns_version := Some v, ns_replicas := n, ns_port := p,
             ns_request := ns_request N @ rq, ns_limit := ns_limit N @ li \<rparr>
      | Rollback v \<Rightarrow> N\<lparr> ns_version := Some v \<rparr>
      | _ \<Rightarrow> N)"

fun command_ints :: "cli_command \<Rightarrow> int list" where
  "command_ints (Deploy m v n p rq li) = [n, p]"
| "command_ints _ = []"

text \<open>What a command line can say: a name that is no option, and integers of at most 4300 digits.\<close>

definition writable :: "cli_arguments \<Rightarrow> bool" where
  "writable a \<longleftrightarrow> arg_name a \<noteq> [] \<and> hd (arg_name a) \<noteq> CHR ''-'' \<and>
     list_all (\<lambda>n. py_int (show_int n) = Some n) (command_ints (cmd a))"

lemma parse_command_line:
  assumes "writable a"
  shows "parse_command (command_word (cmd a) # arg_name a # given ''--namespace'' (arg_namespace a) #
      command_flags (cmd a)) N = Inr (command_namespace a N, [])"
proof (cases "cmd a")
  case (Deploy m v n p rq li)
  then show ?thesis
    using parse_deploy [of "arg_name a" n p "arg_namespace a" m v rq li N] assms
    by (simp add: writable_def command_word_def command_namespace_def)
next
  case (Rollback v)
  then show ?thesis
    using parse_rollback [of "arg_name a" "arg_namespace a" v N] assms
    by (simp add: writable_def command_word_def command_namespace_def command_flags_def)
qed (use assms parse_identity [of "arg_name a" _ "arg_namespace a" N] in
    \<open>simp_all add: writable_def command_word_def command_namespace_def command_flags_def\<close>)

lemma given_in_model: "t = CHR ''-'' # CHR ''-'' # c # cs \<Longrightarrow> c \<noteq> CHR ''='' \<Longrightarrow> \<not> version_dependent (given t v)"
  by (simp add: version_dependent_def given_def)

lemma argument_in_model: "hd s \<noteq> CHR ''-'' \<Longrightarrow> \<not> version_dependent s"
  by (cases s) (auto simp: version_dependent_def)

lemma command_line_in_model:
  assumes "writable a"
  shows "\<not> list_ex version_dependent (command_line ft a)"
proof -
  have "\<not> list_ex version_dependent (map (given t) vs)" if "t = CHR ''-'' # CHR ''-'' # c # cs" "c \<noteq> CHR ''=''"
    for t c cs vs using given_in_model [OF that] by (auto simp: list_ex_iff)
  then show ?thesis
    using assms given_in_model argument_in_model
    by (simp add: command_line_def command_flags_def command_word_def writable_def split: cli_command.split)
qed

lemma arguments_of_command_namespace:
  assumes "ns_request N = []" "ns_limit N = []" "ns_api_url N = api_url a" "ns_timeout N = timeout a"
  shows "arguments_of (command_namespace a N) = Some a"
  using assms by (cases "cmd a") (simp_all add: arguments_of_def command_namespace_def command_word_def)

lemma parse_args_command_line:
  assumes "writable a" "py_float (ft (timeout a)) = Some (timeout a)"
  shows "parse_args py_float env (command_line ft a) =
    Inr (command_namespace a ((default_namespace env)\<lparr> ns_api_url := api_url a, ns_timeout := timeout a \<rparr>))"
proof -
  let ?N = "(default_namespace env)\<lparr> ns_api_url := api_url a, ns_timeout := timeout a \<rparr>"
  have word: "parse_optional (top_options py_float) (command_word (cmd a)) = Argument"
    by (rule plain_argument) (simp_all add: command_word_def split: cli_command.split)
  have "consume_args parse_command (classified (top_options py_float) (command_line ft a))
      \<lparr> ps_namespace = default_namespace env, ps_positional = CommandPositional, ps_seen = [], ps_extras = [] \<rparr> =
    Inr \<lparr> ps_namespace = command_namespace a ?N, ps_positional = NoPositional,
      ps_seen = [[''--api-url''], [''--timeout'']], ps_extras = [] \<rparr>"
    unfolding command_line_def append_Cons append_Nil
    by (subst gives_step [OF gives_top(1)], subst gives_step [OF gives_top(2) [where pf = py_float, OF assms(2)]])
      (simp add: word take_option_def parse_command_line [OF assms(1)] comp_def)
  then show ?thesis
    using command_line_in_model [OF assms(1)]
    by (simp add: parse_args_def parse_known_args_def missing_def top_options_def table_defs)
qed

section \<open>What parsing guarantees\<close>

text \<open>The options an argument is read as are among those of the parser.\<close>

fun read_from :: "cli_option list \<Rightarrow> arg_class \<Rightarrow> bool" where
  "read_from opts Argument = True"
| "read_from opts (Option readings) = list_all (\<lambda>(x, _). \<forall>y. x = Some y \<longrightarrow> y \<in> set opts) readings"

lemma option_strings_sound: "(t, x) \<in> set (option_strings opts) \<Longrightarrow> x \<in> set opts"
  by (auto simp: option_strings_def)

lemma tuples_read_from: "list_all (\<lambda>(x, _). \<forall>y. x = Some y \<longrightarrow> y \<in> set opts) (get_option_tuples opts s)"
  by (auto simp: get_option_tuples_def list_all_iff split: prod.splits if_splits dest: option_strings_sound)

lemma parse_optional_read_from: "read_from opts (parse_optional opts s)"
  using tuples_read_from [of opts s]
  by (auto simp: parse_optional_def split: option.split dest!: map_of_SomeD dest: option_strings_sound)

lemma consume_optionE:
  assumes "consume_args sub ((s, Option readings) # q) st = Inr st'"
  obtains (unknown) t sep explicit where "readings = [(None, t, sep, explicit)]" "consume_args sub q (unknown s st) = Inr st'"
    | (known) x t sep e v store ns p where "readings = [(Some x, t, sep, e)]" "co_store x = Some store"
        "store v (ps_namespace st) = Inr ns" "p = q \<or> p = tl q" "consume_args sub p (see x ns st) = Inr st'"
proof -
  obtain x t sep e where one: "readings = [(x, t, sep, e)]"
    using assms by (auto split: list.splits option.splits)
  show thesis
  proof (cases x)
    case None
    then show ?thesis using assms one unknown by simp
  next
    case (Some y)
    obtain store where store: "co_store y = Some store"
      using assms one Some by (auto split: option.splits)
    obtain v ns p where "store v (ps_namespace st) = Inr ns" "p = q \<or> p = tl q" "consume_args sub p (see y ns st) = Inr st'"
    proof (cases e)
      case None
      obtain v q' where "q = (v, Argument) # q'"
        using assms one Some store None by (auto split: list.splits arg_class.splits)
      then show ?thesis
        using assms one Some store None that [of v _ q']
        by (auto simp: bind_result_Inr_iff use_error_def split: sum.splits)
    next
      case (Some v)
      then show ?thesis
        using assms one \<open>x = Some y\<close> store that [of v _ q]
        by (auto simp: bind_result_Inr_iff use_error_def split: sum.splits)
    qed
    then show ?thesis using known one Some store by blast
  qed
qed

text \<open>A predicate that every step of the loop keeps holds at its end.\<close>

lemma consume_invariant:
  assumes "consume_args sub r st = Inr st'" "I st" "\<forall>(s, c) \<in> set r. read_from opts c"
    and "\<And>st s. I st \<Longrightarrow> I (unknown s st)"
    and "\<And>st s. I st \<Longrightarrow> ps_positional st = NamePositional \<Longrightarrow>
      I (st\<lparr> ps_namespace := (ps_namespace st)\<lparr> ns_name := Some s \<rparr>, ps_positional := NoPositional \<rparr>)"
    and "\<And>st argv ns extras. I st \<Longrightarrow> ps_positional st = CommandPositional \<Longrightarrow>
      sub argv (ps_namespace st) = Inr (ns, extras) \<Longrightarrow>
      I (st\<lparr> ps_namespace := ns, ps_positional := NoPositional, ps_extras := ps_extras st @ extras \<rparr>)"
    and "\<And>st x store v ns. I st \<Longrightarrow> x \<in> set opts \<Longrightarrow> co_store x = Some store \<Longrightarrow>
      store v (ps_namespace st) = Inr ns \<Longrightarrow> I (see x ns st)"
  shows "I st'"
  using assms(1-3)
proof (induction r arbitrary: st rule: length_induct)
  case (1 r)
  have IH: "I st'" if "consume_args sub q u = Inr st'" "I u" "length q < length r" "set q \<subseteq> set r" for q u
    using 1(1,4) that by blast
  show ?case
  proof (cases r)
    case (Cons sc q)
    have q: "length q < length r" "set q \<subseteq> set r" using Cons by auto
    obtain s c where sc: "sc = (s, c)" by fastforce
    show ?thesis
    proof (cases c)
      case Argument
      show ?thesis
      proof (cases "ps_positional st")
        case NoPositional
        then show ?thesis using 1(2) Cons sc Argument IH [OF _ assms(4) [OF 1(3)] q] by simp
      next
        case NamePositional
        then show ?thesis using 1(2) Cons sc Argument IH [OF _ assms(5) [OF 1(3)] q] by simp
      next
        case CommandPositional
        then show ?thesis using 1(2,3) Cons sc Argument assms(6) by (auto simp: bind_result_Inr_iff)
      qed
    next
      case (Option readings)
      have from_opts: "read_from opts (Option readings)" using 1(4) Cons sc Option by auto
      from 1(2) have "consume_args sub ((s, Option readings) # q) st = Inr st'" using Cons sc Option by simp
      then show ?thesis
      proof (cases rule: consume_optionE)
        case unknown
        then show ?thesis using IH [OF _ assms(4) [OF 1(3)] q] by blast
      next
        case (known x t sep e v store ns p)
        have "x \<in> set opts" using from_opts known(1) by simp
        moreover have "length p < length r" "set p \<subseteq> set r"
          using q known(4) by (auto dest: list.set_sel(2) [rotated]) (cases q; auto)
        ultimately show ?thesis using IH [OF known(5) assms(7) [OF 1(3) _ known(2,3)]] by blast
      qed
    qed
  qed (use 1 in simp)
qed

text \<open>What a subcommand has filled in at any point of its loop, and at the end.\<close>

definition filled :: "string \<Rightarrow> parse_state \<Rightarrow> bool" where
  "filled c st \<longleftrightarrow> ns_command (ps_namespace st) = Some c \<and>
     (ps_positional st = NoPositional \<longrightarrow> ns_name (ps_namespace st) \<noteq> None) \<and>
     ps_positional st \<noteq> CommandPositional \<and>
     ([''--model''] \<in> set (ps_seen st) \<longrightarrow> ns_model (ps_namespace st) \<noteq> None) \<and>
     ([''--version''] \<in> set (ps_seen st) \<longrightarrow> ns_version (ps_namespace st) \<noteq> None)"

lemma deploy_stores:
  "\<forall>x \<in> set deploy_options. \<forall>store v N ns. co_store x = Some store \<longrightarrow> store v N = Inr ns \<longrightarrow>
     ns_command ns = ns_command N \<and> ns_name ns = ns_name N \<and>
     (ns_model N \<noteq> None \<or> co_strings x = [''--model''] \<longrightarrow> ns_model ns \<noteq> None) \<and>
     (ns_version N \<noteq> None \<or> co_strings x = [''--version''] \<longrightarrow> ns_version ns \<noteq> None)"
  by (simp add: deploy_options_def table_defs split: option.split)

lemma filled_option:
  assumes "filled c st" "x \<in> set deploy_options" "co_store x = Some store" "store v (ps_namespace st) = Inr ns"
  shows "filled c (see x ns st)"
  using assms(1) deploy_stores [rule_format, OF assms(2-4)] by (auto simp: filled_def see_def)

lemma filled_end:
  assumes "consume_args sub (classified opts argv) st = Inr st'" "filled c st" "set opts \<subseteq> set deploy_options"
  shows "filled c st'"
proof (rule consume_invariant [where I = "filled c" and opts = opts, OF assms(1,2)])
  show "\<forall>(s, c) \<in> set (classified opts argv). read_from opts c" using parse_optional_read_from by auto
next
  show "filled c (see x ns u)" if "filled c u" "x \<in> set opts" "co_store x = Some store"
    "store v (ps_namespace u) = Inr ns" for u x store v ns
    using filled_option [OF that(1) _ that(3,4)] that(2) assms(3) by blast
qed (auto simp: filled_def unknown_def)

definition fully_parsed :: "cli_namespace \<Rightarrow> bool" where
  "fully_parsed ns \<longleftrightarrow> (\<exists>a. arguments_of ns = Some a \<and> ns_command ns = Some (command_word (cmd a)))"

lemma command_optionsE:
  assumes "command_options c = Some opts"
  obtains "c = ''deploy''" "opts = deploy_options" | "c = ''status''" "opts = identity_options"
    | "c = ''delete''" "opts = identity_options" | "c = ''rollback''" "opts = rollback_options"
  using assms by (auto simp: command_options_def split: if_splits)

lemma missing_none:
  assumes "missing opts st = []"
  shows "ps_positional st = NoPositional" "\<forall>x \<in> set opts. co_required x \<longrightarrow> co_strings x \<in> set (ps_seen st)"
  using assms by (auto simp: missing_def filter_empty_conv split: positional.splits)

lemma parse_command_complete:
  assumes "parse_command argv N = Inr (ns, extras)"
  shows "fully_parsed ns"
proof -
  obtain c rest opts st where c: "command_options c = Some opts"
    and st: "consume_args (\<lambda>_ ns. Inr (ns, [])) (classified opts rest)
        \<lparr> ps_namespace = N\<lparr> ns_command := Some c \<rparr>, ps_positional = NamePositional, ps_seen = [], ps_extras = [] \<rparr> = Inr st"
    and none: "missing opts st = []" and ns: "ns = ps_namespace st"
    using assms
    by (auto simp: parse_command_def parse_known_args_def bind_result_Inr_iff split: list.splits option.splits if_splits)
  have "set opts \<subseteq> set deploy_options"
    using c by (auto elim!: command_optionsE simp: deploy_options_def identity_options_def rollback_options_def)
  from filled_end [OF st _ this, of c] have "filled c st" by (simp add: filled_def)
  moreover note missing_none [OF none]
  ultimately show ?thesis
    unfolding ns
    by - (rule command_optionsE [OF c];
      auto simp: filled_def fully_parsed_def arguments_of_def command_word_def deploy_options_def
        rollback_options_def table_defs)
qed

lemma complete_updates:
  "fully_parsed (ns\<lparr> ns_api_url := u \<rparr>) = fully_parsed ns" "fully_parsed (ns\<lparr> ns_timeout := t \<rparr>) = fully_parsed ns"
  by (auto simp: fully_parsed_def arguments_of_def split: option.splits)

lemma top_stores:
  "\<forall>x \<in> set (top_options pf). \<forall>store v N ns. co_store x = Some store \<longrightarrow> store v N = Inr ns \<longrightarrow>
     fully_parsed N \<longrightarrow> fully_parsed ns"
  by (auto simp: top_options_def table_defs complete_updates split: option.splits)

lemma parse_args_complete:
  assumes "parse_args py_float env argv = Inr ns"
  shows "fully_parsed ns"
proof -
  let ?I = "\<lambda>st. ps_positional st = CommandPositional \<or> ps_positional st = NoPositional \<and> fully_parsed (ps_namespace st)"
  obtain st where st: "consume_args parse_command (classified (top_options py_float) argv)
      \<lparr> ps_namespace = default_namespace env, ps_positional = CommandPositional, ps_seen = [], ps_extras = [] \<rparr> = Inr st"
    and none: "missing (top_options py_float) st = []" and ns: "ns = ps_namespace st"
    using assms by (auto simp: parse_args_def parse_known_args_def bind_result_Inr_iff split: if_splits)
  have "?I st"
  proof (rule consume_invariant [where I = ?I and opts = "top_options py_float", OF st])
    show "\<forall>(s, c) \<in> set (classified (top_options py_float) argv). read_from (top_options py_float) c"
      using parse_optional_read_from by auto
  qed (auto simp: unknown_def see_def intro: parse_command_complete top_stores [rule_format])
  then show ?thesis using missing_none(1) [OF none] by (simp add: ns)
qed

lemma more_flags_in_model: "more_flags t sep v \<noteq> OutsideModel"
  by (induction t sep v rule: more_flags.induct) (auto split: list.split)

lemma consume_in_model:
  assumes "\<And>argv ns. sub argv ns \<noteq> Inl OutsideModel"
  shows "consume_args sub r st \<noteq> Inl OutsideModel"
  using assms
proof (induction sub r st rule: consume_args.induct)
  case (2 sub s r st)
  then show ?case by (auto simp: bind_result_Inl_iff split: positional.split)
next
  case (3 sub s readings r st)
  then show ?case
    by (auto simp: bind_result_Inl_iff use_error_def more_flags_in_model
        split: list.split prod.split option.split sum.splits arg_class.split)
qed simp

lemma parse_args_in_model:
  "parse_args py_float env argv = Inl OutsideModel \<longleftrightarrow> list_ex version_dependent argv"
proof -
  have "parse_known_args sub opts p argv ns \<noteq> Inl OutsideModel"
    if "\<And>argv ns. sub argv ns \<noteq> Inl OutsideModel" for sub opts p argv ns
    using consume_in_model [OF that] by (auto simp: parse_known_args_def bind_result_Inl_iff)
  from this this [of parse_command] show ?thesis
    by (auto simp: parse_args_def bind_result_Inl_iff parse_command_def split: list.split option.split)
qed

section \<open>Properties\<close>

text \<open>
  (C26) Every request the client can make can be written as a command line, whatever characters its
  values have: parsing the line of some arguments whose values stand after equals signs, under any
  environment, gives back exactly these arguments, and the program does for the line what it does for
  them. The name must not be empty or start with a dash, the integers must be of a length \<open>int\<close> reads, and
  \<open>float\<close> must read the text of the time limit back.
\<close>

theorem command_line_round_trip:
  assumes "writable a" "py_float (ft (timeout a)) = Some (timeout a)"
  shows "map_sum id arguments_of (parse_args py_float env (command_line ft a)) = Inr (Some a) \<and>
    cli_main fr py_str py_float help usage env uuid (command_line ft a) opener = Some (cli_run fr py_str uuid a opener)"
proof -
  have "arguments_of (command_namespace a ((default_namespace env)\<lparr> ns_api_url := api_url a,
      ns_timeout := timeout a \<rparr>)) = Some a"
    by (rule arguments_of_command_namespace) (simp_all add: default_namespace_def)
  then show ?thesis
    using parse_args_command_line [of a py_float ft env, OF assms] by (simp add: cli_main_def)
qed

definition dashed_arguments :: cli_arguments where
  "dashed_arguments =
     \<lparr> api_url = ''http://api/?q=--help'', timeout = 5 / 2, cmd = Deploy ''-m'' [] (-3) 80 [''cpu=1'', ''--limit''] [''a b''],
       arg_name = ''demo'', arg_namespace = ''--namespace='' \<rparr>"

theorem command_line_round_trip_witness:
  "command_line (\<lambda>_. ''2.5'') dashed_arguments =
     [''--api-url=http://api/?q=--help'', ''--timeout=2.5'', ''deploy'', ''demo'', ''--namespace=--namespace='',
      ''--model=-m'', ''--version='', ''--replicas=-3'', ''--port=80'', ''--request=cpu=1'', ''--request=--limit'',
      ''--limit=a b''] \<and>
   map_sum id arguments_of (parse_args (\<lambda>s. if s = ''2.5'' then Some (5 / 2) else None) (\<lambda>_. None)
     (command_line (\<lambda>_. ''2.5'') dashed_arguments)) = Inr (Some dashed_arguments)"
proof
  show "command_line (\<lambda>_. ''2.5'') dashed_arguments =
     [''--api-url=http://api/?q=--help'', ''--timeout=2.5'', ''deploy'', ''demo'', ''--namespace=--namespace='',
      ''--model=-m'', ''--version='', ''--replicas=-3'', ''--port=80'', ''--request=cpu=1'', ''--request=--limit'',
      ''--limit=a b'']"
    by code_simp
  have "writable dashed_arguments" by code_simp
  then show "map_sum id arguments_of (parse_args (\<lambda>s. if s = ''2.5'' then Some (5 / 2) else None) (\<lambda>_. None)
     (command_line (\<lambda>_. ''2.5'') dashed_arguments)) = Inr (Some dashed_arguments)"
    using command_line_round_trip [of dashed_arguments "\<lambda>s. if s = ''2.5'' then Some (5 / 2) else None" "\<lambda>_. ''2.5''"]
    by (simp add: dashed_arguments_def)
qed

text \<open>
  (C27) Every command line ends in one of three ways. Either parsing stops: the help is printed and the
  status is 0, or the usage is and the status is 2, and no request is made, whatever the server would
  answer. Or it yields a namespace with every attribute that \<open>run\<close> reads for the command in it, so
  the program goes on with these arguments and never fails for want of one.
\<close>

theorem cli_main_outcome:
  assumes "\<not> list_ex version_dependent argv"
  shows "case parse_args py_float env argv of
      Inl stop \<Rightarrow> \<exists>shown. \<forall>opener. cli_main fr py_str py_float help usage env uuid argv opener =
        Some (if stop = HelpShown then Exit 0 [shown] [] else Exit 2 [] [shown])
    | Inr ns \<Rightarrow> \<exists>a. arguments_of ns = Some a \<and> ns_command ns = Some (command_word (cmd a)) \<and>
        (\<forall>opener. cli_main fr py_str py_float help usage env uuid argv opener = Some (cli_run fr py_str uuid a opener))"
proof (cases "parse_args py_float env argv")
  case (Inl stop)
  then show ?thesis
    using assms parse_args_in_model [of py_float env argv] by (cases stop) (auto simp: cli_main_def)
next
  case (Inr ns)
  then show ?thesis using parse_args_complete [OF Inr] by (auto simp: fully_parsed_def cli_main_def)
qed

theorem cli_main_outcome_witness:
  "(\<forall>opener. cli_main id (\<lambda>_. []) (\<lambda>_. None) (\<lambda>_. ''help'') (\<lambda>_. ''usage'') (\<lambda>_. None) ''u''
      [''rollback'', ''--name'', ''ns'', ''demo'', ''--ver'', ''-1''] opener =
    Some (cli_run id (\<lambda>_. []) ''u'' \<lparr> api_url = ''http://127.0.0.1:8000'', timeout = 10, cmd = Rollback ''-1'',
      arg_name = ''demo'', arg_namespace = ''ns'' \<rparr> opener)) \<and>
   (\<exists>shown. \<forall>opener. cli_main id (\<lambda>_. []) (\<lambda>_. None) (\<lambda>_. ''help'') (\<lambda>_. ''usage'') (\<lambda>_. None) ''u''
      [''deploy'', ''demo'', ''--model=m''] opener = Some (Exit 2 [] [shown]))"
proof
  let ?argv = "[''rollback'', ''--name'', ''ns'', ''demo'', ''--ver'', ''-1'']"
  have p: "map_sum id arguments_of (parse_args (\<lambda>_. None) (\<lambda>_. None) ?argv) = Inr (Some \<lparr> api_url = ''http://127.0.0.1:8000'',
      timeout = 10, cmd = Rollback ''-1'', arg_name = ''demo'', arg_namespace = ''ns'' \<rparr>)"
    by code_simp
  have "\<not> list_ex version_dependent ?argv" by code_simp
  from cli_main_outcome [OF this, of id "\<lambda>_. []" "\<lambda>_. None" "\<lambda>_. ''help''" "\<lambda>_. ''usage''" "\<lambda>_. None" "''u''"] p
  show "\<forall>opener. cli_main id (\<lambda>_. []) (\<lambda>_. None) (\<lambda>_. ''help'') (\<lambda>_. ''usage'') (\<lambda>_. None) ''u'' ?argv opener =
    Some (cli_run id (\<lambda>_. []) ''u'' \<lparr> api_url = ''http://127.0.0.1:8000'', timeout = 10, cmd = Rollback ''-1'',
      arg_name = ''demo'', arg_namespace = ''ns'' \<rparr> opener)"
    by (auto split: sum.splits)
next
  let ?argv = "[''deploy'', ''demo'', ''--model=m'']"
  have p: "parse_args (\<lambda>_. None) (\<lambda>_. None) ?argv = Inl (Usage (MissingRequired [''--version'']))" by code_simp
  have "\<not> list_ex version_dependent ?argv" by code_simp
  from cli_main_outcome [OF this, of id "\<lambda>_. []" "\<lambda>_. None" "\<lambda>_. ''help''" "\<lambda>_. ''usage''" "\<lambda>_. None" "''u''"]
  show "\<exists>shown. \<forall>opener. cli_main id (\<lambda>_. []) (\<lambda>_. None) (\<lambda>_. ''help'') (\<lambda>_. ''usage'') (\<lambda>_. None) ''u'' ?argv opener =
    Some (Exit 2 [] [shown])"
    by (simp add: p)
qed

end
