(* ===== verification/Spec2Isabelle.thy ===== *)
theory Spec2Isabelle
  imports Deadlines Drain Sessions Runtime_Api Processes Cli_Args
begin

text \<open>
  Kernexys is a control plane for model deployments: a FastAPI service with a model registry in a SQL
  database, a gateway to a Kubernetes API server, a bounded asynchronous inference queue in Redis with
  a worker process, a command line client, and a reference model runtime. This development models the
  Python code under \<open>src/app\<close>, \<open>src/migrations\<close> and \<open>src/runtime/runtime_app\<close>, one theory or group of
  theories per component, and proves what makes each correct.

  \<^bold>\<open>How code is modelled.\<close> Python classes and pydantic models are records, Lua scripts and handlers are
  functions of explicit state, exceptions are the left values of a sum (\<open>py_error\<close>, \<open>exc\<close>,
  \<open>queue_error\<close>, \<open>gateway_error\<close>), a dict is an association list in insertion order, and text is
  Latin-1 (a \<open>char\<close> is a code point below 256). A float inside JSON is the text that denotes it; times,
  durations and scores are rational numbers. Code that is not in the repository is a record of
  operations that the definitions take as an argument, with the documented behaviour the proofs use
  as a locale and a concrete instance that satisfies it: Redis (\<open>redis_server\<close>, \<open>mem_redis\<close>), the SQL
  database (\<open>sql_server\<close>, \<open>mem_sql\<close>, which refuses values it cannot store) and the sessions on it (\<open>orm_library\<close>, \<open>uow_orm\<close>), the Kubernetes
  API server (\<open>k8s_server\<close>, \<open>mem_k8s\<close>), pydantic's lax coercions (\<open>pydantic_lax\<close>), the routing, the JSON
  bodies and the URLs of the web framework (\<open>web_framework\<close>, \<open>plain_framework\<close>), the text of floats in Lua and Python
  (\<open>float_codec\<close>) and double arithmetic (\<open>double\<close>). Every network round trip may be lost before or after it takes effect (\<open>link\<close>
  in \<open>Prelude\<close>), and database and cluster calls may be preceded by changes of other clients.

  \<^bold>\<open>Foundations.\<close> \<open>Prelude\<close>: results and their composition, lossy calls, lists and maps. \<open>Json\<close>:
  \<open>json.dumps\<close> with sorted keys and \<open>json.loads\<close>, with the round trip; the parser spends one unit of
  fuel per nested value, gets one more than the length of its text, and \<open>json_loads_dumps\<close> shows that
  this is enough for every printed value. \<open>Json_Text\<close>: \<open>json.dumps\<close> with any separators, indentation
  and key order, its round trip, and that flat layouts print one line. \<open>Py_Text\<close>: \<open>strip\<close>, \<open>lower\<close>,
  \<open>int()\<close>, and regular expressions matched by derivatives, with their language. \<open>Py_Values\<close>: indexing,
  \<open>get\<close> and equality of JSON values.

  \<^bold>\<open>Asynchronous inference.\<close> \<open>Redis_Server\<close> states the Redis commands. \<open>Async_Queue\<close>
  (\<open>app/async_queue.py\<close>) translates the two Lua scripts and every operation and shows that the keys
  implement an abstract queue (\<open>qstate\<close>, \<open>qabs\<close>, the \<open>spec\<close> operations); \<open>Queue_Properties\<close> has the
  contracts of each operation on every transport outcome. \<open>Worker\<close> (\<open>app/worker.py\<close>) has
  \<open>process_job\<close> over the outcome of an HTTP request (\<open>http_outcome\<close>: an exception, or a status with a
  decoded body or the exception of decoding it), the two loops and the lease; \<open>Worker_System\<close> makes API
  submissions, workers, sweeps and the passing of time one step relation \<open>sys_step\<close> and keeps its
  invariant. Its steps are single commands to Redis, and a sweep is three of them: the lock, the
  reading of the clock, and the script, which may take effect late. The reply of a command may be lost
  after its effect and the command be sent again. \<open>Delivery\<close> derives that no job is lost, terminal
  records are final and claims are exclusive in timely runs, in which sweeps are late by at most \<open>\<delta>\<close>
  and claims younger than the lease by more than that. \<open>Deadlines\<close> adds the time limits of every
  await, with \<open>r\<close> for the time after which a command to Redis is over: by default every run is timely when
  \<open>r\<close> is less than 6 seconds, and for some accepted settings a finished job can be rewound. \<open>Drain\<close>
  shows that the loop settles every waiting job. \<open>Worker_Tasks\<close> is the worker process as a whole, its
  task group, signals, cancellation and closing as a step relation on the awaits of each task: it stops
  in a bounded number of steps when told to, and otherwise a task ends only by an exception that
  \<open>process_job\<close> does not handle, which an answer of the runtime can cause. \<open>Async_Routes\<close> (\<open>app/async_routes.py\<close>) and
  \<open>Async_Properties\<close> follow a job from the client's request to the client's poll.

  \<^bold>\<open>Control API.\<close> \<open>Schemas\<close> (\<open>app/schemas.py\<close>), \<open>Config\<close> (\<open>app/config.py\<close>), \<open>Errors\<close>
  (\<open>app/errors.py\<close>), \<open>Sql_Server\<close> (\<open>app/db_models.py\<close>), \<open>Registry\<close> (\<open>app/repository.py\<close>,
  \<open>app/routes.py\<close>) with \<open>Registry_Properties\<close>: versions are immutable, the tables only grow, pages list every
  model once, and races do not surface as database errors when the database can store the values.
  \<open>Database\<close> (\<open>app/database.py\<close>, the migration, the declarations of
  \<open>app/db_models.py\<close>): the migrated tables are the declared ones and hold every accepted
  name, version and digest, while text with NUL is accepted and does not fit.
  \<open>Sessions\<close> (\<open>get_session\<close>, and the repository and its routes call by call on a session): they do over a
  unit of work what \<open>Registry\<close> says over the database.
  \<open>Kubernetes\<close> (\<open>app/kubernetes.py\<close>) and \<open>Deployments\<close>
  (\<open>app/deployment_routes.py\<close>) with \<open>Deployment_Properties\<close>: deployments run the registered image and
  rollbacks are optimistic. \<open>Middleware\<close> (\<open>app/middleware.py\<close>): the body limit over ASGI messages, the
  request id, and the access log, for which the framework reads the path from the URL. \<open>Metrics\<close> (\<open>app/metrics.py\<close>): the collector against the history of its events, and
  the exported percentiles as order statistics. \<open>Logs\<close> (\<open>app/logging_config.py\<close>,
  \<open>app/observability.py\<close>): both formatters and set-ups over a state of the logging library with its
  level, and what each line says. \<open>App\<close> (\<open>app/main.py\<close>): the factory's
  choices, the life cycle of the owned resources, the default access log. \<open>Migration_Env\<close>
  (\<open>migrations/env.py\<close>): the URL through the configuration parser and the two kinds of run.

  \<^bold>\<open>The API as a whole.\<close> \<open>Routing\<close> has the route table of \<open>create_app\<close>, the framework as a locale, and
  that no two routes of the table accept the same request. \<open>Control_Api\<close> composes middleware, routes,
  decoding, the endpoints of the components above and the exception handlers into one function from
  a request and the state of database, cluster and queue to the reply and the new state, with the
  JSON of every response model: errors that are answered share one envelope, and GET requests change
  nothing. What \<open>JSONResponse\<close> cannot encode (\<open>encodable\<close>) and a URL that cannot be read end in a bare 500.

  \<^bold>\<open>Client and runtime.\<close> \<open>Cli\<close> (\<open>app/cli.py\<close>): the request of each command and the outcome of each
  response, against the API's schemas and error bodies. \<open>Cli_Args\<close> (\<open>build_parser\<close>) is its command line
  as argparse reads it, with the round trip from arguments to a line and back. \<open>Cli_Api\<close> runs the client against \<open>Control_Api\<close>: a
  command is a call of its endpoint, and a deployment is followed from the flags of the command to the
  object in the cluster and back to the terminal. \<open>Classifier\<close> (\<open>runtime_app/classifier.py\<close>): the
  label in double arithmetic against the exact score, up to texts of 4096 characters, the limit of the
  schema. \<open>Runtime_App\<close> (the rest of \<open>runtime_app\<close>): configuration, counters, its copy of the
  middleware and the life cycle. \<open>Runtime_Api\<close> is its whole HTTP application and a process along any
  sequence of requests, whose counters are exact for requests with a plain host and path. \<open>Processes\<close> (the entry points, \<open>create_app\<close> before
  the first request, the construction of the queues): one environment configures all processes
  alike. This theory composes the worker with the runtime.

  \<^bold>\<open>Not modelled.\<close> The FastAPI, SQLAlchemy, aiohttp, Redis, Kubernetes and Prometheus libraries
  themselves and the uvicorn server; the texts of argparse's messages and the few arguments that its
  releases read differently; opening and closing of network connections by clients, and how the
  Redis client's options bound the duration of a command; the response model
  \<open>DeploymentDeleteResponse\<close>, which no route uses; the controller written in Go, the Helm charts and the
  deployment manifests, which are not Python. Characters beyond Latin-1 are outside the model, and
  paths with line breaks are outside the routing locale; offsets of pages above \<open>10 ^ 18\<close> are not
  considered. That a job is settled before its record expires depends on the load and is an assumption
  of the runs in \<open>Delivery\<close> and \<open>Deadlines\<close>, as is that the clocks and the settings of the workers agree.
  Remaining work: the validity of the exported metrics text for arbitrary label values.
\<close>

section \<open>The worker and the runtime together\<close>

text \<open>
  The HTTP exchange of the worker with the reference runtime: the JSON text of the request as one
  body, the runtime's body limit, its inference endpoint, and the status of each outcome; an exception
  that leaves the runtime is answered by its server as plain text, which \<open>response.json()\<close> refuses.
  \<open>repr\<close> is the text of the confidence, \<open>render\<close> pydantic's rendering of a violation.
\<close>

definition runtime_answer ::
  "(rat \<Rightarrow> string) \<Rightarrow> (violation \<Rightarrow> dict) \<Rightarrow> string \<Rightarrow> exc + infer_response \<Rightarrow> http_outcome" where
  "runtime_answer repr render rid r =
     (case r of
        Inr a \<Rightarrow> HttpResponse 200 (Inr (infer_json repr a))
      | Inl (ValidationExc vs) \<Rightarrow>
          (case runtime_validation_error render rid vs of
             Inl _ \<Rightarrow> HttpResponse 500 (Inl ClientError)
           | Inr (status, b) \<Rightarrow> HttpResponse status (Inr b))
      | Inl (HttpExc status detail) \<Rightarrow> HttpResponse status (Inr (JDict [(''detail'', detail)]))
      | Inl _ \<Rightarrow> HttpResponse 500 (Inl ClientError))"

definition runtime_http ::
  "floats \<Rightarrow> (string \<Rightarrow> string) \<Rightarrow> (rat \<Rightarrow> string) \<Rightarrow> (violation \<Rightarrow> dict) \<Rightarrow> runtime_settings \<Rightarrow> runtime_state \<Rightarrow> string
     \<Rightarrow> json \<Rightarrow> http_outcome" where
  "runtime_http F fr repr render st r rid v =
     (let bytes = json_print fr default_layout 0 v;
          sc = \<lparr> sc_type = ''http'',
                 sc_headers = [(''content-length'', show_int (int (length bytes)))] \<rparr> in
      case runtime_body_limit (rs_max_request_bytes st) sc [HttpRequest (Some bytes) (Some False)] of
        Reject _ \<Rightarrow> HttpResponse 413 (Inr (snd (runtime_reject (rs_max_request_bytes st) rid)))
      | _ \<Rightarrow>
          (case json_loads bytes of
             None \<Rightarrow> HttpResponse 422 (Inl ClientError)
           | Some body \<Rightarrow> runtime_answer repr render rid (runtime_infer F st r rid body)))"

abbreviation text_body :: "string \<Rightarrow> json" where
  "text_body t \<equiv> JDict [(''text'', JStr t)]"

abbreviation body_size :: "(string \<Rightarrow> string) \<Rightarrow> string \<Rightarrow> int" where
  "body_size fr t \<equiv> int (length (json_print fr default_layout 0 (text_body t)))"

lemma esc_char_length: "length (esc_char c) \<le> 6"
  by (simp add: esc_char_def Let_def)

lemma text_body_size: "body_size fr t = 12 + int (length (concat (map esc_char t)))"
  by (simp add: default_layout_def dump_str_def key_order_def esc_char_def Let_def)

lemma body_size_bound: "length t \<le> 4096 \<Longrightarrow> body_size fr t < 100000"
proof -
  have "length (concat (map esc_char t)) \<le> 6 * length t"
    using esc_char_length by (induction t) (auto simp: add_mono)
  then show "length t \<le> 4096 \<Longrightarrow> body_size fr t < 100000" unfolding text_body_size by linarith
qed

lemma runtime_http_eq:
  assumes "length t \<le> 4096"
  shows "runtime_http F fr repr render st r rid (text_body t) =
    (if rs_max_request_bytes st < body_size fr t
     then HttpResponse 413 (Inr (snd (runtime_reject (rs_max_request_bytes st) rid)))
     else runtime_answer repr render rid (runtime_infer F st r rid (text_body t)))"
proof -
  have "nat \<bar>body_size fr t\<bar> < 10 ^ Suc 4" using body_size_bound [OF assms] by simp
  then have "py_int (show_int (body_size fr t)) = Some (body_size fr t)"
    using show_nat_length [of "nat \<bar>body_size fr t\<bar>" 4] by (intro py_int_show) linarith
  moreover have "json_loads (json_print fr default_layout 0 (text_body t)) = Some (text_body t)"
    using json_loads_print [OF layouts_ok(1), of fr "text_body t" 0]
    by (simp add: reorder_def default_layout_def del: json_print.simps)
  ultimately show ?thesis
    by (simp add: runtime_http_def runtime_body_limit_eq body_limit_def declared_too_large_def
        header_def Let_def del: json_print.simps)
qed

text \<open>
  This exchange is what the worker sees of the whole runtime application: the same outcome comes from
  a POST of the JSON text that passes its middleware, its routes and its handlers.
\<close>

definition seen :: "exc + reply \<Rightarrow> http_outcome" where
  "seen res =
     (case res of
        Inl e \<Rightarrow> HttpResponse 500 (Inl ClientError)
      | Inr rep \<Rightarrow>
          HttpResponse (rp_status rep) (case rp_body rep of JsonBody v \<Rightarrow> Inr v | _ \<Rightarrow> Inl ClientError))"

definition infer_post :: "(string \<Rightarrow> string) \<Rightarrow> json \<Rightarrow> string \<Rightarrow> rat \<Rightarrow> runtime_request" where
  "infer_post fr v uuid elapsed =
     (let bytes = json_print fr default_layout 0 v in
      \<lparr> rr_verb = ''POST'', rr_path = ''/v1/infer'',
        rr_scope = \<lparr> sc_type = ''http'',
          sc_headers = [(''content-length'', show_int (int (length bytes))), (''content-type'', ''application/json'')] \<rparr>,
        rr_incoming = [HttpRequest (Some bytes) (Some False)], rr_uuid = uuid, rr_elapsed = elapsed \<rparr>)"

lemma seen_respond:
  "seen (map_sum (\<lambda>e. e) (\<lambda>q. with_id rid \<lparr> rp_status = fst q, rp_headers = [], rp_body = snd q \<rparr>)
     (runtime_respond render rid (bind_result x (\<lambda>a. Inr (200, JsonBody (infer_json repr a)))))) =
   runtime_answer repr render rid x"
  by (cases x; (cases "projl x")?)
    (simp_all add: seen_def runtime_respond_def runtime_answer_def runtime_validation_error_def Let_def)

lemma one_message_limit:
  "(\<exists>b. runtime_body_limit n sc [HttpRequest d (Some False)] = Reject b) \<or>
   runtime_body_limit n sc [HttpRequest d (Some False)] = Forward [HttpRequest d (Some False)] [] \<or>
   sc_type sc \<noteq> ''http''"
  by (auto simp: runtime_body_limit_def Let_def)

lemma no_supplied_id: "choose_request_id None uuid = uuid"
proof -
  have "\<not> rx_match REQUEST_ID_PATTERN []" by code_simp
  then show ?thesis by (simp add: choose_request_id_def)
qed

lemma runtime_http_served:
  assumes "web_framework (re_framework E)" "runtime_docs_only (re_docs E)" "jwf fr v"
  shows "\<exists>res p'. runtime_serve E st (infer_post fr v uuid elapsed) p = Some (res, p') \<and>
    seen res = runtime_http (re_floats E) fr (re_repr E) (re_render E) st (rk_state p) uuid v"
proof -
  let ?bytes = "json_print fr default_layout 0 v"
  let ?rq = "infer_post fr v uuid elapsed" and ?m = "[HttpRequest (Some ?bytes) (Some False)]"
  let ?sc = "\<lparr> sc_type = ''http'', sc_headers = [(''content-length'', show_int (int (length ?bytes)))] \<rparr>"
  have rq: "rr_verb ?rq = ''POST''" "rr_path ?rq = ''/v1/infer''" "rr_incoming ?rq = ?m" "rr_uuid ?rq = uuid"
    "header (rr_scope ?rq) ''x-request-id'' = None"
    "map_of (sc_headers (rr_scope ?rq)) ''content-type'' = Some ''application/json''"
    by (simp_all add: infer_post_def Let_def header_def)
  have url: "url_path_of E ?rq = Inr ''/v1/infer''"
    using ordinary_url [OF assms(1), of ?rq] rq(2)
    by (simp add: ordinary_def infer_post_def Let_def plain_host_def plain_path_def)
  have lim: "runtime_body_limit n (rr_scope ?rq) ms = runtime_body_limit n ?sc ms" for n ms
    by (simp add: infer_post_def Let_def runtime_body_limit_def runtime_header_def)
  have loads: "json_loads ?bytes = Some v"
    using json_loads_print [OF layouts_ok(1) assms(3), of 0] by (simp add: reorder_def default_layout_def)
  have app: "runtime_application E st p ''POST'' ''/v1/infer'' (rr_scope ?rq) ?m rid =
      runtime_respond (re_render E) rid (bind_result (runtime_infer (re_floats E) st (rk_state p) rid v)
        (\<lambda>a. Inr (200, JsonBody (infer_json (re_repr E) a))))" for rid
    using web_framework.json_body [OF assms(1) rq(6) loads]
    unfolding runtime_application_def infer_select [OF assms(1,2)] by (simp add: runtime_endpoint_call_def)
  consider b where "runtime_body_limit (rs_max_request_bytes st) ?sc ?m = Reject b"
    | "runtime_body_limit (rs_max_request_bytes st) ?sc ?m = Forward ?m []"
    using one_message_limit [of "rs_max_request_bytes st" ?sc "Some ?bytes"] by auto
  then show ?thesis
  proof cases
    case 1
    then show ?thesis
      by (simp add: runtime_serve_def runtime_limited_def rq url lim dispatch_eq no_supplied_id runtime_http_def
          Let_def seen_def runtime_reject_def del: json_print.simps)
  next
    case 2
    show ?thesis
      using seen_respond [of uuid "re_render E" "runtime_infer (re_floats E) st (rk_state p) uuid v" "re_repr E"]
      by (simp add: runtime_serve_def runtime_limited_def rq url lim 2 dispatch_eq no_supplied_id runtime_http_def
          Let_def app loads sum.map_comp comp_def case_prod_beta del: json_print.simps)
  qed
qed

lemma runtime_infer_text:
  assumes "rt_ready r" and "rt_classifier r = Some c" and "length t \<le> 4096" and "x = rust_trim t"
  shows "runtime_infer F st r rid (text_body t) =
    (if x = [] then Inl (ValidationExc (projl (under ''body'' (InferRequest (text_body t)))))
     else (case predict F c x of
             Inl e \<Rightarrow> Inl (PyExc e)
           | Inr p \<Rightarrow> Inr \<lparr> ir_model = rs_model_name st, ir_version = rs_model_version st,
               ir_label = pr_label p, ir_confidence = pr_confidence p, ir_request_id = rid \<rparr>))"
proof -
  have l: "length x \<le> 4096" using strip_by_no_longer [of rust_isspace t] assms(3,4) by (simp add: rust_trim_def)
  show ?thesis
  proof (cases "x = []")
    case True
    then have "InferRequest (text_body t) \<noteq> Inr y" for y
      using assms(4) by (auto simp: InferRequest_text)
    then obtain vs where "InferRequest (text_body t) = Inl vs" by (cases "InferRequest (text_body t)") auto
    then show ?thesis using True by (simp add: runtime_infer_def under_def)
  next
    case False
    then have "InferRequest (text_body t) = Inr x"
      using l assms(4) by (simp add: InferRequest_text Suc_le_eq)
    then show ?thesis using False assms(1,2) by (simp add: runtime_infer_def under_def)
  qed
qed

lemma predicted_label:
  assumes "double F" and "SentimentClassifier v = Inr c" and "length x \<le> 4096"
    and "- 708 \<le> exact_score c x" and "1 / 10 \<le> \<bar>exact_score c x\<bar>"
  shows "\<exists>q. predict F c x = Inr q \<and>
    pr_label q = (if 0 < exact_score c x then ''positive'' else ''negative'')"
proof -
  note p = double.predict_score [OF assms(1) SentimentClassifier_tame [OF assms(2)] assms(3)]
  show ?thesis
  proof (cases "0 < exact_score c x")
    case True
    then have "1 / 10 \<le> exact_score c x" using assms(5) by simp
    then show ?thesis using p(1) True by auto
  next
    case False
    then have "exact_score c x \<le> - 1 / 10" using assms(5) by simp
    then show ?thesis using p(2) [OF assms(4)] False by auto
  qed
qed

section \<open>Properties\<close>

text \<open>
  (C5) Asynchronous inference across the platform. Take any text the API accepts, the payload it
  queues for it, and a runtime that is ready in any state its life cycle reaches under an accepted
  configuration. Processing the job makes exactly one finish. If the encoded request fits the
  runtime's body limit and the trimmed text is not empty, the job succeeds with the runtime's model
  and version and the label given by the sign of the exact score of the trimmed text under that
  version's weights; if the request is too large, the trimmed text is empty or the score is below the
  range of the exponential, the job fails with the fixed message.
\<close>

theorem inference_end_to_end:
  assumes "double F" and "runtime_from_env env = Inr st" and "runtime_reachable st r" and "rt_ready r"
    and "SentimentClassifier (rs_model_version st) = Inr c" and "AsyncInferenceRequest body = Inr t"
    and "job = \<lparr> cj_job_id = i, cj_payload = job_payload ns n endpoint t \<rparr>"
    and "outcome = process_job R fr Q l (\<lambda>url. runtime_http F fr repr render st r rid) job s"
    and "x = rust_trim t"
  shows "(rs_max_request_bytes st < body_size fr t \<or> x = [] \<or> exact_score c x \<le> - 711 \<longrightarrow>
      outcome = lift_finish (finish R fr Q l i ''failed'' None (Some failure_message) s)) \<and>
    (body_size fr t \<le> rs_max_request_bytes st \<and> x \<noteq> [] \<and> - 708 \<le> exact_score c x \<and>
      1 / 10 \<le> \<bar>exact_score c x\<bar> \<longrightarrow>
      (\<exists>confidence. outcome = lift_finish (finish R fr Q l i ''succeeded''
        (Some (JDict [(''model'', JStr (rs_model_name st)), (''version'', JStr (rs_model_version st)),
          (''label'', JStr (if 0 < exact_score c x then ''positive'' else ''negative'')),
          (''confidence'', JFloat confidence), (''request_id'', JStr rid)])) None s)))"
proof -
  have t: "length t \<le> 4096"
    using assms(6) by (auto simp: AsyncInferenceRequest_def checked_iffs field_str_def split: option.splits)
  then have x: "length x \<le> 4096"
    using strip_by_no_longer [of rust_isspace t] by (simp add: assms(9) rust_trim_def)
  have k: "rt_classifier r = Some c" using reachable_classifier [OF assms(3,5)] assms(4) by simp
  note i = runtime_infer_text [OF assms(4) k t assms(9), of F st rid]
  note p = double.predict_score(3) [OF assms(1) SentimentClassifier_tame [OF assms(5)] x]
  note h = runtime_http_eq [OF t, of F fr repr render st r rid]
  have call: "outcome = (case http_result (runtime_http F fr repr render st r rid (text_body t)) of
      Inr v \<Rightarrow> lift_finish (finish R fr Q l i ''succeeded'' (not_null v) None s)
    | Inl e \<Rightarrow> if caught e then lift_finish (finish R fr Q l i ''failed'' None (Some failure_message) s)
        else (Inl (Uncaught e), s))"
    by (simp add: assms(7,8) process_job_def job_payload_def runtime_call_payload split: sum.split)
  show ?thesis
  proof (intro conjI impI; (elim conjE)?)
    assume "rs_max_request_bytes st < body_size fr t \<or> x = [] \<or> exact_score c x \<le> - 711"
    then show "outcome = lift_finish (finish R fr Q l i ''failed'' None (Some failure_message) s)"
      unfolding call h i using p
      by (auto simp: runtime_answer_def runtime_validation_error_def Let_def http_result_def caught_def)
  next
    assume a: "body_size fr t \<le> rs_max_request_bytes st" "x \<noteq> []" "- 708 \<le> exact_score c x"
      "1 / 10 \<le> \<bar>exact_score c x\<bar>"
    obtain q where q: "predict F c x = Inr q"
        "pr_label q = (if 0 < exact_score c x then ''positive'' else ''negative'')"
      using predicted_label [OF assms(1,5) x a(3,4)] by blast
    show "\<exists>confidence. outcome = lift_finish (finish R fr Q l i ''succeeded''
        (Some (JDict [(''model'', JStr (rs_model_name st)), (''version'', JStr (rs_model_version st)),
          (''label'', JStr (if 0 < exact_score c x then ''positive'' else ''negative'')),
          (''confidence'', JFloat confidence), (''request_id'', JStr rid)])) None s)"
      unfolding call h i using a(1,2) q
      by (simp add: runtime_answer_def http_result_def infer_json_def not_null_def del: json_print.simps) blast
  qed
qed

definition demo_runtime :: runtime_state where
  "demo_runtime = snd (runtime_start v2_settings create_runtime)"

theorem inference_end_to_end_witness:
  "\<exists>confidence. process_job mem_redis id demo_queue Delivered
      (\<lambda>url. runtime_http plain_floats id (\<lambda>_. ''0.9'') (\<lambda>_. []) v2_settings demo_runtime ''r-1'')
      \<lparr> cj_job_id = ''a'', cj_payload = job_payload ''n'' ''d'' ''http://h'' '' fast and reliable '' \<rparr> Map.empty =
    lift_finish (finish mem_redis id demo_queue Delivered ''a'' ''succeeded''
      (Some (JDict [(''model'', JStr ''sentiment''), (''version'', JStr ''v2''),
        (''label'', JStr ''positive''), (''confidence'', JFloat confidence),
        (''request_id'', JStr ''r-1'')])) None Map.empty)"
proof -
  let ?t = "'' fast and reliable ''"
  obtain c where c: "SentimentClassifier (rs_model_version v2_settings) = Inr c"
    by (simp add: v2_settings_def SentimentClassifier_def VERSIONED_WEIGHTS_def)
  have "case SentimentClassifier (rs_model_version v2_settings) of Inl _ \<Rightarrow> False
      | Inr c \<Rightarrow> exact_score c (rust_trim ?t) = 17 / 10"
    by code_simp
  then have sc: "exact_score c (rust_trim ?t) = 17 / 10" using c by simp
  have b: "AsyncInferenceRequest (text_body ?t) = Inr ?t" by code_simp
  have o: "body_size id ?t \<le> rs_max_request_bytes v2_settings \<and> rust_trim ?t \<noteq> [] \<and>
      rs_model_name v2_settings = ''sentiment'' \<and> rs_model_version v2_settings = ''v2''" by code_simp
  have d: "rt_ready demo_runtime" by code_simp
  have reach: "runtime_reachable v2_settings demo_runtime"
    unfolding demo_runtime_def by (rule started [OF created])
  show ?thesis
    using inference_end_to_end [OF exact.double_axioms demo_environ_settings reach d c b refl refl refl,
        THEN conjunct2] o
    unfolding sc by simp
qed

text \<open>
  (C37) A text within the documented length need not fit the runtime's body limit: JSON writes a character
  outside ASCII in six, so 4096 of them make a body of 24588 characters, over the default limit of
  16384. The API accepts the text and the runtime's schema would, but the runtime rejects the request
  and the job fails.
\<close>

theorem accepted_text_exceeds_limit:
  "AsyncInferenceRequest (text_body (replicate 4096 (CHR 0xE9))) = Inr (replicate 4096 (CHR 0xE9)) \<and>
   InferRequest (text_body (replicate 4096 (CHR 0xE9))) = Inr (replicate 4096 (CHR 0xE9)) \<and>
   rs_max_request_bytes v2_settings < body_size fr (replicate 4096 (CHR 0xE9)) \<and>
   runtime_http F fr repr render v2_settings r rid (text_body (replicate 4096 (CHR 0xE9))) =
     HttpResponse 413 (Inr (snd (runtime_reject 16384 rid)))"
proof -
  let ?t = "replicate 4096 (CHR 0xE9)"
  have "concat (map esc_char (replicate n (CHR 0xE9))) = concat (replicate n (esc_char (CHR 0xE9)))" for n
    by (induction n) auto
  moreover have "length (concat (replicate n (esc_char (CHR 0xE9)))) = 6 * n" for n
    by (induction n) (simp_all add: esc_char_def Let_def)
  ultimately have size: "body_size fr ?t = 24588" unfolding text_body_size by simp
  have "rust_trim ?t = ?t" unfolding rust_trim_def by (rule strip_by_id) (simp add: rust_isspace_def)
  then have "InferRequest (text_body ?t) = Inr ?t" by (simp add: InferRequest_text)
  moreover have "AsyncInferenceRequest (text_body ?t) = Inr ?t"
    by (simp add: AsyncInferenceRequest_def checked_iffs field_str_def)
  moreover have "rs_max_request_bytes v2_settings = 16384" by (simp add: v2_settings_def)
  ultimately show ?thesis
    using runtime_http_eq [of ?t F fr repr render v2_settings r rid] size by (simp del: json_print.simps)
qed

end
